(* ===== verification/Prelude.thy ===== *)
theory Prelude
  imports Main "HOL-Library.Word" "HOL-Library.Sublist"
begin

text \<open>
  What every component shares: the names of the model's base types, the outcome of a Rust
  computation that may panic, the development's simp collections, and an interface for
  transition systems whose invariants are proved once.

  A Rust \<^verbatim>\<open>u8\<close> is a HOL \<^typ>\<open>char\<close> (both have 256 values), a \<^verbatim>\<open>Vec<u8>\<close> or \<^verbatim>\<open>&[u8]\<close> is a list of
  them, and a \<^verbatim>\<open>String\<close> or \<^verbatim>\<open>&str\<close> is the list of its UTF-8 bytes, which is how Rust stores it.
  A \<^verbatim>\<open>Result<T, E>\<close> is a sum whose left side is the error.
\<close>

section \<open>Base types\<close>

type_synonym byte = char
type_synonym bytes = "char list"
type_synonym str = "char list"
type_synonym i64 = "64 word"
type_synonym u8 = "8 word"
type_synonym u16 = "16 word"
type_synonym u32 = "32 word"

type_synonym ('a, 'e) result = "'e + 'a"

abbreviation Ok :: "'a \<Rightarrow> ('a, 'e) result" where
  "Ok \<equiv> Inr"

abbreviation Err :: "'e \<Rightarrow> ('a, 'e) result" where
  "Err \<equiv> Inl"

text \<open>The numeric value of a byte.\<close>

abbreviation bv :: "byte \<Rightarrow> nat" where
  "bv c \<equiv> of_char c"

text \<open>The largest \<^verbatim>\<open>usize\<close> and \<^verbatim>\<open>isize\<close> of a 64-bit target.\<close>

definition usize_max :: nat where
  "usize_max = 2 ^ 64 - 1"

definition isize_max :: nat where
  "isize_max = 2 ^ 63 - 1"

lemma usize_max_eq: "usize_max = 18446744073709551615"
  by (simp add: usize_max_def)

lemma isize_max_eq: "isize_max = 9223372036854775807"
  by (simp add: isize_max_def)

lemma isize_le_usize: "isize_max \<le> usize_max"
  by (simp add: usize_max_eq isize_max_eq)

text \<open>
  A panic unwinds the task that runs the computation: nothing after it happens and no value is
  returned.
\<close>

datatype 'a outcome = Return 'a | Panic

primrec bind_outcome :: "'a outcome \<Rightarrow> ('a \<Rightarrow> 'b outcome) \<Rightarrow> 'b outcome" where
  "bind_outcome (Return x) f = f x"
| "bind_outcome Panic f = Panic"

lemma bind_outcome_Return_iff:
  "bind_outcome m f = Return y \<longleftrightarrow> (\<exists>x. m = Return x \<and> f x = Return y)"
  by (cases m) auto

section \<open>Collections of facts\<close>

named_theorems bytes_simps \<open>evaluation of byte and string functions on literals\<close>
named_theorems shrink \<open>a consumer leaves a shorter input\<close>
named_theorems wf_intros \<open>operations keep their component's invariant\<close>

section \<open>Lists\<close>

lemma take_drop_eq_append:
  assumes "take n xs = a" and "drop n xs = b"
  shows "xs = a @ b"
  using assms append_take_drop_id by metis

lemma drop_less_length [shrink]: "xs \<noteq> [] \<Longrightarrow> 0 < n \<Longrightarrow> length (drop n xs) < length xs"
  by (cases xs) auto

lemma split_at_sep:
  "x \<notin> set a \<Longrightarrow> x \<notin> set b \<Longrightarrow> a @ x # r = b @ x # s \<longleftrightarrow> a = b \<and> r = s"
proof (induction a arbitrary: b)
  case Nil
  then show ?case by (cases b) auto
next
  case (Cons y a)
  then show ?case by (cases b) auto
qed

lemma take_past_append: "length a \<le> k \<Longrightarrow> take k (a @ b) = a @ take (k - length a) b"
  by simp

lemma find_Some_set: "find P xs = Some x \<Longrightarrow> x \<in> set xs \<and> P x"
  by (induction xs) (auto split: if_splits)

lemma length_filter_update:
  "w < length xs \<Longrightarrow>
     length (filter P (xs[w := x])) + of_bool (P (xs ! w)) = length (filter P xs) + of_bool (P x)"
proof (induction xs arbitrary: w)
  case (Cons y xs)
  then show ?case by (cases w) auto
qed simp

section \<open>Transition systems\<close>

text \<open>
  A component whose operations interleave is a set of start states and a step relation. A
  predicate that holds at the start and that every step keeps holds in every reachable state.
\<close>

inductive reachable :: "('s \<Rightarrow> bool) \<Rightarrow> ('s \<Rightarrow> 's \<Rightarrow> bool) \<Rightarrow> 's \<Rightarrow> bool"
  for start step where
  reach_start: "start s \<Longrightarrow> reachable start step s"
| reach_step: "reachable start step s \<Longrightarrow> step s t \<Longrightarrow> reachable start step t"

locale invariant_system =
  fixes start :: "'s \<Rightarrow> bool"
    and step :: "'s \<Rightarrow> 's \<Rightarrow> bool"
    and inv :: "'s \<Rightarrow> bool"
  assumes inv_start: "start s \<Longrightarrow> inv s"
    and inv_step: "inv s \<Longrightarrow> step s t \<Longrightarrow> inv t"
begin

lemma reachable_inv: "reachable start step s \<Longrightarrow> inv s"
  by (induction rule: reachable.induct) (auto intro: inv_start inv_step)

lemma reachable_steps_inv:
  assumes "reachable start step s" and "step\<^sup>*\<^sup>* s t"
  shows "reachable start step t \<and> inv t"
proof -
  from assms(2,1) have "reachable start step t"
    by (induction rule: rtranclp_induct) (auto intro: reach_step)
  then show ?thesis
    by (simp add: reachable_inv)
qed

end

text \<open>
  A system whose every step lowers a number stops: a run has at most that many steps, and from every
  state some run reaches a state with no step left.
\<close>

locale terminating_system =
  fixes step :: "'s \<Rightarrow> 's \<Rightarrow> bool"
    and potential :: "'s \<Rightarrow> nat"
  assumes step_lowers: "step s t \<Longrightarrow> potential t < potential s"
begin

lemma run_bounded: "(step ^^ i) s t \<Longrightarrow> i + potential t \<le> potential s"
proof (induction i arbitrary: t)
  case (Suc i)
  then obtain u where "(step ^^ i) s u" "step u t" by auto
  with Suc.IH step_lowers show ?case by fastforce
qed simp

lemma run_ends: "\<exists>t. step\<^sup>*\<^sup>* s t \<and> (\<nexists>u. step t u)"
proof (induction s rule: measure_induct_rule [of potential])
  case (less s)
  show ?case
  proof (cases "\<exists>u. step s u")
    case True
    then obtain u where "step s u" by blast
    with less step_lowers show ?thesis by (meson converse_rtranclp_into_rtranclp)
  qed blast
qed

end

text \<open>
  A detailed system over an abstract one: each of its steps is a step of the abstract system or one that
  the abstraction does not see.
\<close>

locale simulation =
  fixes step :: "'s \<Rightarrow> 's \<Rightarrow> bool"
    and abstract_step :: "'a \<Rightarrow> 'a \<Rightarrow> bool"
    and abstraction :: "'s \<Rightarrow> 'a"
  assumes simulates: "step s t \<Longrightarrow> abstract_step (abstraction s) (abstraction t) \<or> abstraction s = abstraction t"
begin

lemma run_simulated: "step\<^sup>*\<^sup>* s t \<Longrightarrow> abstract_step\<^sup>*\<^sup>* (abstraction s) (abstraction t)"
proof (induction rule: rtranclp_induct)
  case (step t u)
  with simulates [OF step(2)] show ?case by auto
qed simp

end

end
