(* ===== verification/Rust_Str.thy ===== *)
theory Rust_Str
  imports Prelude
begin

text \<open>
  The operations of Rust's standard library on strings, byte slices and numbers that the
  program uses, on UTF-8 byte lists: ASCII case, splitting and searching, \<^verbatim>\<open>str::trim\<close> with the
  Unicode white space, UTF-8 validation and lossy decoding, decimal printing and parsing.
\<close>

section \<open>ASCII\<close>

definition is_ascii_digit :: "byte \<Rightarrow> bool" where
  "is_ascii_digit c \<longleftrightarrow> 48 \<le> bv c \<and> bv c \<le> 57"

definition is_ascii_uppercase :: "byte \<Rightarrow> bool" where
  "is_ascii_uppercase c \<longleftrightarrow> 65 \<le> bv c \<and> bv c \<le> 90"

definition is_ascii_lowercase :: "byte \<Rightarrow> bool" where
  "is_ascii_lowercase c \<longleftrightarrow> 97 \<le> bv c \<and> bv c \<le> 122"

definition lower_byte :: "byte \<Rightarrow> byte" where
  "lower_byte c = (if is_ascii_uppercase c then char_of (bv c + 32) else c)"

definition upper_byte :: "byte \<Rightarrow> byte" where
  "upper_byte c = (if is_ascii_lowercase c then char_of (bv c - 32) else c)"

definition to_ascii_lowercase :: "str \<Rightarrow> str" where
  "to_ascii_lowercase s = map lower_byte s"

definition to_ascii_uppercase :: "str \<Rightarrow> str" where
  "to_ascii_uppercase s = map upper_byte s"

definition eq_ignore_ascii_case :: "str \<Rightarrow> str \<Rightarrow> bool" where
  "eq_ignore_ascii_case a b \<longleftrightarrow> map lower_byte a = map lower_byte b"

lemmas ascii_defs [bytes_simps] =
  is_ascii_digit_def is_ascii_uppercase_def is_ascii_lowercase_def lower_byte_def upper_byte_def
  to_ascii_lowercase_def to_ascii_uppercase_def eq_ignore_ascii_case_def

lemma lower_upper_byte [simp]: "lower_byte (upper_byte c) = lower_byte c"
  by (auto simp: lower_byte_def upper_byte_def is_ascii_uppercase_def is_ascii_lowercase_def)

lemma lower_byte_nonletter: "bv d < 65 \<Longrightarrow> lower_byte c = d \<longleftrightarrow> c = d"
  by (auto simp: lower_byte_def is_ascii_uppercase_def dest: arg_cong [where f = bv])

lemma in_set_lowercase: "bv d < 65 \<Longrightarrow> d \<in> set (to_ascii_lowercase s) \<longleftrightarrow> d \<in> set s"
  by (induction s) (simp_all add: to_ascii_lowercase_def lower_byte_nonletter eq_commute [of d])

lemma eq_ignore_ascii_case_upper [simp]:
  "eq_ignore_ascii_case a (to_ascii_uppercase b) = eq_ignore_ascii_case a b"
  by (simp add: eq_ignore_ascii_case_def to_ascii_uppercase_def comp_def)

lemma eq_ignore_ascii_case_refl [simp]: "eq_ignore_ascii_case a a"
  by (simp add: eq_ignore_ascii_case_def)

lemma eq_ignore_ascii_case_sym: "eq_ignore_ascii_case a b = eq_ignore_ascii_case b a"
  by (auto simp: eq_ignore_ascii_case_def)

section \<open>Searching and splitting\<close>

text \<open>\<^verbatim>\<open>str::split(c)\<close>: at least one piece, also for the empty string.\<close>

fun split_on :: "byte \<Rightarrow> str \<Rightarrow> str list" where
  "split_on c [] = [[]]"
| "split_on c (x # xs) =
     (if x = c then [] # split_on c xs
      else case split_on c xs of [] \<Rightarrow> [[x]] | y # ys \<Rightarrow> (x # y) # ys)"

text \<open>\<^verbatim>\<open>str::rfind(c)\<close>: the index of the last occurrence.\<close>

fun rfind :: "byte \<Rightarrow> str \<Rightarrow> nat option" where
  "rfind c [] = None"
| "rfind c (x # xs) =
     (case rfind c xs of
        Some i \<Rightarrow> Some (Suc i)
      | None \<Rightarrow> if x = c then Some 0 else None)"

text \<open>\<^verbatim>\<open>str::split_once(c)\<close>.\<close>

fun split_once :: "byte \<Rightarrow> str \<Rightarrow> (str \<times> str) option" where
  "split_once c [] = None"
| "split_once c (x # xs) =
     (if x = c then Some ([], xs)
      else case split_once c xs of None \<Rightarrow> None | Some (a, b) \<Rightarrow> Some (x # a, b))"

text \<open>\<^verbatim>\<open>str::strip_prefix\<close>, \<^verbatim>\<open>strip_suffix\<close>, \<^verbatim>\<open>trim_start_matches(char)\<close> and \<^verbatim>\<open>contains\<close>.\<close>

definition strip_prefix :: "str \<Rightarrow> str \<Rightarrow> str option" where
  "strip_prefix p s = (if prefix p s then Some (drop (length p) s) else None)"

definition strip_suffix :: "str \<Rightarrow> str \<Rightarrow> str option" where
  "strip_suffix p s = (if suffix p s then Some (take (length s - length p) s) else None)"

definition trim_start_matches :: "byte \<Rightarrow> str \<Rightarrow> str" where
  "trim_start_matches c s = dropWhile (\<lambda>x. x = c) s"

fun str_contains :: "str \<Rightarrow> str \<Rightarrow> bool" where
  "str_contains p [] \<longleftrightarrow> p = []"
| "str_contains p (x # xs) \<longleftrightarrow> prefix p (x # xs) \<or> str_contains p xs"

fun intercalate :: "str \<Rightarrow> str list \<Rightarrow> str" where
  "intercalate sep [] = []"
| "intercalate sep [x] = x"
| "intercalate sep (x # y # zs) = x @ sep @ intercalate sep (y # zs)"

lemma split_on_not_Nil [simp]: "split_on c s \<noteq> []"
  by (cases s) (auto split: list.splits)

lemma split_on_no_sep: "c \<notin> set s \<Longrightarrow> split_on c s = [s]"
  by (induction s) auto

lemma split_on_append_sep: "c \<notin> set s \<Longrightarrow> split_on c (s @ c # t) = s # split_on c t"
  by (induction s) auto

lemma split_on_intercalate:
  "ss \<noteq> [] \<Longrightarrow> \<forall>s \<in> set ss. c \<notin> set s \<Longrightarrow> split_on c (intercalate [c] ss) = ss"
  by (induction "[c]" ss rule: intercalate.induct)
    (auto simp: split_on_no_sep split_on_append_sep)

lemma intercalate_snoc_append: "intercalate sep (xs @ [x]) @ y = intercalate sep (xs @ [x @ y])"
  by (induction sep xs rule: intercalate.induct) auto

lemma intercalate_split_on: "intercalate [c] (split_on c s) = s"
proof (induction s)
  case (Cons x xs)
  obtain y ys where yys: "split_on c xs = y # ys"
    by (cases "split_on c xs") auto
  with Cons.IH show ?case
    by (cases ys) auto
qed simp

lemma split_on_pieces: "p \<in> set (split_on c s) \<Longrightarrow> c \<notin> set p"
  by (induction s arbitrary: p) (auto split: if_splits list.splits)

lemma rfind_None_iff: "rfind c s = None \<longleftrightarrow> c \<notin> set s"
  by (induction s) (auto split: option.splits if_splits)

lemma rfind_Some:
  "rfind c s = Some i \<Longrightarrow> i < length s \<and> s = take i s @ c # drop (Suc i) s \<and> c \<notin> set (drop (Suc i) s)"
  by (induction s arbitrary: i) (auto split: option.splits if_splits simp: rfind_None_iff)

lemma rfind_append:
  "c \<notin> set e \<Longrightarrow> rfind c (s @ c # e) = Some (length s)"
proof (induction s)
  case Nil
  then have "rfind c e = None"
    by (simp add: rfind_None_iff)
  then show ?case by simp
qed simp

section \<open>White space\<close>

text \<open>
  The UTF-8 encodings of the characters \<^verbatim>\<open>char::is_whitespace\<close> accepts: U+0009 to U+000D, U+0020,
  U+0085, U+00A0, U+1680, U+2000 to U+200A, U+2028, U+2029, U+202F, U+205F and U+3000.
\<close>

definition ws_chars :: "bytes list" where
  "ws_chars =
     [
      [CHR 0x09], [CHR 0x0A], [CHR 0x0B], [CHR 0x0C], [CHR 0x0D], [CHR 0x20],
      [CHR 0xC2, CHR 0x85], [CHR 0xC2, CHR 0xA0], [CHR 0xE1, CHR 0x9A, CHR 0x80],
      [CHR 0xE2, CHR 0x80, CHR 0x80], [CHR 0xE2, CHR 0x80, CHR 0x81], [CHR 0xE2, CHR 0x80, CHR 0x82],
      [CHR 0xE2, CHR 0x80, CHR 0x83], [CHR 0xE2, CHR 0x80, CHR 0x84], [CHR 0xE2, CHR 0x80, CHR 0x85],
      [CHR 0xE2, CHR 0x80, CHR 0x86], [CHR 0xE2, CHR 0x80, CHR 0x87], [CHR 0xE2, CHR 0x80, CHR 0x88],
      [CHR 0xE2, CHR 0x80, CHR 0x89], [CHR 0xE2, CHR 0x80, CHR 0x8A], [CHR 0xE2, CHR 0x80, CHR 0xA8],
      [CHR 0xE2, CHR 0x80, CHR 0xA9], [CHR 0xE2, CHR 0x80, CHR 0xAF], [CHR 0xE2, CHR 0x81, CHR 0x9F],
      [CHR 0xE3, CHR 0x80, CHR 0x80]]"

function strip_ws :: "bytes list \<Rightarrow> bytes \<Rightarrow> bytes" where
  "strip_ws ws s =
     (case find (\<lambda>w. w \<noteq> [] \<and> prefix w s) ws of
        None \<Rightarrow> s
      | Some w \<Rightarrow> strip_ws ws (drop (length w) s))"
  by pat_completeness auto
termination
  by (relation "measure (\<lambda>(ws, s). length s)")
    (auto dest!: find_Some_set simp: prefix_def)

declare strip_ws.simps [simp del]

definition trim_start :: "str \<Rightarrow> str" where
  "trim_start s = strip_ws ws_chars s"

definition trim_end :: "str \<Rightarrow> str" where
  "trim_end s = rev (strip_ws (map rev ws_chars) (rev s))"

definition trim :: "str \<Rightarrow> str" where
  "trim s = trim_end (trim_start s)"

text \<open>\<^verbatim>\<open>str::lines\<close>: the line feed and a carriage return before it are dropped.\<close>

fun strip_cr :: "str \<Rightarrow> str" where
  "strip_cr s = (if s \<noteq> [] \<and> last s = CHR 0x0D then butlast s else s)"

fun lines_of :: "str list \<Rightarrow> str list" where
  "lines_of [] = []"
| "lines_of [l] = (if l = [] then [] else [l])"
| "lines_of (l # m # ls) = strip_cr l # lines_of (m # ls)"

definition lines :: "str \<Rightarrow> str list" where
  "lines s = lines_of (split_on (CHR 0x0A) s)"

lemma strip_ws_Nil [simp]: "strip_ws ws [] = []"
proof -
  have "find (\<lambda>w. w \<noteq> [] \<and> prefix w []) ws = None"
    by (auto simp: find_None_iff)
  then show ?thesis
    by (simp add: strip_ws.simps [of ws "[]"])
qed

lemma strip_ws_stop:
  assumes "\<forall>w \<in> set ws. w \<noteq> [] \<longrightarrow> hd w \<noteq> x"
  shows "strip_ws ws (x # xs) = x # xs"
proof -
  have "find (\<lambda>w. w \<noteq> [] \<and> prefix w (x # xs)) ws = None"
    using assms by (auto simp: find_None_iff prefix_Cons)
  then show ?thesis
    by (simp add: strip_ws.simps [of ws "x # xs"])
qed

lemma strip_ws_suffix: "suffix (strip_ws ws s) s"
proof (induction ws s rule: strip_ws.induct)
  case (1 ws s)
  show ?case
    by (subst strip_ws.simps)
      (auto split: option.splits intro: suffix_order.trans [OF 1 suffix_drop])
qed

text \<open>A byte that neither starts nor ends the encoding of a white space character.\<close>

definition solid_byte :: "byte \<Rightarrow> bool" where
  "solid_byte c \<longleftrightarrow> 33 \<le> bv c \<and> bv c < 127"

lemma ws_chars_hd: "solid_byte x \<Longrightarrow> \<forall>w \<in> set ws_chars. w \<noteq> [] \<longrightarrow> hd w \<noteq> x"
  by (auto simp: ws_chars_def solid_byte_def)

lemma ws_chars_last: "solid_byte x \<Longrightarrow> \<forall>w \<in> set (map rev ws_chars). w \<noteq> [] \<longrightarrow> hd w \<noteq> x"
  by (auto simp: ws_chars_def solid_byte_def)

lemma trim_start_solid: "solid_byte x \<Longrightarrow> trim_start (x # xs) = x # xs"
  by (simp add: trim_start_def strip_ws_stop ws_chars_hd)

lemma trim_end_solid: "solid_byte x \<Longrightarrow> trim_end (xs @ [x]) = xs @ [x]"
  by (simp add: trim_end_def strip_ws_stop ws_chars_last)

lemma trim_end_line_end:
  assumes "c = CHR 0x0A \<or> c = CHR 0x0D"
  shows "trim_end (xs @ [c]) = trim_end xs"
proof -
  have "find (\<lambda>w. w \<noteq> [] \<and> prefix w (c # rev xs)) (map rev ws_chars) = Some [c]"
    using assms by (elim disjE) (simp_all add: ws_chars_def)
  then show ?thesis
    by (simp add: trim_end_def strip_ws.simps [of "map rev ws_chars" "c # rev xs"])
qed

definition line_ends :: "bytes list" where
  "line_ends = [[], [CHR 0x0A], [CHR 0x0D], [CHR 0x0D, CHR 0x0A]]"

lemma trim_header_line:
  assumes "ds \<noteq> []" and "\<forall>d \<in> set ds. solid_byte d" and "e \<in> set line_ends"
  shows "trim (ds @ e) = ds"
proof -
  obtain x xs where x: "ds = x # xs" using assms(1) by (cases ds) auto
  obtain y ys where y: "ds = ys @ [y]" using assms(1) by (cases ds rule: rev_cases) auto
  have "trim_start (ds @ e) = ds @ e"
    using assms(2) x by (simp add: trim_start_solid)
  moreover have "trim_end ds = ds"
    using assms(2) y by (simp add: trim_end_solid)
  moreover have "trim_end (ds @ e) = trim_end ds"
    using assms(3) trim_end_line_end [of "CHR 0x0A" "ds @ [CHR 0x0D]"]
    by (auto simp: line_ends_def trim_end_line_end)
  ultimately show ?thesis
    by (simp add: trim_def)
qed

section \<open>Numbers\<close>

definition digit_byte :: "nat \<Rightarrow> byte" where
  "digit_byte n = char_of (48 + n)"

text \<open>Decimal printing of an unsigned and of a signed number (\<^verbatim>\<open>format!("{}", n)\<close>).\<close>

fun dec :: "nat \<Rightarrow> str" where
  "dec n = (if n < 10 then [digit_byte n] else dec (n div 10) @ [digit_byte (n mod 10)])"

declare dec.simps [simp del]

definition dec_int :: "int \<Rightarrow> str" where
  "dec_int i = (if i < 0 then CHR ''-'' # dec (nat (- i)) else dec (nat i))"

definition digits_val :: "str \<Rightarrow> nat" where
  "digits_val s = foldl (\<lambda>n d. 10 * n + (bv d - 48)) 0 s"

text \<open>
  \<^verbatim>\<open>str::parse\<close> for an unsigned type with the given maximum: one leading plus sign is accepted, then at
  least one digit, digits only, and no overflow.
\<close>

definition parse_unsigned :: "nat \<Rightarrow> str \<Rightarrow> nat option" where
  "parse_unsigned m s =
     (let ds = (case s of c # r \<Rightarrow> if c = CHR ''+'' then r else s | [] \<Rightarrow> s) in
      if ds = [] \<or> \<not> list_all is_ascii_digit ds then None
      else if digits_val ds \<le> m then Some (digits_val ds) else None)"

lemma digits_val_snoc [simp]: "digits_val (s @ [d]) = 10 * digits_val s + (bv d - 48)"
  by (simp add: digits_val_def)

lemma digits_val_Nil [simp]: "digits_val [] = 0"
  by (simp add: digits_val_def)

lemma is_digit_digit_byte [simp]: "n < 10 \<Longrightarrow> is_ascii_digit (digit_byte n)"
  by (simp add: is_ascii_digit_def digit_byte_def)

lemma bv_digit_byte [simp]: "n < 10 \<Longrightarrow> bv (digit_byte n) = 48 + n"
  by (simp add: digit_byte_def)

lemma dec_not_Nil [simp]: "dec n \<noteq> []"
  by (subst dec.simps) simp

lemma dec_digits: "list_all is_ascii_digit (dec n)"
proof (induction n rule: dec.induct)
  case (1 n)
  then show ?case by (subst dec.simps) auto
qed

lemma digits_val_dec [simp]: "digits_val (dec n) = n"
proof (induction n rule: dec.induct)
  case (1 n)
  then show ?case
    using digits_val_snoc [of "[]" "digit_byte n"] by (subst dec.simps) auto
qed

lemma digit_solid: "is_ascii_digit d \<Longrightarrow> solid_byte d \<and> d \<noteq> CHR ''+'' \<and> d \<noteq> CHR ''-''"
  by (auto simp: is_ascii_digit_def solid_byte_def)

lemma dec_solid: "d \<in> set (dec n) \<Longrightarrow> solid_byte d"
  using dec_digits [of n] digit_solid by (auto simp: list_all_iff)

lemma dec_hd: "\<exists>d ds. dec n = d # ds \<and> is_ascii_digit d"
  using dec_digits [of n] by (cases "dec n") auto

lemma parse_unsigned_digits:
  assumes "ds \<noteq> []" and "list_all is_ascii_digit ds"
  shows "parse_unsigned m ds = (if digits_val ds \<le> m then Some (digits_val ds) else None)"
  using assms digit_solid by (cases ds) (auto simp: parse_unsigned_def Let_def)

lemma parse_unsigned_dec [simp]: "parse_unsigned m (dec n) = (if n \<le> m then Some n else None)"
  by (simp add: parse_unsigned_digits dec_digits)

lemma parse_unsigned_le: "parse_unsigned m s = Some n \<Longrightarrow> n \<le> m"
  by (auto simp: parse_unsigned_def Let_def split: if_splits)

lemma dec_no_slash: "CHR ''/'' \<notin> set (dec n)"
  using dec_digits [of n] by (auto simp: list_all_iff is_ascii_digit_def)

lemma split_on_append: "split_on c (a @ c # b) = split_on c a @ split_on c b"
proof (induction a)
  case (Cons x a)
  obtain y ys where "split_on c a = y # ys"
    by (cases "split_on c a") auto
  with Cons show ?case by simp
qed simp

lemma last_split_on: "c \<notin> set b \<Longrightarrow> last (split_on c (a @ c # b)) = b"
  by (simp add: split_on_append split_on_no_sep)

lemma dec_inj: "dec m = dec n \<longleftrightarrow> m = n"
  using digits_val_dec by metis

end
