(* ===== verification/Utf8.thy ===== *)
theory Utf8
  imports Rust_Str
begin

text \<open>
  UTF-8 as the standard library reads it: one step of the chunk iterator behind
  \<^verbatim>\<open>String::from_utf8\<close> and \<^verbatim>\<open>String::from_utf8_lossy\<close>, the validity check and the lossy decoder, which
  puts U+FFFD in the place of each maximal ill-formed piece. The lemmas show that lossy decoding
  is the identity on valid input and always yields valid UTF-8.
\<close>

section \<open>One step\<close>

definition utf8_width :: "nat \<Rightarrow> nat" where
  "utf8_width b =
     (if b < 128 then 1
      else if 194 \<le> b \<and> b \<le> 223 then 2
      else if 224 \<le> b \<and> b \<le> 239 then 3
      else if 240 \<le> b \<and> b \<le> 244 then 4 else 0)"

definition is_cont :: "nat \<Rightarrow> bool" where
  "is_cont b \<longleftrightarrow> 128 \<le> b \<and> b \<le> 191"

text \<open>The second byte of a three or four byte character, given its first.\<close>

definition second_ok :: "nat \<Rightarrow> nat \<Rightarrow> bool" where
  "second_ok a b \<longleftrightarrow>
     (if a = 224 then 160 \<le> b \<and> b \<le> 191
      else if a = 237 then 128 \<le> b \<and> b \<le> 159
      else if a = 240 then 144 \<le> b \<and> b \<le> 191
      else if a = 244 then 128 \<le> b \<and> b \<le> 143
      else is_cont b)"

text \<open>A byte of the rest; 0, which continues nothing, past its end.\<close>

definition safe_get :: "bytes \<Rightarrow> nat \<Rightarrow> nat" where
  "safe_get bs i = (if i < length bs then bv (bs ! i) else 0)"

text \<open>
  Whether the input starts with a well-formed character, and how many bytes that character, or
  the ill-formed piece in its place, has.
\<close>

definition utf8_step :: "bytes \<Rightarrow> bool \<times> nat" where
  "utf8_step bs =
     (let a = safe_get bs 0; w = utf8_width a in
      if w = 1 then (True, 1)
      else if w = 2 then (if is_cont (safe_get bs 1) then (True, 2) else (False, 1))
      else if w = 3 then
        (if \<not> second_ok a (safe_get bs 1) then (False, 1)
         else if \<not> is_cont (safe_get bs 2) then (False, 2) else (True, 3))
      else if w = 4 then
        (if \<not> second_ok a (safe_get bs 1) then (False, 1)
         else if \<not> is_cont (safe_get bs 2) then (False, 2)
         else if \<not> is_cont (safe_get bs 3) then (False, 3) else (True, 4))
      else (False, 1))"

lemma utf8_step_pos: "0 < snd (utf8_step bs)"
  by (auto simp: utf8_step_def Let_def)

lemma safe_get_inside: "second_ok a (safe_get bs i) \<or> is_cont (safe_get bs i) \<Longrightarrow> i < length bs"
  by (auto simp: safe_get_def second_ok_def is_cont_def split: if_splits)

lemma utf8_step_len: "utf8_step bs = (True, n) \<Longrightarrow> bs \<noteq> [] \<Longrightarrow> n \<le> length bs"
  using length_greater_0_conv [of bs]
  by (auto simp del: length_greater_0_conv simp: utf8_step_def Let_def Suc_le_eq split: if_splits
      dest!: safe_get_inside [OF disjI1] safe_get_inside [OF disjI2])

lemma safe_get_take: "i < n \<Longrightarrow> n \<le> length bs \<Longrightarrow> safe_get (take n bs @ r) i = safe_get bs i"
  by (simp add: safe_get_def nth_append)

lemma safe_get_append: "i < length a \<Longrightarrow> safe_get (a @ b) i = safe_get a i"
  by (simp add: safe_get_def nth_append)

lemma utf8_step_take:
  assumes "utf8_step bs = (True, n)" and "bs \<noteq> []"
  shows "utf8_step (take n bs @ r) = (True, n)"
proof -
  have n: "n \<le> length bs" using utf8_step_len [OF assms] .
  have "0 < n" using utf8_step_pos [of bs] assms(1) by simp
  then have z: "safe_get (take n bs @ r) 0 = safe_get bs 0"
    using n by (simp add: safe_get_take)
  show ?thesis
    using assms(1) z n
    by (auto simp: utf8_step_def Let_def safe_get_take split: if_splits)
qed

lemma utf8_step_append:
  assumes "utf8_step a = (True, n)" and "a \<noteq> []"
  shows "utf8_step (a @ b) = (True, n)"
  using utf8_step_take [OF assms, of "drop n a @ b"] by (simp flip: append_assoc)

section \<open>Validation and lossy decoding\<close>

text \<open>U+FFFD REPLACEMENT CHARACTER.\<close>

definition replacement :: bytes where
  "replacement = [CHR 0xEF, CHR 0xBF, CHR 0xBD]"

function utf8_valid :: "bytes \<Rightarrow> bool" where
  "utf8_valid bs =
     (if bs = [] then True
      else if fst (utf8_step bs) then utf8_valid (drop (snd (utf8_step bs)) bs)
      else False)"
  by pat_completeness auto
termination
  by (relation "measure length") (auto simp: utf8_step_pos)

function from_utf8_lossy :: "bytes \<Rightarrow> str" where
  "from_utf8_lossy bs =
     (if bs = [] then []
      else (if fst (utf8_step bs) then take (snd (utf8_step bs)) bs else replacement) @
           from_utf8_lossy (drop (snd (utf8_step bs)) bs))"
  by pat_completeness auto
termination
  by (relation "measure length") (auto simp: utf8_step_pos)

declare utf8_valid.simps [simp del] from_utf8_lossy.simps [simp del]

lemma utf8_valid_Nil [simp]: "utf8_valid []"
  by (subst utf8_valid.simps) simp

lemma from_utf8_lossy_Nil [simp]: "from_utf8_lossy [] = []"
  by (subst from_utf8_lossy.simps) simp

lemma utf8_valid_char_append:
  assumes "utf8_step a = (True, n)" and "a \<noteq> []"
  shows "utf8_valid (take n a @ b) = utf8_valid b"
proof -
  have "length (take n a) = n"
    using utf8_step_len [OF assms] by simp
  moreover have "utf8_step (take n a @ b) = (True, n)"
    by (rule utf8_step_take [OF assms])
  moreover have "take n a @ b \<noteq> []"
    using assms utf8_step_pos [of a] by simp
  ultimately show ?thesis
    by (simp add: utf8_valid.simps [of "take n a @ b"])
qed

lemma utf8_valid_append: "utf8_valid a \<Longrightarrow> utf8_valid (a @ b) = utf8_valid b"
proof (induction a rule: utf8_valid.induct)
  case (1 a)
  show ?case
  proof (cases "a = []")
    case False
    with "1.prems" have ok: "fst (utf8_step a)" and r: "utf8_valid (drop (snd (utf8_step a)) a)"
      by (simp_all add: utf8_valid.simps [of a] split: if_splits)
    let ?n = "snd (utf8_step a)"
    have st: "utf8_step a = (True, ?n)" using ok by (metis prod.collapse)
    have "utf8_valid (drop ?n a @ b) = utf8_valid b"
      by (rule "1.IH" [OF False ok r])
    then have "utf8_valid (take ?n a @ (drop ?n a @ b)) = utf8_valid b"
      by (simp only: utf8_valid_char_append [OF st False])
    then show ?thesis
      by (simp flip: append_assoc)
  qed simp
qed

theorem from_utf8_lossy_valid [simp]: "utf8_valid a \<Longrightarrow> from_utf8_lossy a = a"
proof (induction a rule: utf8_valid.induct)
  case (1 a)
  then show ?case
    by (subst from_utf8_lossy.simps) (auto simp: utf8_valid.simps [of a] split: if_splits)
qed

lemma utf8_valid_replacement: "utf8_valid (replacement @ b) = utf8_valid b"
proof -
  have "utf8_step (replacement @ b) = (True, 3)"
    by (simp add: utf8_step_def safe_get_def replacement_def utf8_width_def second_ok_def
        is_cont_def Let_def)
  then show ?thesis
    by (subst utf8_valid.simps) (simp add: replacement_def)
qed

theorem utf8_valid_lossy: "utf8_valid (from_utf8_lossy a)"
proof (induction a rule: from_utf8_lossy.induct)
  case (1 a)
  show ?case
  proof (cases "a = []")
    case False
    have *: "utf8_valid (take (snd (utf8_step a)) a @ r) = utf8_valid r" if "fst (utf8_step a)" for r
      using utf8_valid_char_append [of a "snd (utf8_step a)" r] that False
      by (metis prod.collapse)
    show ?thesis
      using 1 [OF False] False *
      by (subst from_utf8_lossy.simps) (simp add: utf8_valid_replacement)
  qed simp
qed

lemma from_utf8_lossy_idem [simp]: "from_utf8_lossy (from_utf8_lossy a) = from_utf8_lossy a"
  by (simp add: utf8_valid_lossy)

section \<open>ASCII is UTF-8\<close>

lemma utf8_valid_ascii_Cons: "bv c < 128 \<Longrightarrow> utf8_valid (c # s) = utf8_valid s"
  by (subst utf8_valid.simps) (simp add: utf8_step_def safe_get_def utf8_width_def Let_def)

lemma utf8_valid_ascii: "\<forall>c \<in> set s. bv c < 128 \<Longrightarrow> utf8_valid s"
  by (induction s) (auto simp: utf8_valid_ascii_Cons)

lemma utf8_valid_solid: "\<forall>c \<in> set s. solid_byte c \<Longrightarrow> utf8_valid s"
  by (auto simp: solid_byte_def intro!: utf8_valid_ascii)

end
