(* ===== verification/Resp.thy ===== *)
theory Resp
  imports Utf8
begin

text \<open>
  \<^verbatim>\<open>crates/redis-web-core/src/resp.rs\<close>: the RESP writer \<^verbatim>\<open>value_to_resp\<close> and the reader
  \<^verbatim>\<open>parse_command\<close>, which reads one array of bulk strings from the start of a buffer. The cursor is
  the list of unread bytes. The two allocations whose size the input chooses panic with a
  capacity overflow above \<^verbatim>\<open>isize::MAX\<close> bytes; that branch is part of the model.
\<close>

section \<open>Values and errors\<close>

text \<open>
  The variants of \<^verbatim>\<open>redis::Value\<close> that the program names. The other ones (the RESP3 types) are only
  ever matched by a wildcard; \<^verbatim>\<open>Resp3\<close> stands for them, its argument says which one.
\<close>

datatype redis_value =
    NilV
  | IntV i64
  | BulkString bytes
  | Array "redis_value list"
  | SimpleString str
  | Okay
  | Resp3 str

datatype io_error = InvalidData

datatype resp_error = InvalidFormat | Incomplete | Io io_error

definition crlf :: bytes where
  "crlf = [CHR 0x0D, CHR 0x0A]"

lemma crlf_props [simp]: "length crlf = 2" "crlf \<noteq> []" "take 2 (crlf @ r) = crlf" "drop 2 (crlf @ r) = r"
  by (simp_all add: crlf_def)

section \<open>Writing\<close>

fun value_to_resp :: "redis_value \<Rightarrow> bytes" where
  "value_to_resp NilV = ''$-1'' @ crlf"
| "value_to_resp (IntV i) = '':'' @ dec_int (sint i) @ crlf"
| "value_to_resp (BulkString b) = ''$'' @ dec (length b) @ crlf @ b @ crlf"
| "value_to_resp (Array items) =
     ''*'' @ dec (length items) @ crlf @ concat (map value_to_resp items)"
| "value_to_resp (SimpleString s) = ''+'' @ s @ crlf"
| "value_to_resp Okay = ''+OK'' @ crlf"
| "value_to_resp (Resp3 _) = ''-ERR Unsupported RESP3 type'' @ crlf"

section \<open>Reading\<close>

text \<open>\<^verbatim>\<open>BufRead::read_line\<close>: up to and including the first line feed, all of it when there is none.\<close>

fun take_line :: "bytes \<Rightarrow> bytes \<times> bytes" where
  "take_line [] = ([], [])"
| "take_line (c # cs) =
     (if c = CHR 0x0A then ([c], cs)
      else case take_line cs of (l, r) \<Rightarrow> (c # l, r))"

definition read_line :: "bytes \<Rightarrow> (str \<times> bytes, io_error) result" where
  "read_line bs = (case take_line bs of (l, r) \<Rightarrow> if utf8_valid l then Ok (l, r) else Err InvalidData)"

text \<open>The number in a header line, \<^verbatim>\<open>line[1..].trim().parse::<usize>()\<close>.\<close>

definition header_number :: "str \<Rightarrow> nat option" where
  "header_number line = parse_unsigned usize_max (trim (drop 1 line))"

text \<open>The loop over the arguments, with the arguments read so far and the unread bytes.\<close>

fun parse_args ::
  "nat \<Rightarrow> bytes list \<Rightarrow> bytes \<Rightarrow> ((bytes list \<times> bytes) option, resp_error) result outcome" where
  "parse_args 0 args rest = Return (Ok (Some (args, rest)))"
| "parse_args (Suc n) args rest =
     (case read_line rest of
        Err e \<Rightarrow> Return (Err (Io e))
      | Ok (line, rest1) \<Rightarrow>
          if line = [] then Return (Ok None)
          else if \<not> prefix ''$'' line then Return (Err InvalidFormat)
          else case header_number line of
              None \<Rightarrow> Return (Err InvalidFormat)
            | Some len \<Rightarrow>
                if isize_max < len then Panic
                else if length rest1 < len then Return (Ok None)
                else let arg = take len rest1; rest2 = drop len rest1 in
                  if length rest2 < 2 then Return (Ok None)
                  else if take 2 rest2 \<noteq> crlf then Return (Err InvalidFormat)
                  else parse_args n (args @ [arg]) (drop 2 rest2))"

text \<open>A \<^verbatim>\<open>Vec<u8>\<close> takes 24 bytes of the argument vector.\<close>

definition parse_command ::
  "bytes \<Rightarrow> ((bytes list \<times> nat) option, resp_error) result outcome" where
  "parse_command buffer =
     (case read_line buffer of
        Err e \<Rightarrow> Return (Err (Io e))
      | Ok (line, rest) \<Rightarrow>
          if line = [] then Return (Ok None)
          else if \<not> prefix ''*'' line then Return (Err InvalidFormat)
          else case header_number line of
              None \<Rightarrow> Return (Err InvalidFormat)
            | Some count \<Rightarrow>
                if isize_max < count * 24 then Panic
                else case parse_args count [] rest of
                    Panic \<Rightarrow> Panic
                  | Return (Err e) \<Rightarrow> Return (Err e)
                  | Return (Ok None) \<Rightarrow> Return (Ok None)
                  | Return (Ok (Some (args, rest'))) \<Rightarrow>
                      Return (Ok (Some (args, length buffer - length rest'))))"

section \<open>Lines and headers\<close>

lemma take_line_append:
  "CHR 0x0A \<notin> set l \<Longrightarrow> take_line (l @ CHR 0x0A # r) = (l @ [CHR 0x0A], r)"
  by (induction l) auto

lemma take_line_no_lf: "CHR 0x0A \<notin> set l \<Longrightarrow> take_line l = (l, [])"
  by (induction l) auto

lemma read_line_no_lf: "CHR 0x0A \<notin> set l \<Longrightarrow> utf8_valid l \<Longrightarrow> read_line l = Ok (l, [])"
  by (simp add: read_line_def take_line_no_lf)

lemma take_line_split: "take_line bs = (l, r) \<Longrightarrow> bs = l @ r"
  by (induction bs arbitrary: l r) (auto split: if_splits prod.splits)

lemma read_line_split: "read_line bs = Ok (l, r) \<Longrightarrow> bs = l @ r"
  by (auto simp: read_line_def split: prod.splits if_splits dest: take_line_split)

lemma read_line_Nil [simp]: "read_line [] = Ok ([], [])"
  by (simp add: read_line_def)

lemma dec_no_line_end: "CHR 0x0A \<notin> set (dec n) \<and> CHR 0x0D \<notin> set (dec n)"
  by (auto simp: solid_byte_def dest: dec_solid)

lemma utf8_valid_header: "solid_byte c \<Longrightarrow> utf8_valid (c # dec n @ crlf)"
  by (intro utf8_valid_ascii) (auto simp: solid_byte_def crlf_def dest!: dec_solid)

lemma read_line_header:
  assumes "solid_byte c"
  shows "read_line (c # dec n @ crlf @ rest) = Ok (c # dec n @ crlf, rest)"
proof -
  have "c \<noteq> CHR 0x0A"
    using assms by (auto simp: solid_byte_def)
  then have "take_line (c # dec n @ crlf @ rest) = (c # dec n @ crlf, rest)"
    using take_line_append [of "c # dec n @ [CHR 0x0D]" rest] dec_no_line_end [of n]
    by (auto simp: crlf_def)
  then show ?thesis
    using utf8_valid_header [OF assms] by (simp add: read_line_def)
qed

lemma header_number_dec:
  "n \<le> usize_max \<Longrightarrow> header_number (c # dec n @ crlf) = Some n"
  by (simp add: header_number_def trim_header_line line_ends_def crlf_def dec_solid)

lemma solid_markers [simp]: "solid_byte CHR ''$''" "solid_byte CHR ''*''"
  by (simp_all add: solid_byte_def)

section \<open>Round trip\<close>

text \<open>The wire form of one argument.\<close>

abbreviation bulk :: "bytes \<Rightarrow> bytes" where
  "bulk a \<equiv> value_to_resp (BulkString a)"

definition encode_command :: "bytes list \<Rightarrow> bytes" where
  "encode_command args = value_to_resp (Array (map BulkString args))"

text \<open>The sizes a 64-bit target can hold.\<close>

definition command_fits :: "bytes list \<Rightarrow> bool" where
  "command_fits args \<longleftrightarrow> length args * 24 \<le> isize_max \<and> (\<forall>a \<in> set args. length a \<le> isize_max)"

lemma encode_command_eq:
  "encode_command args = ''*'' @ dec (length args) @ crlf @ concat (map bulk args)"
  by (simp add: encode_command_def comp_def)

lemma encode_command_not_Nil [simp]: "encode_command args \<noteq> []"
  by (simp add: encode_command_eq)

lemma parse_args_bulk:
  assumes "length a \<le> isize_max"
  shows "parse_args (Suc n) acc (bulk a @ rest) = parse_args n (acc @ [a]) rest"
proof -
  have "length a \<le> usize_max"
    using assms isize_le_usize by simp
  then show ?thesis
    using assms read_line_header [of "CHR ''$''" "length a" "a @ crlf @ rest"]
    by (simp add: header_number_dec)
qed

lemma parse_args_bulks:
  assumes "\<forall>a \<in> set args. length a \<le> isize_max"
  shows "parse_args (length args) acc (concat (map bulk args) @ rest) =
    Return (Ok (Some (acc @ args, rest)))"
  using assms
proof (induction args arbitrary: acc)
  case (Cons a args)
  then show ?case
    using parse_args_bulk [of a "length args" acc "concat (map bulk args) @ rest"]
    by (simp del: value_to_resp.simps parse_args.simps(2))
qed simp

lemma parse_command_encode:
  assumes "command_fits args"
  shows "parse_command (encode_command args @ rest) =
    Return (Ok (Some (args, length (encode_command args))))"
proof -
  let ?body = "concat (map bulk args) @ rest"
  have n: "length args \<le> usize_max"
    using assms isize_le_usize by (auto simp: command_fits_def)
  have "read_line (encode_command args @ rest) = Ok (''*'' @ dec (length args) @ crlf, ?body)"
    using read_line_header [of "CHR ''*''" "length args" ?body] by (simp add: encode_command_eq)
  moreover have "parse_args (length args) [] ?body = Return (Ok (Some (args, rest)))"
    using parse_args_bulks [of args "[]" rest] assms by (simp add: command_fits_def)
  ultimately show ?thesis
    using assms n header_number_dec [of "length args" "CHR ''*''"]
    by (simp add: parse_command_def command_fits_def)
qed

section \<open>Progress, bounds and stability\<close>

lemma take_line_append_rest:
  "take_line bs = (l, r) \<Longrightarrow> r \<noteq> [] \<Longrightarrow> take_line (bs @ ext) = (l, r @ ext)"
  by (induction bs arbitrary: l r) (auto split: if_splits prod.splits)

lemma read_line_append_rest:
  "read_line bs = Ok (l, r) \<Longrightarrow> r \<noteq> [] \<Longrightarrow> read_line (bs @ ext) = Ok (l, r @ ext)"
  by (auto simp: read_line_def take_line_append_rest split: prod.splits if_splits)

lemma parse_args_Suc_SomeE:
  assumes "parse_args (Suc n) acc rest = Return (Ok (Some (args, r)))"
  obtains line rest1 len where
    "read_line rest = Ok (line, rest1)" "line \<noteq> []" "prefix ''$'' line"
    "header_number line = Some len" "len \<le> isize_max" "len + 2 \<le> length rest1"
    "take 2 (drop len rest1) = crlf"
    "parse_args n (acc @ [take len rest1]) (drop (len + 2) rest1) = Return (Ok (Some (args, r)))"
  using assms
  by (auto simp: Let_def add.commute split: sum.splits prod.splits if_splits option.splits)

lemma parse_args_length:
  "parse_args n acc rest = Return (Ok (Some (args, r))) \<Longrightarrow>
     length args = length acc + n \<and> suffix r rest"
proof (induction n arbitrary: acc rest)
  case (Suc n)
  from Suc.prems show ?case
  proof (rule parse_args_Suc_SomeE)
    fix line rest1 len
    assume l: "read_line rest = Ok (line, rest1)"
      and p: "parse_args n (acc @ [take len rest1]) (drop (len + 2) rest1) = Return (Ok (Some (args, r)))"
    from l have "suffix rest1 rest"
      by (auto dest: read_line_split simp: suffix_def)
    then show ?thesis
      using Suc.IH [OF p] suffix_order.trans [OF suffix_drop [of "len + 2" rest1], of rest]
      by (auto intro: suffix_order.trans)
  qed
qed simp

lemma parse_args_append:
  "parse_args n acc rest = Return (Ok (Some (args, r))) \<Longrightarrow>
     parse_args n acc (rest @ ext) = Return (Ok (Some (args, r @ ext)))"
proof (induction n arbitrary: acc rest)
  case (Suc n)
  from Suc.prems show ?case
  proof (rule parse_args_Suc_SomeE)
    fix line rest1 len
    assume l: "read_line rest = Ok (line, rest1)" "line \<noteq> []" "prefix ''$'' line"
      "header_number line = Some len" "len \<le> isize_max" "len + 2 \<le> length rest1"
      "take 2 (drop len rest1) = crlf"
      and p: "parse_args n (acc @ [take len rest1]) (drop (len + 2) rest1) = Return (Ok (Some (args, r)))"
    from l have "read_line (rest @ ext) = Ok (line, rest1 @ ext)"
      by (intro read_line_append_rest) auto
    then show ?thesis
      using l Suc.IH [OF p] by (auto simp: Let_def add.commute)
  qed
qed simp

lemma parse_args_Suc_Nil: "parse_args (Suc n) acc [] = Return (Ok None)"
  by simp

lemma parse_command_SomeE:
  assumes "parse_command buffer = Return (Ok (Some (args, n)))"
  obtains line rest r where
    "read_line buffer = Ok (line, rest)" "line \<noteq> []" "prefix ''*'' line"
    "header_number line = Some (length args)" "length args * 24 \<le> isize_max"
    "parse_args (length args) [] rest = Return (Ok (Some (args, r)))"
    "n = length buffer - length r" "suffix r rest"
proof -
  from assms obtain line rest count r where *:
    "read_line buffer = Ok (line, rest)" "line \<noteq> []" "prefix ''*'' line"
    "header_number line = Some count" "count * 24 \<le> isize_max"
    "parse_args count [] rest = Return (Ok (Some (args, r)))"
    "n = length buffer - length r"
    by (auto simp: parse_command_def
        split: sum.splits prod.splits if_splits option.splits outcome.splits)
  from parse_args_length [OF *(6)] have "count = length args" "suffix r rest"
    by simp_all
  with * that show ?thesis by blast
qed

text \<open>A parsed command consumes at least one byte and never more than the buffer holds.\<close>

lemma parse_command_consumed [shrink]:
  assumes "parse_command buffer = Return (Ok (Some (args, n)))"
  shows "0 < n \<and> n \<le> length buffer"
  using assms
proof (rule parse_command_SomeE)
  fix line rest r
  assume "read_line buffer = Ok (line, rest)" "line \<noteq> []" "n = length buffer - length r" "suffix r rest"
  moreover from this have "length buffer = length line + length rest"
    using read_line_split by fastforce
  ultimately show ?thesis
    by (auto simp: suffix_def)
qed

lemma parse_command_stable:
  assumes "parse_command buffer = Return (Ok (Some (args, n)))" and "args \<noteq> []"
  shows "parse_command (buffer @ ext) = Return (Ok (Some (args, n)))"
  using assms(1)
proof (rule parse_command_SomeE)
  fix line rest r
  assume l: "read_line buffer = Ok (line, rest)" "line \<noteq> []" "prefix ''*'' line"
    "header_number line = Some (length args)" "length args * 24 \<le> isize_max"
    and p: "parse_args (length args) [] rest = Return (Ok (Some (args, r)))"
    and n: "n = length buffer - length r"
  from assms(2) p have "rest \<noteq> []"
    by (cases args) auto
  with l(1) have "read_line (buffer @ ext) = Ok (line, rest @ ext)"
    by (rule read_line_append_rest)
  then show ?thesis
    using l parse_args_append [OF p, of ext] n by (simp add: parse_command_def)
qed

section \<open>Incomplete frames\<close>

lemma digits_val_mono_append: "digits_val ds \<le> digits_val (ds @ es)"
proof (induction es rule: rev_induct)
  case (snoc e es)
  then show ?case
    using digits_val_snoc [of "ds @ es" e] by simp
qed simp

lemma digits_val_take_dec: "digits_val (take j (dec n)) \<le> n"
  using digits_val_mono_append [of "take j (dec n)" "drop j (dec n)"] by simp

lemma digits_val_take_dec_pos: "0 < n \<Longrightarrow> 0 < j \<Longrightarrow> 0 < digits_val (take j (dec n))"
proof (induction n rule: dec.induct)
  case (1 n)
  show ?case
  proof (cases "n < 10 \<or> length (dec n) \<le> j")
    case True
    then have "take j (dec n) = dec n"
      using "1.prems"(2) by (auto simp: dec.simps [of n])
    then show ?thesis
      using "1.prems"(1) by simp
  next
    case False
    then have "take j (dec n) = take j (dec (n div 10))"
      by (auto simp: dec.simps [of n])
    then show ?thesis
      using "1.IH" "1.prems"(2) False by (simp add: div_greater_zero_iff)
  qed
qed

text \<open>A header line cut before its line feed still gives a number, no larger than the whole one.\<close>

lemma header_number_cut:
  assumes "0 < j" and "j \<le> length (dec n) + 1" and "n \<le> usize_max"
  shows "\<exists>m \<le> n. (0 < n \<longrightarrow> 0 < m) \<and> header_number (c # take j (dec n @ crlf)) = Some m"
proof -
  let ?ds = "take j (dec n)"
  have ds: "?ds \<noteq> []" "list_all is_ascii_digit ?ds"
    using assms(1) dec_digits [of n] by (auto simp: list_all_iff dest: in_set_takeD)
  have "take j (dec n @ crlf) = ?ds @ (if j \<le> length (dec n) then [] else [CHR 0x0D])"
    using assms(2) by (cases "j \<le> length (dec n)") (auto simp: crlf_def le_Suc_eq)
  then have "trim (take j (dec n @ crlf)) = ?ds"
    using trim_header_line [OF ds(1), of "if j \<le> length (dec n) then [] else [CHR 0x0D]"]
    by (auto simp: line_ends_def dest!: in_set_takeD dec_solid split: if_splits)
  then show ?thesis
    using parse_unsigned_digits [OF ds, of usize_max] digits_val_take_dec [of j n]
      digits_val_take_dec_pos [of n j] assms(1,3)
    by (auto simp: header_number_def)
qed

lemma read_line_cut:
  assumes "solid_byte c" and "j \<le> length (dec n) + 1"
  shows "read_line (c # take j (dec n @ crlf)) = Ok (c # take j (dec n @ crlf), [])"
proof -
  have "set (take j (dec n @ crlf)) \<subseteq> set (dec n @ [CHR 0x0D])"
    using assms(2) by (auto simp: crlf_def take_Cons' dest: in_set_takeD split: if_splits)
  then have *: "\<forall>x \<in> set (c # take j (dec n @ crlf)). x \<noteq> CHR 0x0A \<and> bv x < 128"
    using assms(1) by (auto simp: solid_byte_def dest!: dec_solid)
  then have "CHR 0x0A \<notin> set (c # take j (dec n @ crlf))"
    by blast
  moreover have "utf8_valid (c # take j (dec n @ crlf))"
    using * by (intro utf8_valid_ascii) blast
  ultimately show ?thesis
    by (rule read_line_no_lf)
qed

text \<open>
  The offsets just after a type marker: after the star, or after the dollar of some argument. A
  buffer that ends there is refused as malformed although more bytes would complete it.
\<close>

definition bulk_marker :: "bytes list \<Rightarrow> nat \<Rightarrow> bool" where
  "bulk_marker args k \<longleftrightarrow> (\<exists>i < length args. k = length (concat (map bulk (take i args))) + 1)"

lemma bulk_marker_Cons:
  "bulk_marker (a # args) k \<longleftrightarrow>
     k = 1 \<or> (length (bulk a) \<le> k \<and> bulk_marker args (k - length (bulk a)))"
proof -
  have "bulk_marker (a # args) k \<longleftrightarrow>
      (\<exists>i < Suc (length args). k = length (concat (map bulk (take i (a # args)))) + 1)"
    by (simp add: bulk_marker_def)
  also have "\<dots> \<longleftrightarrow> k = 1 \<or>
      (\<exists>i < length args. k = length (bulk a) + length (concat (map bulk (take i args))) + 1)"
    unfolding Ex_less_Suc2 by (simp del: value_to_resp.simps)
  also have "\<dots> \<longleftrightarrow> k = 1 \<or> (length (bulk a) \<le> k \<and> bulk_marker args (k - length (bulk a)))"
    by (auto simp: bulk_marker_def simp del: value_to_resp.simps)
  finally show ?thesis .
qed

lemma parse_args_cut_bulk:
  assumes "k < length (bulk a)" and "length a \<le> isize_max"
  shows "parse_args (Suc n) acc (take k (bulk a)) =
    Return (if k = 1 then Err InvalidFormat else Ok None)"
proof -
  let ?h = "dec (length a) @ crlf"
  have u: "length a \<le> usize_max" using assms(2) isize_le_usize by simp
  have b: "bulk a = CHR ''$'' # ?h @ a @ crlf" by simp
  consider "k = 0" | "k = 1" | j where "k = Suc j" "0 < j" "j \<le> length (dec (length a)) + 1"
    | j where "k = Suc (length ?h + j)" "j < length a + 2"
  proof -
    have "k < length (dec (length a)) + length a + 5" using assms(1) by simp
    then show ?thesis
      using that(1,2) that(3) [of "k - 1"] that(4) [of "k - Suc (length ?h)"]
      by (cases "k \<le> length (dec (length a)) + 2") force+
  qed
  then show ?thesis
  proof cases
    case 3
    then have t: "take k (bulk a) = CHR ''$'' # take j ?h" by simp
    obtain m where "header_number (CHR ''$'' # take j ?h) = Some m" "m \<le> length a"
      using header_number_cut [of j "length a" "CHR ''$''"] 3 u by auto
    then show ?thesis
      using t 3 assms(2) read_line_cut [of "CHR ''$''" j "length a"] by (simp add: Let_def)
  next
    case 4
    then have "take k (bulk a) = CHR ''$'' # ?h @ take j (a @ crlf)" by (simp add: b)
    then show ?thesis
      using 4 assms(2) u read_line_header [of "CHR ''$''" "length a" "take j (a @ crlf)"]
      by (auto simp: header_number_dec Let_def)
  qed (simp_all add: read_line_def header_number_def utf8_valid_ascii_Cons trim_def trim_start_def
      trim_end_def parse_unsigned_def)
qed

lemma parse_args_cut:
  assumes "\<forall>a \<in> set args. length a \<le> isize_max" and "k < length (concat (map bulk args))"
  shows "parse_args (length args) acc (take k (concat (map bulk args))) =
    Return (if bulk_marker args k then Err InvalidFormat else Ok None)"
  using assms
proof (induction args arbitrary: acc k)
  case (Cons a args)
  show ?case
  proof (cases "k < length (bulk a)")
    case True
    then have "take k (concat (map bulk (a # args))) = take k (bulk a)"
      by (simp del: value_to_resp.simps)
    with True Cons.prems parse_args_cut_bulk [OF True, of "length args" acc] show ?thesis
      by (simp add: bulk_marker_Cons del: value_to_resp.simps parse_args.simps(2))
  next
    case False
    let ?k = "k - length (bulk a)"
    have "1 < length (bulk a)" by simp
    then have "k \<noteq> 1" using False by (simp del: value_to_resp.simps)
    have "take k (concat (map bulk (a # args))) = bulk a @ take ?k (concat (map bulk args))"
      using False by (simp del: value_to_resp.simps)
    with False \<open>k \<noteq> 1\<close> Cons.prems Cons.IH [of ?k "acc @ [a]"]
      parse_args_bulk [of a "length args" acc "take ?k (concat (map bulk args))"]
    show ?thesis
      by (auto simp: bulk_marker_Cons simp del: value_to_resp.simps parse_args.simps(2))
  qed
qed simp

lemma parse_args_Nil: "0 < n \<Longrightarrow> parse_args n acc [] = Return (Ok None)"
  by (cases n) simp_all

lemma parse_command_star: "parse_command ''*'' = Return (Err InvalidFormat)"
  by (simp add: parse_command_def read_line_def header_number_def utf8_valid_ascii_Cons trim_def
      trim_start_def trim_end_def parse_unsigned_def)

lemma parse_command_cut_header:
  assumes "k \<le> length (dec n) + 2" and "0 < n" and "n * 24 \<le> isize_max"
  shows "parse_command (take k (''*'' @ dec n @ crlf)) =
    Return (if k = 1 then Err InvalidFormat else Ok None)"
proof -
  consider "k = 0" | "k = 1" | j where "k = Suc j" "0 < j" "j \<le> length (dec n) + 1"
    using assms(1) by (cases k) force+
  then show ?thesis
  proof cases
    case 3
    obtain m where "header_number (CHR ''*'' # take j (dec n @ crlf)) = Some m" "m \<le> n" "0 < m"
      using header_number_cut [of j n "CHR ''*''"] 3 assms(2,3) isize_le_usize by auto
    then show ?thesis
      using 3 assms(3) read_line_cut [of "CHR ''*''" j n]
      by (simp add: parse_command_def parse_args_Nil)
  qed (simp_all add: parse_command_star, simp add: parse_command_def)
qed

text \<open>
  Where the encoding of a command may be cut: every proper prefix asks for more data, except one
  that ends just after a type marker.
\<close>

definition marker_cut :: "bytes list \<Rightarrow> nat \<Rightarrow> bool" where
  "marker_cut args k \<longleftrightarrow>
     k = 1 \<or> (length (''*'' @ dec (length args) @ crlf) \<le> k \<and>
              bulk_marker args (k - length (''*'' @ dec (length args) @ crlf)))"

lemma parse_command_cut:
  assumes "command_fits args" and "args \<noteq> []" and "k < length (encode_command args)"
  shows "parse_command (take k (encode_command args)) =
    Return (if marker_cut args k then Err InvalidFormat else Ok None)"
proof -
  let ?h = "''*'' @ dec (length args) @ crlf" and ?body = "concat (map bulk args)"
  have fits: "length args * 24 \<le> isize_max" "\<forall>a \<in> set args. length a \<le> isize_max"
    using assms(1) by (simp_all add: command_fits_def)
  show ?thesis
  proof (cases "k < length ?h")
    case True
    then have "take k (encode_command args) = take k ?h"
      using take_append [of k ?h ?body] by (simp add: encode_command_eq)
    with True fits(1) assms(2) parse_command_cut_header [of k "length args"] show ?thesis
      by (simp add: marker_cut_def)
  next
    case False
    let ?k = "k - length ?h"
    have k: "?k < length ?body"
      using False assms(3) by (simp add: encode_command_eq)
    have "take k (encode_command args) = ?h @ take ?k ?body"
      using False take_past_append [of ?h k ?body] by (simp add: encode_command_eq)
    moreover have "k \<noteq> 1" using False by auto
    ultimately show ?thesis
      using False fits(1) parse_args_cut [OF fits(2) k, of "[]"] isize_le_usize
        read_line_header [of "CHR ''*''" "length args" "take ?k ?body"]
      by (auto simp: parse_command_def marker_cut_def header_number_dec
          simp del: value_to_resp.simps)
  qed
qed

section \<open>Frames are self-delimiting\<close>

text \<open>
  What a client can tell apart: \<^verbatim>\<open>Okay\<close> is the status line \<^verbatim>\<open>+OK\<close>, and all RESP3 values are one error.
\<close>

fun wire_form :: "redis_value \<Rightarrow> redis_value" where
  "wire_form Okay = SimpleString ''OK''"
| "wire_form (Array items) = Array (map wire_form items)"
| "wire_form (Resp3 _) = Resp3 []"
| "wire_form v = v"

text \<open>Status lines as Redis sends them: without a carriage return.\<close>

fun clean_status :: "redis_value \<Rightarrow> bool" where
  "clean_status (SimpleString s) \<longleftrightarrow> CHR 0x0D \<notin> set s"
| "clean_status (Array items) \<longleftrightarrow> (\<forall>v \<in> set items. clean_status v)"
| "clean_status _ \<longleftrightarrow> True"

lemma split_at_crlf:
  "CHR 0x0D \<notin> set a \<Longrightarrow> CHR 0x0D \<notin> set b \<Longrightarrow> a @ crlf @ r = b @ crlf @ s \<longleftrightarrow> a = b \<and> r = s"
  using split_at_sep [of "CHR 0x0D" a b "CHR 0x0A # r" "CHR 0x0A # s"] by (simp add: crlf_def)

lemma dec_int_no_cr: "CHR 0x0D \<notin> set (dec_int i)"
  using dec_no_line_end by (auto simp: dec_int_def)

lemma dec_no_minus: "dec n \<noteq> CHR ''-'' # ds"
  using dec_hd [of n] by (auto simp: is_ascii_digit_def)

lemma dec_int_inj: "dec_int i = dec_int j \<longleftrightarrow> i = j"
  using dec_no_minus dec_no_minus [symmetric] by (auto simp: dec_int_def dec_inj)

lemmas frame_split = split_at_crlf dec_int_no_cr dec_no_line_end dec_inj dec_int_inj

lemma wire_form_Array: "wire_form v = Array xs \<longleftrightarrow> (\<exists>ys. v = Array ys \<and> map wire_form ys = xs)"
  by (cases v) auto

text \<open>
  A frame starts with the marker of its kind, and up to the first line end it holds what its
  kind puts there.
\<close>

fun frame_head :: "redis_value \<Rightarrow> bytes" where
  "frame_head NilV = ''$-1''"
| "frame_head (IntV i) = '':'' @ dec_int (sint i)"
| "frame_head (BulkString b) = ''$'' @ dec (length b)"
| "frame_head (Array items) = ''*'' @ dec (length items)"
| "frame_head (SimpleString s) = ''+'' @ s"
| "frame_head Okay = ''+OK''"
| "frame_head (Resp3 _) = ''-ERR Unsupported RESP3 type''"

fun frame_body :: "redis_value \<Rightarrow> bytes" where
  "frame_body (BulkString b) = b @ crlf"
| "frame_body (Array items) = concat (map value_to_resp items)"
| "frame_body _ = []"

lemma frame_head_body: "value_to_resp v = frame_head v @ crlf @ frame_body v"
  by (cases v) auto

lemma frame_head_no_cr: "clean_status v \<Longrightarrow> CHR 0x0D \<notin> set (frame_head v)"
  using dec_int_no_cr dec_no_line_end by (cases v) auto

text \<open>Two frames with the same first line are of the same kind and size, or have the same value.\<close>

lemma frame_head_eq:
  assumes "frame_head v = frame_head w"
  shows "wire_form v = wire_form w \<and> frame_body v = [] \<and> frame_body w = [] \<or>
    (\<exists>b c. v = BulkString b \<and> w = BulkString c \<and> length b = length c) \<or>
    (\<exists>xs ys. v = Array xs \<and> w = Array ys \<and> length xs = length ys)"
  using assms
  by (cases v; cases w) (auto simp: dec_inj dec_int_inj dec_no_minus dec_no_minus [symmetric] intro: signed_word_eqI)

lemma frames_cong:
  assumes "length vs = length ws"
    and "concat (map value_to_resp vs) @ r = concat (map value_to_resp ws) @ s"
    and "\<And>v w r s. v \<in> set vs \<Longrightarrow> w \<in> set ws \<Longrightarrow> value_to_resp v @ r = value_to_resp w @ s \<Longrightarrow>
      wire_form v = wire_form w \<and> r = s"
  shows "map wire_form vs = map wire_form ws \<and> r = s"
  using assms
proof (induction vs ws arbitrary: r s rule: list_induct2)
  case (Cons v vs w ws)
  from Cons.prems(1) have "wire_form v = wire_form w \<and>
      concat (map value_to_resp vs) @ r = concat (map value_to_resp ws) @ s"
    by (intro Cons.prems(2)) auto
  moreover from this have "map wire_form vs = map wire_form ws \<and> r = s"
    using Cons.prems(2) by (intro Cons.IH) auto
  ultimately show ?case by simp
qed simp

lemma value_to_resp_unique:
  assumes "value_to_resp v @ r = value_to_resp w @ s" and "clean_status v" and "clean_status w"
  shows "wire_form v = wire_form w \<and> r = s"
  using assms
proof (induction v arbitrary: w r s rule: measure_induct_rule [of size])
  case (less v)
  then have h: "frame_head v = frame_head w" and b: "frame_body v @ r = frame_body w @ s"
    by (simp_all add: frame_head_body split_at_crlf frame_head_no_cr del: frame_head.simps)
  from frame_head_eq [OF h] show ?case
  proof (elim disjE exE conjE)
    fix vs ws
    assume v: "v = Array vs" "w = Array ws" "length vs = length ws"
    have "map wire_form vs = map wire_form ws \<and> r = s"
    proof (rule frames_cong [OF v(3)])
      show "concat (map value_to_resp vs) @ r = concat (map value_to_resp ws) @ s"
        using b v by simp
    next
      fix x y r' s'
      assume "x \<in> set vs" "y \<in> set ws" "value_to_resp x @ r' = value_to_resp y @ s'"
      then show "wire_form x = wire_form y \<and> r' = s'"
        using less.prems(2,3) v size_list_estimation' [of x vs "size x" size]
        by (intro less.IH) auto
    qed
    then show ?thesis using v by simp
  qed (use b in auto)
qed

section \<open>What the codec guarantees\<close>

text \<open>C2. Round trip: the reader returns exactly the arguments that were encoded and consumes exactly their encoding,
  whatever bytes the arguments hold and whatever follows.\<close>

theorem resp_round_trip:
  assumes "command_fits args"
  shows "parse_command (encode_command args @ rest) =
    Return (Ok (Some (args, length (encode_command args))))"
  using assms by (rule parse_command_encode)

theorem resp_round_trip_witness:
  "parse_command (encode_command [''SET'', ''k'', [CHR 0x0D, CHR 0x0A]] @ ''*1'') =
    Return (Ok (Some ([''SET'', ''k'', [CHR 0x0D, CHR 0x0A]],
      length (encode_command [''SET'', ''k'', [CHR 0x0D, CHR 0x0A]]))))"
  by (rule resp_round_trip) (simp add: command_fits_def isize_max_eq)

text \<open>C21. Every proper prefix of an encoded command asks for more data, except one that ends just after a type marker,
  which is refused as malformed.\<close>

theorem resp_incomplete:
  assumes "command_fits args" and "args \<noteq> []" and "k < length (encode_command args)"
  shows "parse_command (take k (encode_command args)) =
    Return (if marker_cut args k then Err InvalidFormat else Ok None)"
  using assms by (rule parse_command_cut)

theorem resp_incomplete_witness:
  "parse_command (take 1 (encode_command [''PING''])) = Return (Err InvalidFormat)"
proof -
  have "marker_cut [''PING''] 1"
    by (simp add: marker_cut_def)
  moreover have "1 < length (encode_command [''PING''])"
    by (simp add: encode_command_eq)
  ultimately show ?thesis
    using resp_incomplete [of "[''PING'']" 1] by (simp add: command_fits_def isize_max_eq)
qed

text \<open>C22. Replies are self-delimiting and unambiguous: two replies whose encodings start the same stream of bytes are the
  same reply on the wire, and leave the same rest.\<close>

theorem resp_replies_unambiguous:
  assumes "value_to_resp v @ r = value_to_resp w @ s" and "clean_status v" and "clean_status w"
  shows "wire_form v = wire_form w \<and> r = s"
  using assms by (rule value_to_resp_unique)

theorem resp_replies_unambiguous_witness:
  "wire_form (Array [Okay, IntV 3]) = wire_form (Array [SimpleString ''OK'', IntV 3]) \<and> ''x'' = ''x''"
  by (rule resp_replies_unambiguous) (simp_all add: crlf_def)

text \<open>A header whose count would need more than the address space aborts the reader with a panic instead of an
  error, before any argument has arrived.\<close>

theorem resp_capacity_panic:
  assumes "isize_max < n * 24" and "n \<le> usize_max"
  shows "parse_command (''*'' @ dec n @ crlf @ rest) = Panic"
  using assms read_line_header [of "CHR ''*''" n rest] header_number_dec [of n "CHR ''*''"]
  by (simp add: parse_command_def)

theorem resp_capacity_panic_witness:
  "parse_command (''*'' @ dec 9223372036854775807 @ crlf @ []) = Panic"
  by (rule resp_capacity_panic) (simp_all add: isize_max_eq usize_max_eq)

end
