(* ===== verification/Json.thy ===== *)
theory Json
  imports Rust_Str "HOL-Library.List_Lexorder" "HOL-Library.Char_ord"
begin

text \<open>
  JSON values as \<^verbatim>\<open>serde_json::Value\<close> has them. The crate is built without its
  \<^verbatim>\<open>preserve_order\<close> feature (\<^verbatim>\<open>Cargo.lock\<close>), so an object is a \<^verbatim>\<open>BTreeMap<String, Value>\<close>: an
  association list in ascending byte order of its keys, whatever the order of insertion.
  Numbers are integers: the program builds no others and never looks inside one. The locale
  states what a keyed store promises to the code that fills it; it is interpreted here for the
  ordered association list and for HOL maps, which model the program's hash maps.
\<close>

datatype json =
    JNull
  | JBool bool
  | JNumber int
  | JString str
  | JArray "json list"
  | JObject "(str \<times> json) list"

section \<open>Ordered maps\<close>

fun btree_insert :: "str \<Rightarrow> 'v \<Rightarrow> (str \<times> 'v) list \<Rightarrow> (str \<times> 'v) list" where
  "btree_insert k v [] = [(k, v)]"
| "btree_insert k v ((k', v') # m) =
     (if k < k' then (k, v) # (k', v') # m
      else if k = k' then (k, v) # m
      else (k', v') # btree_insert k v m)"

definition btree_remove :: "str \<Rightarrow> (str \<times> 'v) list \<Rightarrow> (str \<times> 'v) list" where
  "btree_remove k m = filter (\<lambda>(k', _). k' \<noteq> k) m"

definition btree_ok :: "(str \<times> 'v) list \<Rightarrow> bool" where
  "btree_ok m \<longleftrightarrow> sorted_wrt (<) (map fst m)"

lemma btree_ok_Nil [simp]: "btree_ok []"
  by (simp add: btree_ok_def)

lemma map_of_btree_insert: "map_of (btree_insert k v m) = (map_of m)(k \<mapsto> v)"
  by (induction m rule: btree_insert.induct) (auto simp: fun_eq_iff)

lemma fst_btree_insert: "set (map fst (btree_insert k v m)) = insert k (set (map fst m))"
  by (induction m rule: btree_insert.induct) auto

lemma btree_ok_insert [wf_intros]: "btree_ok m \<Longrightarrow> btree_ok (btree_insert k v m)"
proof (induction m rule: btree_insert.induct)
  case (2 k v k' v' m)
  have "fst ` set (btree_insert k v m) = insert k (fst ` set m)"
    using fst_btree_insert [of k v m] by simp
  with 2 show ?case
    by (auto simp: btree_ok_def)
qed (simp add: btree_ok_def)

lemma map_of_btree_remove: "map_of (btree_remove k m) = (map_of m)(k := None)"
  by (induction m) (auto simp: btree_remove_def fun_eq_iff)

lemma btree_ok_remove [wf_intros]: "btree_ok m \<Longrightarrow> btree_ok (btree_remove k m)"
  by (induction m) (auto simp: btree_remove_def btree_ok_def)

lemma btree_ok_distinct: "btree_ok m \<Longrightarrow> distinct (map fst m)"
  by (auto simp: btree_ok_def strict_sorted_iff)

text \<open>Two ordered maps with the same entries are the same list: key order is not observable.\<close>

lemma btree_entries: "btree_ok m \<Longrightarrow> map (\<lambda>k. (k, the (map_of m k))) (map fst m) = m"
  by (auto simp: comp_def intro!: map_idI dest!: btree_ok_distinct)

lemma btree_unique:
  assumes "btree_ok m" and "btree_ok m'" and "map_of m = map_of m'"
  shows "m = m'"
proof -
  have "set (map fst m) = set (map fst m')"
    using assms(3) dom_map_of_conv_image_fst [of m] dom_map_of_conv_image_fst [of m'] by simp
  then have "map fst m = map fst m'"
    using assms(1,2) by (simp add: btree_ok_def strict_sorted_equal)
  then show ?thesis
    using btree_entries [OF assms(1)] btree_entries [OF assms(2)] assms(3) by metis
qed

section \<open>The interface of a keyed store\<close>

locale keyed_store =
  fixes lookup :: "'m \<Rightarrow> 'k \<Rightarrow> 'v option"
    and insert_entry :: "'k \<Rightarrow> 'v \<Rightarrow> 'm \<Rightarrow> 'm"
    and store_ok :: "'m \<Rightarrow> bool"
  assumes lookup_insert: "store_ok m \<Longrightarrow> lookup (insert_entry k v m) = (lookup m)(k \<mapsto> v)"
    and store_ok_insert: "store_ok m \<Longrightarrow> store_ok (insert_entry k v m)"
begin

lemma store_ok_fill:
  "store_ok m \<Longrightarrow> store_ok (foldl (\<lambda>m (k, v). insert_entry k v m) m kvs)"
  by (induction kvs arbitrary: m) (auto simp: store_ok_insert)

text \<open>Filling a store entry by entry: for each key the last entry wins.\<close>

lemma lookup_fill:
  "store_ok m \<Longrightarrow>
     lookup (foldl (\<lambda>m (k, v). insert_entry k v m) m kvs) = lookup m ++ map_of (rev kvs)"
proof (induction kvs arbitrary: m)
  case (Cons kv kvs)
  obtain k v where kv: "kv = (k, v)" by (cases kv)
  have "lookup (foldl (\<lambda>m (k, v). insert_entry k v m) (insert_entry k v m) kvs) =
      lookup (insert_entry k v m) ++ map_of (rev kvs)"
    by (rule Cons.IH) (rule store_ok_insert [OF Cons.prems])
  also have "\<dots> = lookup m ++ (map_of [(k, v)] ++ map_of (rev kvs))"
    unfolding lookup_insert [OF Cons.prems] by simp
  finally show ?case
    by (simp add: kv)
qed simp

end

interpretation btree: keyed_store map_of btree_insert btree_ok
  by unfold_locales (auto simp: map_of_btree_insert intro: btree_ok_insert)

interpretation hashmap: keyed_store "\<lambda>m. m" "\<lambda>k v m. m(k \<mapsto> v)" "\<lambda>_. True"
  by unfold_locales auto

end
