(* ===== verification/Externals.thy ===== *)
theory Externals
  imports Resp Json
begin

text \<open>
  The shared types of \<^verbatim>\<open>crates/redis-web-core/src/interfaces.rs\<close> and what the program calls in code
  that is not its own. Third-party functions are the fields of one record of parameters, which
  every definition that uses one takes as its first argument; nothing is assumed about them
  except where a theorem says so.
\<close>

section \<open>Third-party functions\<close>

datatype ip_addr = V4 "32 word" | V6 "128 word"

text \<open>An \<^verbatim>\<open>ipnet::IpNet\<close> is only ever asked whether it contains an address.\<close>

type_synonym ipnet = "ip_addr \<Rightarrow> bool"

record externals =
  json_to_string :: "json \<Rightarrow> str" \<comment> \<open>\<^verbatim>\<open>serde_json::Value::to_string\<close>\<close>
  header_ok :: "str \<Rightarrow> bool" \<comment> \<open>\<^verbatim>\<open>HeaderValue::from_str\<close> accepts the string\<close>
  header_to_str :: "bytes \<Rightarrow> str option" \<comment> \<open>\<^verbatim>\<open>HeaderValue::to_str\<close>\<close>
  sha1_hex :: "bytes \<Rightarrow> str" \<comment> \<open>\<^verbatim>\<open>format!("{:x}", Sha1)\<close> of the hashed bytes\<close>
  base64_decode :: "str \<Rightarrow> bytes option" \<comment> \<open>\<^verbatim>\<open>general_purpose::STANDARD.decode\<close>\<close>
  parse_ipnet :: "str \<Rightarrow> ipnet option" \<comment> \<open>\<^verbatim>\<open>str::parse::<IpNet>\<close>\<close>

section \<open>Requests and commands\<close>

text \<open>\<^verbatim>\<open>HashMap<String, String>\<close>: the query parameters.\<close>

type_synonym params = "str \<rightharpoonup> str"

record parse_request_input =
  command_path :: str
  params_in :: params
  default_database_in :: u8
  body_in :: "bytes option"
  etag_enabled_in :: bool

record executable_command =
  target_database :: u8
  command_name :: str
  command_args :: "bytes list"

record auth_context =
  client_ip :: ip_addr
  authorization :: "str option"

datatype command_execution_error = ServiceUnavailable str | ExecutionFailed str

text \<open>Its \<^verbatim>\<open>Display\<close>: the message alone.\<close>

fun error_text :: "command_execution_error \<Rightarrow> str" where
  "error_text (ServiceUnavailable msg) = msg"
| "error_text (ExecutionFailed msg) = msg"

text \<open>
  \<^verbatim>\<open>CommandExecutor::execute\<close>: it runs against a backend whose state the effects of the command
  change.
\<close>

type_synonym 'b executor =
  "'b \<Rightarrow> executable_command \<Rightarrow> 'b \<times> (redis_value, command_execution_error) result"

section \<open>HTTP responses\<close>

text \<open>
  A response has a status, one value per (lower case) header name, and a body. The constructors
  are the ones axum documents: a bare status has no header and an empty body, and \<^verbatim>\<open>Json\<close> sets
  the content type and serialises its value.
\<close>

record response =
  status :: nat
  headers :: "str \<rightharpoonup> str"
  content :: bytes

definition bare_response :: "nat \<Rightarrow> response" where
  "bare_response st = \<lparr>status = st, headers = Map.empty, content = []\<rparr>"

definition typed_response :: "nat \<Rightarrow> str \<Rightarrow> bytes \<Rightarrow> response" where
  "typed_response st ct b = \<lparr>status = st, headers = [''content-type'' \<mapsto> ct], content = b\<rparr>"

definition plain_response :: "nat \<Rightarrow> bytes \<Rightarrow> response" where
  "plain_response st b = \<lparr>status = st, headers = Map.empty, content = b\<rparr>"

definition json_response :: "externals \<Rightarrow> nat \<Rightarrow> json \<Rightarrow> response" where
  "json_response X st v = typed_response st ''application/json'' (json_to_string X v)"

definition set_header :: "str \<Rightarrow> str \<Rightarrow> response \<Rightarrow> response" where
  "set_header name v r = r\<lparr>headers := (headers r)(name \<mapsto> v)\<rparr>"

text \<open>\<^verbatim>\<open>value.parse().unwrap()\<close> on a string that is not a literal: it panics on a bad header value.\<close>

definition insert_parsed :: "externals \<Rightarrow> str \<Rightarrow> str \<Rightarrow> response \<Rightarrow> response outcome" where
  "insert_parsed X name v r = (if header_ok X v then Return (set_header name v r) else Panic)"

lemmas response_defs =
  bare_response_def typed_response_def plain_response_def json_response_def set_header_def

lemma set_header_simps [simp]:
  "status (set_header n v r) = status r"
  "content (set_header n v r) = content r"
  "headers (set_header n v r) = (headers r)(n \<mapsto> v)"
  by (simp_all add: set_header_def)

lemma response_status [simp]:
  "status (bare_response st) = st" "status (typed_response st ct b) = st"
  "status (plain_response st b) = st" "status (json_response X st v) = st"
  by (simp_all add: response_defs)

lemma response_headers [simp]:
  "headers (bare_response st) = Map.empty" "headers (plain_response st b) = Map.empty"
  "headers (typed_response st ct b) = [''content-type'' \<mapsto> ct]"
  "headers (json_response X st v) = [''content-type'' \<mapsto> ''application/json'']"
  by (simp_all add: response_defs)

lemma response_content [simp]:
  "content (bare_response st) = []" "content (typed_response st ct b) = b"
  "content (plain_response st b) = b" "content (json_response X st v) = json_to_string X v"
  by (simp_all add: response_defs)

text \<open>
  An instance of the third-party functions, on which the hypotheses about them are seen to hold
  together: printable strings are header values, and the other functions are constant.
\<close>

definition sample_externals :: externals where
  "sample_externals =
     \<lparr>json_to_string = (\<lambda>_. ''{}''), header_ok = list_all (\<lambda>c. 32 \<le> bv c \<and> bv c < 127),
      header_to_str = Some, sha1_hex = (\<lambda>_. ''a9''), base64_decode = (\<lambda>_. None),
      parse_ipnet = (\<lambda>_. None)\<rparr>"

end
