(* ===== verification/Format.thy ===== *)
theory Format
  imports Externals
begin

text \<open>
  \<^verbatim>\<open>crates/redis-web-core/src/format.rs\<close>: the output formats, the content types of the suffixes, the
  choice of a JSONP callback and the two response formatters.
\<close>

datatype output_format = Json | Raw | Text

definition nonempty_param :: "params \<Rightarrow> str \<Rightarrow> str option" where
  "nonempty_param ps k =
     (case ps k of None \<Rightarrow> None | Some s \<Rightarrow> if s \<noteq> [] then Some s else None)"

definition select_jsonp_callback :: "params \<Rightarrow> str option" where
  "select_jsonp_callback ps =
     (case nonempty_param ps ''jsonp'' of
        Some cb \<Rightarrow> Some cb
      | None \<Rightarrow> nonempty_param ps ''callback'')"

definition json_value_response :: "externals \<Rightarrow> nat \<Rightarrow> json \<Rightarrow> str option \<Rightarrow> response" where
  "json_value_response X st payload jsonp_callback =
     (case jsonp_callback of
        Some cb \<Rightarrow>
          typed_response st ''application/javascript; charset=utf-8''
            (cb @ ''('' @ json_to_string X payload @ '')'')
      | None \<Rightarrow> json_response X st payload)"

definition content_type_for_extension :: "str \<Rightarrow> str option" where
  "content_type_for_extension ext =
     (if ext = ''json'' then Some ''application/json''
      else if ext = ''txt'' then Some ''text/plain''
      else if ext = ''html'' then Some ''text/html''
      else if ext = ''xhtml'' then Some ''application/xhtml+xml''
      else if ext = ''xml'' then Some ''text/xml''
      else if ext = ''png'' then Some ''image/png''
      else if ext = ''jpg'' \<or> ext = ''jpeg'' then Some ''image/jpeg''
      else if ext = ''raw'' then Some ''text/plain''
      else None)"

definition from_extension :: "str \<Rightarrow> output_format option" where
  "from_extension ext =
     (if ext = ''json'' then Some Json
      else if ext = ''raw'' then Some Raw
      else if ext \<in> {''txt'', ''html'', ''xhtml'', ''xml'', ''png'', ''jpg'', ''jpeg''} then Some Text
      else None)"

text \<open>The text of a JSON value in the legacy raw formatter, and of an element of an array.\<close>

definition bool_text :: "bool \<Rightarrow> str" where
  "bool_text b = (if b then ''true'' else ''false'')"

fun raw_item :: "json \<Rightarrow> str" where
  "raw_item (JString s) = s"
| "raw_item (JNumber n) = dec_int n"
| "raw_item (JBool b) = bool_text b"
| "raw_item _ = []"

fun raw_text :: "externals \<Rightarrow> json \<Rightarrow> str" where
  "raw_text X (JArray arr) = intercalate [CHR 0x0A] (map raw_item arr)"
| "raw_text X (JObject m) = json_to_string X (JObject m)"
| "raw_text X v = raw_item v"

fun format_response :: "externals \<Rightarrow> output_format \<Rightarrow> str \<Rightarrow> json \<Rightarrow> str option \<Rightarrow> response" where
  "format_response X Json cmd v cb = json_value_response X 200 (JObject [(cmd, v)]) cb"
| "format_response X Raw cmd v cb = typed_response 200 ''text/plain'' (raw_text X v)"
| "format_response X Text cmd v cb =
     json_response X 500 (JObject [(''error'', JString ''invalid output format for JSON formatter'')])"

section \<open>Properties of the tables\<close>

definition known_extensions :: "str set" where
  "known_extensions =
     {''json'', ''txt'', ''html'', ''xhtml'', ''xml'', ''png'', ''jpg'', ''jpeg'', ''raw''}"

text \<open>Every suffix with a format has a content type and the other way round.\<close>

lemma from_extension_known: "from_extension e \<noteq> None \<longleftrightarrow> e \<in> known_extensions"
  unfolding from_extension_def known_extensions_def by simp

lemma content_type_known: "content_type_for_extension e \<noteq> None \<longleftrightarrow> e \<in> known_extensions"
  unfolding content_type_for_extension_def known_extensions_def by simp

lemma known_extension_chars:
  "e \<in> known_extensions \<Longrightarrow> CHR ''.'' \<notin> set e \<and> CHR ''/'' \<notin> set e \<and> e \<noteq> []"
  unfolding known_extensions_def by (elim insertE emptyE) simp_all

lemma json_value_response_status [simp]: "status (json_value_response X st v cb) = st"
  by (simp add: json_value_response_def split: option.splits)

lemma select_jsonp_callback_nonempty: "select_jsonp_callback ps = Some cb \<Longrightarrow> cb \<noteq> []"
  by (auto simp: select_jsonp_callback_def nonempty_param_def split: option.splits if_splits)

end
