(* ===== verification/Request.thy ===== *)
theory Request
  imports Format
begin

text \<open>
  \<^verbatim>\<open>crates/redis-web-core/src/request.rs\<close>: from a URL path, query parameters and body to an executable
  command and its output options. The percent decoder's index loop is a recursion on the bytes
  that are left.
\<close>

section \<open>Percent decoding\<close>

text \<open>\<^verbatim>\<open>char::to_digit(16)\<close>.\<close>

definition hex_digit :: "byte \<Rightarrow> nat option" where
  "hex_digit c =
     (if is_ascii_digit c then Some (bv c - 48)
      else if 97 \<le> bv c \<and> bv c \<le> 102 then Some (bv c - 87)
      else if 65 \<le> bv c \<and> bv c \<le> 70 then Some (bv c - 55)
      else None)"

fun percent_decode_bytes :: "bytes \<Rightarrow> bytes" where
  "percent_decode_bytes [] = []"
| "percent_decode_bytes [c] = [c]"
| "percent_decode_bytes [c, d] = [c, d]"
| "percent_decode_bytes (c # h # l # r) =
     (if c = CHR ''%'' then
        (case (hex_digit h, hex_digit l) of
           (Some hi, Some lo) \<Rightarrow> char_of (hi * 16 + lo) # percent_decode_bytes r
         | _ \<Rightarrow> c # percent_decode_bytes (h # l # r))
      else c # percent_decode_bytes (h # l # r))"

definition percent_decode_segment_lossy :: "str \<Rightarrow> str" where
  "percent_decode_segment_lossy input = from_utf8_lossy (percent_decode_bytes input)"

section \<open>Parsing a request\<close>

datatype request_parse_error =
    EmptyCommand
  | InvalidDatabaseIndex
  | MissingCommandAfterDatabasePrefix
  | InvalidCommand str

record parsed_request =
  command :: executable_command
  output_fmt :: output_format
  jsonp_callback :: "str option"
  content_type_override :: "str option"
  extension_content_type :: "str option"
  etag_enabled :: bool

definition is_decimal_segment :: "str \<Rightarrow> bool" where
  "is_decimal_segment segment \<longleftrightarrow> segment \<noteq> [] \<and> list_all is_ascii_digit segment"

text \<open>
  The suffix of a segment when it is a known one, in lower case, and the segment without it.
\<close>

definition split_extension :: "str \<Rightarrow> str \<times> str option" where
  "split_extension segment =
     (case rfind (CHR ''.'') segment of
        None \<Rightarrow> (segment, None)
      | Some idx \<Rightarrow>
          let candidate = to_ascii_lowercase (drop (idx + 1) segment) in
          if from_extension candidate \<noteq> None \<or> content_type_for_extension candidate \<noteq> None
          then (take idx segment, Some candidate) else (segment, None))"

text \<open>
  The database prefix: the database and the index of the command segment, which exists.
\<close>

definition database_prefix ::
  "u8 \<Rightarrow> str list \<Rightarrow> (u8 \<times> nat, request_parse_error) result" where
  "database_prefix db0 parts =
     (if is_decimal_segment (parts ! 0) then
        (case parse_unsigned 255 (parts ! 0) of
           None \<Rightarrow> Err InvalidDatabaseIndex
         | Some db \<Rightarrow>
             if length parts < 2 \<or> parts ! 1 = [] then Err MissingCommandAfterDatabasePrefix
             else Ok (of_nat db, 1))
      else Ok (db0, 0))"

text \<open>The suffix is taken from the last argument, or from the command when there is none.\<close>

definition strip_request_extension ::
  "str \<Rightarrow> str list \<Rightarrow> str \<times> str list \<times> str option" where
  "strip_request_extension raw_cmd raw_args =
     (if raw_args \<noteq> [] then
        (case split_extension (last raw_args) of
           (seg, ext) \<Rightarrow> (raw_cmd, butlast raw_args @ [seg], ext))
      else
        (case split_extension raw_cmd of (seg, ext) \<Rightarrow> (seg, [], ext)))"

definition parse_http_request ::
  "parse_request_input \<Rightarrow> (parsed_request, request_parse_error) result" where
  "parse_http_request input =
     (let parts = split_on (CHR ''/'') (command_path input) in
      if parts = [] then Err EmptyCommand
      else case database_prefix (default_database_in input) parts of
          Err e \<Rightarrow> Err e
        | Ok (db, i) \<Rightarrow>
            (case strip_request_extension (parts ! i) (drop (i + 1) parts) of
               (raw_cmd, raw_args, extension) \<Rightarrow>
                 let cmd_name = percent_decode_segment_lossy raw_cmd;
                     path_args = map percent_decode_segment_lossy raw_args;
                     all_args = path_args @
                       (case body_in input of
                          Some b \<Rightarrow> if b \<noteq> [] then [b] else []
                        | None \<Rightarrow> []);
                     fmt = (case extension of
                          Some ext \<Rightarrow> (case from_extension ext of Some f \<Rightarrow> f | None \<Rightarrow> Json)
                        | None \<Rightarrow> Json)
                 in Ok \<lparr>command =
                          \<lparr>target_database = db, command_name = cmd_name, command_args = all_args\<rparr>,
                        output_fmt = fmt,
                        jsonp_callback =
                          (if fmt = Json then select_jsonp_callback (params_in input) else None),
                        content_type_override = nonempty_param (params_in input) ''type'',
                        extension_content_type =
                          (case extension of
                             Some ext \<Rightarrow> content_type_for_extension ext | None \<Rightarrow> None),
                        etag_enabled = etag_enabled_in input\<rparr>))"

section \<open>Percent encoding\<close>

text \<open>
  The encoder a client uses (RFC 3986): every byte but ASCII letters and digits is written as a
  percent sign and two hexadecimal digits. It is the specification the decoder is checked against.
\<close>

definition unreserved :: "byte \<Rightarrow> bool" where
  "unreserved c \<longleftrightarrow> is_ascii_digit c \<or> is_ascii_uppercase c \<or> is_ascii_lowercase c"

definition hex_char :: "nat \<Rightarrow> byte" where
  "hex_char n = (if n < 10 then char_of (48 + n) else char_of (55 + n))"

fun percent_encode :: "bytes \<Rightarrow> str" where
  "percent_encode [] = []"
| "percent_encode (c # cs) =
     (if unreserved c then c # percent_encode cs
      else CHR ''%'' # hex_char (bv c div 16) # hex_char (bv c mod 16) # percent_encode cs)"

lemma hex_digit_hex_char: "n < 16 \<Longrightarrow> hex_digit (hex_char n) = Some n"
  by (auto simp: hex_digit_def hex_char_def is_ascii_digit_def)

lemma unreserved_hex_char: "n < 16 \<Longrightarrow> unreserved (hex_char n)"
  by (simp add: unreserved_def hex_char_def is_ascii_digit_def is_ascii_uppercase_def)

lemma nibbles: "bv c div 16 < 16" "bv c mod 16 < 16"
  using less_mult_imp_div_less [of "bv c" 16 16] by simp_all

lemma percent_decode_Cons: "c \<noteq> CHR ''%'' \<Longrightarrow> percent_decode_bytes (c # s) = c # percent_decode_bytes s"
  by (cases s rule: percent_decode_bytes.cases) (auto split: option.splits)

lemma percent_decode_encode: "percent_decode_bytes (percent_encode s) = s"
proof (induction s)
  case (Cons c s)
  show ?case
  proof (cases "unreserved c")
    case True
    then have "c \<noteq> CHR ''%''"
      by (auto simp: unreserved_def ascii_defs)
    with True Cons show ?thesis
      by (simp add: percent_decode_Cons)
  next
    case False
    with Cons show ?thesis
      by (simp add: hex_digit_hex_char nibbles)
  qed
qed simp

lemma percent_encode_chars:
  "x \<in> set (percent_encode s) \<Longrightarrow> unreserved x \<or> x = CHR ''%''"
  by (induction s) (auto simp: unreserved_hex_char nibbles split: if_splits)

lemma percent_encode_Nil_iff [simp]: "percent_encode s = [] \<longleftrightarrow> s = []"
  by (cases s) auto

lemma percent_encode_safe:
  "CHR ''/'' \<notin> set (percent_encode s)" "CHR ''.'' \<notin> set (percent_encode s)"
  by (auto dest!: percent_encode_chars simp: unreserved_def ascii_defs)

lemma percent_segment_encode:
  "utf8_valid s \<Longrightarrow> percent_decode_segment_lossy (percent_encode s) = s"
  by (simp add: percent_decode_segment_lossy_def percent_decode_encode)

section \<open>What a path parses to\<close>

lemma is_decimal_dec [simp]: "is_decimal_segment (dec n)"
  by (simp add: is_decimal_segment_def dec_digits)

lemma database_prefix_dec:
  assumes "c \<noteq> []"
  shows "database_prefix d (dec (unat db) # c # rest) = Ok (db, 1)"
proof -
  have "unat db \<le> 255"
    using unsigned_less [of db, where 'a = nat] by simp
  with assms show ?thesis
    by (simp add: database_prefix_def)
qed

lemma split_extension_no_dot: "CHR ''.'' \<notin> set s \<Longrightarrow> split_extension s = (s, None)"
  using rfind_None_iff [of "CHR ''.''" s] by (simp add: split_extension_def)

lemma known_suffix_chars:
  "to_ascii_lowercase e \<in> known_extensions \<Longrightarrow> CHR ''.'' \<notin> set e \<and> CHR ''/'' \<notin> set e"
  using known_extension_chars [of "to_ascii_lowercase e"] by (simp add: in_set_lowercase)

lemma split_extension_known:
  assumes "to_ascii_lowercase e \<in> known_extensions"
  shows "split_extension (s @ CHR ''.'' # e) = (s, Some (to_ascii_lowercase e))"
  using assms known_suffix_chars [OF assms] rfind_append [of "CHR ''.''" e s]
    from_extension_known [of "to_ascii_lowercase e"]
  by (simp add: split_extension_def)

text \<open>The path of a command: database, command and arguments, each percent-encoded.\<close>

definition command_path_of :: "u8 \<Rightarrow> str \<Rightarrow> str list \<Rightarrow> str" where
  "command_path_of db cmd as =
     intercalate ''/'' (dec (unat db) # percent_encode cmd # map percent_encode as)"

lemma split_command_path:
  "split_on (CHR ''/'') (command_path_of db cmd as) =
     dec (unat db) # percent_encode cmd # map percent_encode as"
  unfolding command_path_of_def
  by (rule split_on_intercalate) (auto simp: dec_no_slash percent_encode_safe)

lemma split_command_path_suffix:
  assumes "CHR ''/'' \<notin> set e"
  shows "split_on (CHR ''/'') (command_path_of db cmd (as @ [a]) @ CHR ''.'' # e) =
     dec (unat db) # percent_encode cmd # map percent_encode as @ [percent_encode a @ CHR ''.'' # e]"
proof -
  let ?pre = "dec (unat db) # percent_encode cmd # map percent_encode as"
  have "command_path_of db cmd (as @ [a]) @ CHR ''.'' # e =
      intercalate ''/'' (?pre @ [percent_encode a @ CHR ''.'' # e])"
    using intercalate_snoc_append [of "''/''" ?pre "percent_encode a" "CHR ''.'' # e"] by (simp add: command_path_of_def)
  moreover have "split_on (CHR ''/'') (intercalate ''/'' (?pre @ [percent_encode a @ CHR ''.'' # e])) =
      ?pre @ [percent_encode a @ CHR ''.'' # e]"
    using assms by (intro split_on_intercalate) (auto simp: dec_no_slash percent_encode_safe)
  ultimately show ?thesis
    by simp
qed

lemma strip_request_extension_encoded:
  "strip_request_extension (percent_encode cmd) (map percent_encode as) =
     (percent_encode cmd, map percent_encode as, None)"
proof (cases as rule: rev_cases)
  case Nil
  then show ?thesis
    by (simp add: strip_request_extension_def split_extension_no_dot percent_encode_safe)
next
  case (snoc bs b)
  then show ?thesis
    by (simp add: strip_request_extension_def split_extension_no_dot percent_encode_safe)
qed

lemma map_percent_segments:
  "\<forall>a \<in> set as. utf8_valid a \<Longrightarrow> map (percent_decode_segment_lossy \<circ> percent_encode) as = as"
  by (rule map_idI) (simp add: percent_segment_encode)

definition body_args :: "bytes option \<Rightarrow> bytes list" where
  "body_args b = (case b of Some x \<Rightarrow> if x \<noteq> [] then [x] else [] | None \<Rightarrow> [])"

text \<open>
  Round trip: for every database, command and arguments there is a path that parses to exactly
  them, whatever bytes the (UTF-8) arguments hold; a body is one more argument.
\<close>

lemma parse_encoded_path:
  assumes "command_path i = command_path_of db cmd as"
    and "cmd \<noteq> []" and "utf8_valid cmd" and "\<forall>a \<in> set as. utf8_valid a"
  shows "parse_http_request i =
    Ok \<lparr>command = \<lparr>target_database = db, command_name = cmd,
            command_args = as @ body_args (body_in i)\<rparr>,
        output_fmt = Json, jsonp_callback = select_jsonp_callback (params_in i),
        content_type_override = nonempty_param (params_in i) ''type'',
        extension_content_type = None, etag_enabled = etag_enabled_in i\<rparr>"
  using assms
  by (simp add: parse_http_request_def Let_def split_command_path database_prefix_dec
      strip_request_extension_encoded percent_segment_encode map_percent_segments body_args_def)

text \<open>A known suffix, in any case, selects the format and the content type and is removed.\<close>

lemma parse_encoded_path_suffix:
  assumes "command_path i = command_path_of db cmd (as @ [a]) @ CHR ''.'' # e"
    and "to_ascii_lowercase e \<in> known_extensions"
    and "cmd \<noteq> []" and "utf8_valid cmd" and "\<forall>x \<in> set (as @ [a]). utf8_valid x"
    and "from_extension (to_ascii_lowercase e) = Some fmt"
  shows "parse_http_request i =
    Ok \<lparr>command = \<lparr>target_database = db, command_name = cmd,
            command_args = as @ [a] @ body_args (body_in i)\<rparr>,
        output_fmt = fmt,
        jsonp_callback = (if fmt = Json then select_jsonp_callback (params_in i) else None),
        content_type_override = nonempty_param (params_in i) ''type'',
        extension_content_type = content_type_for_extension (to_ascii_lowercase e),
        etag_enabled = etag_enabled_in i\<rparr>"
  using assms known_suffix_chars [OF assms(2)]
  by (simp add: parse_http_request_def Let_def split_command_path_suffix database_prefix_dec
      strip_request_extension_def split_extension_known percent_segment_encode
      map_percent_segments body_args_def)

section \<open>Errors\<close>

definition first_segment :: "str \<Rightarrow> str" where
  "first_segment path = split_on (CHR ''/'') path ! 0"

lemma parse_unsigned_decimal:
  "is_decimal_segment s \<Longrightarrow> parse_unsigned m s = (if digits_val s \<le> m then Some (digits_val s) else None)"
  by (simp add: is_decimal_segment_def parse_unsigned_digits)

lemma parse_http_request_Err_iff:
  "parse_http_request i = Err e \<longleftrightarrow>
     database_prefix (default_database_in i) (split_on (CHR ''/'') (command_path i)) = Err e"
  by (auto simp: parse_http_request_def Let_def split: sum.splits prod.splits)

lemma database_prefix_Err_iff:
  "database_prefix d parts = Err e \<longleftrightarrow>
     is_decimal_segment (parts ! 0) \<and>
     (if 255 < digits_val (parts ! 0) then e = InvalidDatabaseIndex
      else e = MissingCommandAfterDatabasePrefix \<and> (length parts < 2 \<or> parts ! 1 = []))"
  by (auto simp: database_prefix_def parse_unsigned_decimal)

lemma parse_http_request_Ok:
  assumes "parse_http_request i = Ok p"
  shows "utf8_valid (command_name (command p))"
    and "jsonp_callback p \<noteq> None \<Longrightarrow> output_fmt p = Json"
    and "etag_enabled p = etag_enabled_in i"
    and "content_type_override p = nonempty_param (params_in i) ''type''"
    and "\<exists>pa. command_args (command p) = pa @ body_args (body_in i) \<and> (\<forall>a \<in> set pa. utf8_valid a)"
    and "is_decimal_segment (first_segment (command_path i)) \<Longrightarrow>
      unat (target_database (command p)) = digits_val (first_segment (command_path i))"
    and "\<not> is_decimal_segment (first_segment (command_path i)) \<Longrightarrow>
      target_database (command p) = default_database_in i"
proof -
  let ?parts = "split_on (CHR ''/'') (command_path i)"
  obtain db j where dp: "database_prefix (default_database_in i) ?parts = Ok (db, j)"
    using assms by (cases "database_prefix (default_database_in i) ?parts")
      (auto simp: parse_http_request_def Let_def)
  obtain c as x where st: "strip_request_extension (?parts ! j) (drop (j + 1) ?parts) = (c, as, x)"
    by (metis prod_cases3)
  note p = assms [unfolded parse_http_request_def Let_def dp, simplified, unfolded st [simplified], simplified]
  show "utf8_valid (command_name (command p))"
    "jsonp_callback p \<noteq> None \<Longrightarrow> output_fmt p = Json"
    "etag_enabled p = etag_enabled_in i"
    "content_type_override p = nonempty_param (params_in i) ''type''"
    using p by (auto simp: percent_decode_segment_lossy_def utf8_valid_lossy split: if_splits)
  show "\<exists>pa. command_args (command p) = pa @ body_args (body_in i) \<and> (\<forall>a \<in> set pa. utf8_valid a)"
    using p by (intro exI [of _ "map percent_decode_segment_lossy as"])
      (auto simp: percent_decode_segment_lossy_def utf8_valid_lossy body_args_def)
  show "is_decimal_segment (first_segment (command_path i)) \<Longrightarrow>
      unat (target_database (command p)) = digits_val (first_segment (command_path i))"
    "\<not> is_decimal_segment (first_segment (command_path i)) \<Longrightarrow>
      target_database (command p) = default_database_in i"
    using p dp by (auto simp: database_prefix_def first_segment_def parse_unsigned_decimal
        unat_of_nat split: if_splits)
qed

section \<open>What the parser guarantees\<close>

text \<open>C3. Round trip: the percent-encoded path of a database, a command and its arguments parses to exactly them, whatever
  bytes the UTF-8 arguments hold, and a non-empty body is one more argument.\<close>

theorem request_round_trip:
  assumes "command_path i = command_path_of db cmd as"
    and "cmd \<noteq> []" and "utf8_valid cmd" and "\<forall>a \<in> set as. utf8_valid a"
  shows "\<exists>p. parse_http_request i = Ok p \<and>
    command p = \<lparr>target_database = db, command_name = cmd, command_args = as @ body_args (body_in i)\<rparr> \<and>
    output_fmt p = Json"
  using parse_encoded_path [OF assms] by simp

theorem request_round_trip_witness:
  "\<exists>p. parse_http_request \<lparr>command_path = command_path_of 7 ''SET'' [''a/b'', ''x.png''], params_in = Map.empty,
      default_database_in = 0, body_in = Some ''v'', etag_enabled_in = False\<rparr> = Ok p \<and>
    command p = \<lparr>target_database = 7, command_name = ''SET'',
      command_args = [''a/b'', ''x.png''] @ body_args (Some ''v'')\<rparr> \<and> output_fmt p = Json"
  using request_round_trip [of "\<lparr>command_path = command_path_of 7 ''SET'' [''a/b'', ''x.png''],
    params_in = Map.empty, default_database_in = 0, body_in = Some ''v'', etag_enabled_in = False\<rparr>" 7
    "''SET''" "[''a/b'', ''x.png'']"]
  by (simp add: utf8_valid_ascii)

text \<open>A request is refused exactly when its first segment is a number: one above 255, or one that no command
  follows. No other path is an error.\<close>

theorem request_errors:
  "parse_http_request i = Err e \<longleftrightarrow>
     is_decimal_segment (first_segment (command_path i)) \<and>
     (if 255 < digits_val (first_segment (command_path i)) then e = InvalidDatabaseIndex
      else e = MissingCommandAfterDatabasePrefix \<and>
        (length (split_on (CHR ''/'') (command_path i)) < 2 \<or>
         split_on (CHR ''/'') (command_path i) ! 1 = []))"
  by (simp add: parse_http_request_Err_iff database_prefix_Err_iff first_segment_def)

end
