(* ===== verification/Config.thy ===== *)
theory Config
  imports Externals
begin

text \<open>
  \<^verbatim>\<open>crates/redis-web-core/src/config.rs\<close>: the configuration record and its defaults, environment
  variable expansion over untyped JSON, the legacy key aliases, the Redis URL and the generated
  configuration documents. The typed (de)serialisation is serde's and the \<^verbatim>\<open>config\<close> crate's: it is a
  parameter of the operations that call it.
\<close>

section \<open>Data\<close>

datatype transport_mode = Rest | Grpc

record grpc_config =
  grpc_host :: str
  grpc_port :: u16
  enable_health_service :: bool
  enable_reflection :: bool
  max_decoding_message_size :: "nat option"
  max_encoding_message_size :: "nat option"

record ssl_config =
  ssl_flag :: bool
  ca_cert_bundle :: str
  path_to_certs :: "str option"
  client_cert :: str
  client_key :: str
  redis_sni :: "str option"

record acl_config =
  acl_disabled :: "str list option"
  acl_enabled :: "str list option"
  http_basic_auth :: "str option"
  acl_ip :: "str option"

datatype redis_auth_config = Legacy str | ACL "str list"

record hiredis_config =
  keep_alive_sec :: "nat option"

record compat_hiredis_config =
  compat_enabled :: bool
  path_prefix :: str
  session_ttl_sec :: nat
  max_sessions :: nat
  max_pipeline_commands :: nat

record config =
  redis_host :: str
  redis_port :: u16
  redis_socket :: "str option"
  http_host :: str
  http_port :: u16
  transport_mode :: transport_mode
  http_threads :: "nat option"
  runtime_worker_threads :: "nat option"
  legacy_http_threads :: "nat option"
  database :: u8
  pool_size_per_thread :: "nat option"
  legacy_pool_size_per_thread :: "nat option"
  websockets :: bool
  ssl :: "ssl_config option"
  acl :: "acl_config list option"
  redis_auth :: "redis_auth_config option"
  hiredis :: "hiredis_config option"
  compat_hiredis :: "compat_hiredis_config option"
  grpc :: grpc_config
  http_max_request_size :: "nat option"
  default_root :: "str option"
  verbosity :: "nat option"

section \<open>Defaults\<close>

definition DEFAULT_HTTP_THREADS :: nat where "DEFAULT_HTTP_THREADS = 4"
definition DEFAULT_POOL_SIZE_PER_THREAD :: nat where "DEFAULT_POOL_SIZE_PER_THREAD = 10"
definition DEFAULT_HTTP_MAX_REQUEST_SIZE :: nat where "DEFAULT_HTTP_MAX_REQUEST_SIZE = 128 * 1024 * 1024"
definition DEFAULT_VERBOSITY :: nat where "DEFAULT_VERBOSITY = 4"
definition DEFAULT_DATABASE :: u8 where "DEFAULT_DATABASE = 0"

definition default_redis_host :: str where "default_redis_host = ''127.0.0.1''"
definition default_redis_port :: u16 where "default_redis_port = 6379"
definition default_http_host :: str where "default_http_host = ''0.0.0.0''"
definition default_http_port :: u16 where "default_http_port = 7379"
definition default_http_host_starter :: str where "default_http_host_starter = ''127.0.0.1''"

definition default_grpc :: grpc_config where
  "default_grpc =
     \<lparr>grpc_host = ''0.0.0.0'', grpc_port = 7379, enable_health_service = True,
      enable_reflection = False, max_decoding_message_size = None,
      max_encoding_message_size = None\<rparr>"

definition default_compat_hiredis :: compat_hiredis_config where
  "default_compat_hiredis =
     \<lparr>compat_enabled = False, path_prefix = ''/__compat'', session_ttl_sec = 300,
      max_sessions = 1024, max_pipeline_commands = 256\<rparr>"

definition default_config :: config where
  "default_config =
     \<lparr>redis_host = default_redis_host, redis_port = default_redis_port, redis_socket = None,
      http_host = default_http_host, http_port = default_http_port, transport_mode = Rest,
      http_threads = Some DEFAULT_HTTP_THREADS, runtime_worker_threads = None,
      legacy_http_threads = None, database = DEFAULT_DATABASE,
      pool_size_per_thread = Some DEFAULT_POOL_SIZE_PER_THREAD,
      legacy_pool_size_per_thread = None, websockets = False, ssl = None, acl = None,
      redis_auth = None, hiredis = None, compat_hiredis = None, grpc = default_grpc,
      http_max_request_size = Some DEFAULT_HTTP_MAX_REQUEST_SIZE, default_root = None,
      verbosity = Some DEFAULT_VERBOSITY\<rparr>"

section \<open>Environment variables in JSON\<close>

text \<open>The path of a JSON value, for error messages.\<close>

definition push_key :: "str \<Rightarrow> str \<Rightarrow> str" where
  "push_key inner key = (if inner = [] then key else inner @ ''.'' @ key)"

definition push_index :: "str \<Rightarrow> nat \<Rightarrow> str" where
  "push_index inner idx = inner @ ''['' @ dec idx @ '']''"

definition display_path :: "str \<Rightarrow> str" where
  "display_path inner = (if inner = [] then ''<root>'' else inner)"

definition is_valid_env_var_name :: "str \<Rightarrow> bool" where
  "is_valid_env_var_name name \<longleftrightarrow>
     name \<noteq> [] \<and> list_all (\<lambda>c. is_ascii_uppercase c \<or> is_ascii_digit c \<or> c = CHR ''_'') name"

definition missing_env_message :: "str \<Rightarrow> str \<Rightarrow> str" where
  "missing_env_message var path =
     ''missing environment variable '' @ [CHR 0x27] @ var @ [CHR 0x27] @
     '' referenced by config key '' @ [CHR 0x27] @ display_path path @ [CHR 0x27]"

definition expand_string :: "(str \<rightharpoonup> str) \<Rightarrow> str \<Rightarrow> str \<Rightarrow> (json, str) result" where
  "expand_string env path s =
     (case strip_prefix ''$'' s of
        None \<Rightarrow> Ok (JString s)
      | Some var \<Rightarrow>
          if \<not> is_valid_env_var_name var then Ok (JString s)
          else case env var of
              Some v \<Rightarrow> Ok (JString v)
            | None \<Rightarrow> Err (missing_env_message var path))"

fun expand_env_vars_in_json :: "(str \<rightharpoonup> str) \<Rightarrow> str \<Rightarrow> json \<Rightarrow> (json, str) result"
  and expand_items :: "(str \<rightharpoonup> str) \<Rightarrow> str \<Rightarrow> nat \<Rightarrow> json list \<Rightarrow> (json list, str) result"
  and expand_entries :: "(str \<rightharpoonup> str) \<Rightarrow> str \<Rightarrow> (str \<times> json) list \<Rightarrow> ((str \<times> json) list, str) result"
where
  "expand_env_vars_in_json env path (JString s) = expand_string env path s"
| "expand_env_vars_in_json env path (JArray items) =
     (case expand_items env path 0 items of Err e \<Rightarrow> Err e | Ok xs \<Rightarrow> Ok (JArray xs))"
| "expand_env_vars_in_json env path (JObject m) =
     (case expand_entries env path m of Err e \<Rightarrow> Err e | Ok xs \<Rightarrow> Ok (JObject xs))"
| "expand_env_vars_in_json env path v = Ok v"
| "expand_items env path idx [] = Ok []"
| "expand_items env path idx (v # vs) =
     (case expand_env_vars_in_json env (push_index path idx) v of
        Err e \<Rightarrow> Err e
      | Ok w \<Rightarrow> (case expand_items env path (Suc idx) vs of Err e \<Rightarrow> Err e | Ok ws \<Rightarrow> Ok (w # ws)))"
| "expand_entries env path [] = Ok []"
| "expand_entries env path ((k, v) # m) =
     (case expand_env_vars_in_json env (push_key path k) v of
        Err e \<Rightarrow> Err e
      | Ok w \<Rightarrow> (case expand_entries env path m of Err e \<Rightarrow> Err e | Ok m' \<Rightarrow> Ok ((k, w) # m')))"

section \<open>Loading\<close>

definition apply_legacy_aliases :: "config \<Rightarrow> config" where
  "apply_legacy_aliases c =
     (let c1 = (if http_threads c = None \<and> legacy_http_threads c \<noteq> None
                then c\<lparr>http_threads := legacy_http_threads c, legacy_http_threads := None\<rparr>
                else c\<lparr>legacy_http_threads := None\<rparr>)
      in if pool_size_per_thread c1 = None \<and> legacy_pool_size_per_thread c1 \<noteq> None
         then c1\<lparr>pool_size_per_thread := legacy_pool_size_per_thread c1,
                 legacy_pool_size_per_thread := None\<rparr>
         else c1\<lparr>legacy_pool_size_per_thread := None\<rparr>)"

definition from_json_value ::
  "(json \<Rightarrow> (config, str) result) \<Rightarrow> (str \<rightharpoonup> str) \<Rightarrow> json \<Rightarrow> (config, str) result" where
  "from_json_value deserialize env j =
     (case expand_env_vars_in_json env [] j of
        Err e \<Rightarrow> Err e
      | Ok expanded \<Rightarrow>
          (case deserialize expanded of
             Err e \<Rightarrow> Err e
           | Ok c \<Rightarrow> Ok (apply_legacy_aliases c)))"

definition from_value ::
  "(json \<Rightarrow> (config, str) result) \<Rightarrow> (str \<rightharpoonup> str) \<Rightarrow> json \<Rightarrow> (config, str) result" where
  "from_value deserialize env v =
     (case v of
        JObject m \<Rightarrow> from_json_value deserialize env (JObject m)
      | _ \<Rightarrow> Err ''config must be a JSON object'')"

definition config_new ::
  "(str \<Rightarrow> (json, str) result) \<Rightarrow> (json \<Rightarrow> (config, str) result) \<Rightarrow> (str \<rightharpoonup> str) \<Rightarrow> str \<Rightarrow>
   (config, str) result" where
  "config_new load deserialize env config_path =
     (case load config_path of Err e \<Rightarrow> Err e | Ok j \<Rightarrow> from_json_value deserialize env j)"

section \<open>The Redis URL\<close>

definition ssl_enabled :: "config \<Rightarrow> bool" where
  "ssl_enabled c = (case ssl c of None \<Rightarrow> False | Some s \<Rightarrow> ssl_flag s)"

definition redis_auth_str :: "redis_auth_config option \<Rightarrow> str" where
  "redis_auth_str auth =
     (case auth of
        None \<Rightarrow> []
      | Some (Legacy password) \<Rightarrow> '':'' @ password @ ''@''
      | Some (ACL creds) \<Rightarrow>
          if length creds = 2 then creds ! 0 @ '':'' @ creds ! 1 @ ''@'' else [])"

definition get_redis_url :: "config \<Rightarrow> str" where
  "get_redis_url c =
     (if ssl_enabled c then ''rediss'' else ''redis'') @ ''://'' @ redis_auth_str (redis_auth c) @
     redis_host c @ '':'' @ dec (unat (redis_port c)) @ ''/'' @ dec (unat (database c))"

section \<open>Generated documents\<close>

definition DEFAULT_CONFIG_KEY_ORDER :: "str list" where
  "DEFAULT_CONFIG_KEY_ORDER =
     [''$schema'', ''redis_host'', ''redis_port'', ''redis_socket'', ''redis_auth'', ''hiredis'',
      ''compat_hiredis'', ''transport_mode'', ''grpc'', ''http_host'', ''http_port'',
      ''http_threads'', ''runtime_worker_threads'', ''pool_size_per_thread'', ''database'',
      ''websockets'', ''default_root'', ''http_max_request_size'', ''verbosity'', ''ssl'', ''acl'']"

fun place_keys ::
  "str list \<Rightarrow> (str \<times> json) list \<Rightarrow> (str \<times> json) list \<Rightarrow> (str \<times> json) list \<times> (str \<times> json) list" where
  "place_keys [] ordered remaining = (ordered, remaining)"
| "place_keys (key # ks) ordered remaining =
     (case map_of remaining key of
        Some v \<Rightarrow> place_keys ks (btree_insert key v ordered) (btree_remove key remaining)
      | None \<Rightarrow> place_keys ks ordered remaining)"

definition fill_map :: "(str \<times> 'v) list \<Rightarrow> (str \<times> 'v) list \<Rightarrow> (str \<times> 'v) list" where
  "fill_map m kvs = foldl (\<lambda>m (k, v). btree_insert k v m) m kvs"

definition decorate_config_map ::
  "(str \<times> json) list \<Rightarrow> str \<Rightarrow> str list \<Rightarrow> (str \<times> json) list" where
  "decorate_config_map m schema_ref key_order =
     (let with_schema = btree_insert ''$schema'' (JString schema_ref) m;
          kept = filter (\<lambda>(_, v). v \<noteq> JNull) with_schema;
          remaining = fill_map [] kept
      in case place_keys key_order [] remaining of (ordered, rest) \<Rightarrow> fill_map ordered rest)"

definition starter_document :: "str \<Rightarrow> json" where
  "starter_document schema_ref =
     JObject (decorate_config_map
       (fill_map []
          [(''redis_host'', JString default_redis_host),
           (''redis_port'', JNumber (uint default_redis_port)),
           (''http_host'', JString default_http_host_starter),
           (''http_port'', JNumber (uint default_http_port)),
           (''database'', JNumber (uint DEFAULT_DATABASE))])
       schema_ref DEFAULT_CONFIG_KEY_ORDER)"

definition default_document :: "(config \<Rightarrow> json) \<Rightarrow> str \<Rightarrow> json" where
  "default_document to_value schema_ref =
     (case to_value default_config of
        JObject m \<Rightarrow> JObject (decorate_config_map m schema_ref DEFAULT_CONFIG_KEY_ORDER)
      | other \<Rightarrow> other)"

section \<open>What expansion computes\<close>

text \<open>The variable a string stands for, if it is a placeholder.\<close>

definition placeholder :: "str \<Rightarrow> str option" where
  "placeholder s =
     (case s of
        c # var \<Rightarrow> if c = CHR ''$'' \<and> is_valid_env_var_name var then Some var else None
      | [] \<Rightarrow> None)"

text \<open>The specification: the variables a document refers to, and the document with their values.\<close>

fun env_refs :: "json \<Rightarrow> str list"
  and env_refs_items :: "json list \<Rightarrow> str list"
  and env_refs_entries :: "(str \<times> json) list \<Rightarrow> str list"
where
  "env_refs (JString s) = (case placeholder s of Some v \<Rightarrow> [v] | None \<Rightarrow> [])"
| "env_refs (JArray items) = env_refs_items items"
| "env_refs (JObject m) = env_refs_entries m"
| "env_refs _ = []"
| "env_refs_items [] = []"
| "env_refs_items (v # vs) = env_refs v @ env_refs_items vs"
| "env_refs_entries [] = []"
| "env_refs_entries ((k, v) # m) = env_refs v @ env_refs_entries m"

fun env_subst :: "(str \<rightharpoonup> str) \<Rightarrow> json \<Rightarrow> json"
  and env_subst_items :: "(str \<rightharpoonup> str) \<Rightarrow> json list \<Rightarrow> json list"
  and env_subst_entries :: "(str \<rightharpoonup> str) \<Rightarrow> (str \<times> json) list \<Rightarrow> (str \<times> json) list"
where
  "env_subst env (JString s) =
     JString (case placeholder s of Some v \<Rightarrow> the (env v) | None \<Rightarrow> s)"
| "env_subst env (JArray items) = JArray (env_subst_items env items)"
| "env_subst env (JObject m) = JObject (env_subst_entries env m)"
| "env_subst env v = v"
| "env_subst_items env [] = []"
| "env_subst_items env (v # vs) = env_subst env v # env_subst_items env vs"
| "env_subst_entries env [] = []"
| "env_subst_entries env ((k, v) # m) = (k, env_subst env v) # env_subst_entries env m"

lemma expand_string_placeholder:
  "expand_string env path s =
     (case placeholder s of
        None \<Rightarrow> Ok (JString s)
      | Some var \<Rightarrow>
          (case env var of Some v \<Rightarrow> Ok (JString v) | None \<Rightarrow> Err (missing_env_message var path)))"
  by (auto simp: expand_string_def placeholder_def strip_prefix_def prefix_Cons
      split: list.splits option.splits)

lemma expand_env_defined:
  "set (env_refs j) \<subseteq> dom env \<Longrightarrow> expand_env_vars_in_json env path j = Ok (env_subst env j)"
  "set (env_refs_items js) \<subseteq> dom env \<Longrightarrow> expand_items env path n js = Ok (env_subst_items env js)"
  "set (env_refs_entries m) \<subseteq> dom env \<Longrightarrow> expand_entries env path m = Ok (env_subst_entries env m)"
  by (induction env path j and env path n js and env path m
      rule: expand_env_vars_in_json_expand_items_expand_entries.induct)
    (auto simp: expand_string_placeholder split: option.splits)

lemma expand_env_missing:
  "\<not> set (env_refs j) \<subseteq> dom env \<Longrightarrow>
     \<exists>v q. v \<in> set (env_refs j) \<and> env v = None \<and>
       expand_env_vars_in_json env path j = Err (missing_env_message v q)"
  "\<not> set (env_refs_items js) \<subseteq> dom env \<Longrightarrow>
     \<exists>v q. v \<in> set (env_refs_items js) \<and> env v = None \<and>
       expand_items env path n js = Err (missing_env_message v q)"
  "\<not> set (env_refs_entries m) \<subseteq> dom env \<Longrightarrow>
     \<exists>v q. v \<in> set (env_refs_entries m) \<and> env v = None \<and>
       expand_entries env path m = Err (missing_env_message v q)"
proof (induction env path j and env path n js and env path m
    rule: expand_env_vars_in_json_expand_items_expand_entries.induct)
  case (1 env path s)
  then show ?case
    by (auto simp: expand_string_placeholder split: option.splits)
next
  case (6 env path idx v vs)
  show ?case
  proof (cases "set (env_refs v) \<subseteq> dom env")
    case True
    then show ?thesis
      using "6" expand_env_defined(1) [OF True] by fastforce
  next
    case False
    then show ?thesis
      using "6"(1) by fastforce
  qed
next
  case (8 env path k v m)
  show ?case
  proof (cases "set (env_refs v) \<subseteq> dom env")
    case True
    then show ?thesis
      using "8" expand_env_defined(1) [OF True] by fastforce
  next
    case False
    then show ?thesis
      using "8"(1) by fastforce
  qed
qed (simp_all, force+)

section \<open>Aliases and documents\<close>

lemma apply_legacy_aliases_fields:
  "http_threads (apply_legacy_aliases c) =
     (if http_threads c = None then legacy_http_threads c else http_threads c)"
  "pool_size_per_thread (apply_legacy_aliases c) =
     (if pool_size_per_thread c = None then legacy_pool_size_per_thread c
      else pool_size_per_thread c)"
  "legacy_http_threads (apply_legacy_aliases c) = None"
  "legacy_pool_size_per_thread (apply_legacy_aliases c) = None"
  by (auto simp: apply_legacy_aliases_def Let_def)

lemma btree_ok_fill: "btree_ok m \<Longrightarrow> btree_ok (fill_map m kvs)"
  unfolding fill_map_def by (rule btree.store_ok_fill)

lemma map_of_fill: "btree_ok m \<Longrightarrow> map_of (fill_map m kvs) = map_of m ++ map_of (rev kvs)"
  unfolding fill_map_def by (rule btree.lookup_fill)

lemma map_of_rev_distinct: "distinct (map fst m) \<Longrightarrow> map_of (rev m) = map_of m"
proof (induction m)
  case (Cons kv m)
  then have "map_of m (fst kv) = None"
    by (simp add: map_of_eq_None_iff)
  with Cons show ?case
    by (auto simp: fun_eq_iff map_add_def split: option.splits)
qed simp

lemma place_keys_split:
  assumes "place_keys ks ordered remaining = (o', r')" and "btree_ok ordered" and "btree_ok remaining"
  shows "btree_ok o' \<and> btree_ok r' \<and> map_of o' ++ map_of r' = map_of ordered ++ map_of remaining"
  using assms
proof (induction ks arbitrary: ordered remaining)
  case (Cons k ks)
  show ?case
  proof (cases "map_of remaining k")
    case None
    with Cons show ?thesis by simp
  next
    case (Some v)
    let ?o = "btree_insert k v ordered" and ?r = "btree_remove k remaining"
    have "map_of ?o ++ map_of ?r = map_of ordered ++ map_of remaining"
      using Some by (auto simp: map_of_btree_insert map_of_btree_remove fun_eq_iff map_add_def
          split: option.splits)
    then show ?thesis
      using Cons.IH [of ?o ?r] Cons.prems Some by (simp add: wf_intros)
  qed
qed simp

text \<open>
  The generated document is the given map with its schema reference and without its null entries:
  the key order passed in has no effect on a map that keeps its keys sorted.
\<close>

lemma fill_map_same:
  assumes "btree_ok m"
  shows "fill_map [] m = m"
proof (rule btree_unique)
  show "map_of (fill_map [] m) = map_of m"
    using map_of_fill [of "[]" m] assms by (simp add: map_of_rev_distinct btree_ok_distinct)
qed (auto intro: btree_ok_fill assms)

lemma btree_ok_filter [wf_intros]: "btree_ok m \<Longrightarrow> btree_ok (filter P m)"
  by (induction m) (auto simp: btree_ok_def)

lemma decorate_config_map_eq:
  assumes "btree_ok m"
  shows "decorate_config_map m schema_ref key_order =
    filter (\<lambda>(_, v). v \<noteq> JNull) (btree_insert ''$schema'' (JString schema_ref) m)"
proof -
  let ?kept = "filter (\<lambda>(_, v). v \<noteq> JNull) (btree_insert ''$schema'' (JString schema_ref) m)"
  have ok: "btree_ok ?kept"
    by (intro wf_intros assms)
  obtain o' r' where placed: "place_keys key_order [] ?kept = (o', r')"
    by fastforce
  have split: "btree_ok o'" "btree_ok r'" "map_of o' ++ map_of r' = map_of ?kept"
    using place_keys_split [OF placed _ ok] by simp_all
  have "fill_map o' r' = ?kept"
  proof (rule btree_unique)
    show "map_of (fill_map o' r') = map_of ?kept"
      using split map_of_rev_distinct [OF btree_ok_distinct, of r'] by (simp add: map_of_fill)
  qed (use split ok in \<open>auto intro: btree_ok_fill\<close>)
  then show ?thesis
    by (simp add: decorate_config_map_def Let_def fill_map_same ok placed)
qed

section \<open>What loading guarantees\<close>

text \<open>C27. Expansion replaces every placeholder of a document by its variable when all of them are set, and otherwise
  fails with a message that names one that is not.\<close>

theorem env_expansion:
  "(set (env_refs j) \<subseteq> dom env \<longrightarrow> expand_env_vars_in_json env [] j = Ok (env_subst env j)) \<and>
   (\<not> set (env_refs j) \<subseteq> dom env \<longrightarrow>
      (\<exists>v q. v \<in> set (env_refs j) \<and> env v = None \<and>
         expand_env_vars_in_json env [] j = Err (missing_env_message v q)))"
  using expand_env_defined(1) [of j env "[]"] expand_env_missing(1) [of j env "[]"] by simp

theorem env_expansion_witness:
  "\<exists>v q. v \<in> set (env_refs (JObject [(''redis_host'', JString ''$HOST'')])) \<and>
    expand_env_vars_in_json Map.empty [] (JObject [(''redis_host'', JString ''$HOST'')]) =
      Err (missing_env_message v q)"
proof -
  have "\<not> set (env_refs (JObject [(''redis_host'', JString ''$HOST'')])) \<subseteq> dom (Map.empty :: str \<rightharpoonup> str)"
    by (simp add: placeholder_def is_valid_env_var_name_def is_ascii_uppercase_def)
  with env_expansion [of "JObject [(''redis_host'', JString ''$HOST'')]" Map.empty] show ?thesis
    by blast
qed

text \<open>A generated document is the given map with the schema reference and without null entries, in the order of its
  keys; the key order the code passes has no effect.\<close>

theorem document_key_order_ignored:
  assumes "btree_ok m"
  shows "decorate_config_map m schema_ref key_order =
      filter (\<lambda>(_, v). v \<noteq> JNull) (btree_insert ''$schema'' (JString schema_ref) m) \<and>
    sorted_wrt (<) (map fst (decorate_config_map m schema_ref key_order))"
proof -
  have "btree_ok (filter (\<lambda>(_, v). v \<noteq> JNull) (btree_insert ''$schema'' (JString schema_ref) m))"
    by (intro wf_intros assms)
  then show ?thesis
    unfolding decorate_config_map_eq [OF assms] by (simp add: btree_ok_def)
qed

theorem document_key_order_ignored_witness:
  "decorate_config_map [(''a'', JNull), (''b'', JNumber 1)] ''s'' [''b''] =
    filter (\<lambda>(_, v). v \<noteq> JNull) (btree_insert ''$schema'' (JString ''s'') [(''a'', JNull), (''b'', JNumber 1)])"
  using document_key_order_ignored [of "[(''a'', JNull), (''b'', JNumber 1)]" "''s''" "[''b'']"]
  by (simp add: btree_ok_def)

end
