(* ===== verification/Acl.thy ===== *)
theory Acl
  imports Config Utf8
begin

text \<open>
  \<^verbatim>\<open>crates/redis-web-core/src/acl.rs\<close>: access rules by client address and HTTP basic credentials. The
  loop over the rules is a fold; its specification is the verdict of the last rule that says
  anything about the command.
\<close>

record acl_rule =
  ip_subnet :: "ipnet option"
  basic_auth :: "str option"
  rule_enabled :: "str list"
  rule_disabled :: "str list"

definition or_default :: "'a list option \<Rightarrow> 'a list" where
  "or_default v = (case v of Some xs \<Rightarrow> xs | None \<Rightarrow> [])"

definition rule_of_config :: "externals \<Rightarrow> acl_config \<Rightarrow> acl_rule" where
  "rule_of_config X c =
     \<lparr>ip_subnet = (case acl_ip c of None \<Rightarrow> None | Some ip \<Rightarrow> parse_ipnet X ip),
      basic_auth = http_basic_auth c,
      rule_enabled = or_default (acl_enabled c),
      rule_disabled = or_default (acl_disabled c)\<rparr>"

definition acl_new :: "externals \<Rightarrow> acl_config list option \<Rightarrow> acl_rule list" where
  "acl_new X config =
     (case config of None \<Rightarrow> [] | Some configs \<Rightarrow> map (rule_of_config X) configs)"

text \<open>The credentials an \<^verbatim>\<open>Authorization\<close> header carries, if it is well formed.\<close>

definition basic_credentials :: "externals \<Rightarrow> str option \<Rightarrow> str option" where
  "basic_credentials X auth_header =
     (case auth_header of
        None \<Rightarrow> None
      | Some auth_val \<Rightarrow>
          (case strip_prefix ''Basic '' auth_val of
             None \<Rightarrow> None
           | Some stripped \<Rightarrow>
               (case base64_decode X stripped of
                  None \<Rightarrow> None
                | Some decoded \<Rightarrow> if utf8_valid decoded then Some decoded else None)))"

definition rule_matches :: "externals \<Rightarrow> ip_addr \<Rightarrow> str option \<Rightarrow> acl_rule \<Rightarrow> bool" where
  "rule_matches X ip auth_header rule =
     (let by_ip = (case ip_subnet rule of Some subnet \<Rightarrow> subnet ip | None \<Rightarrow> True)
      in case basic_auth rule of
           None \<Rightarrow> by_ip
         | Some required \<Rightarrow> basic_credentials X auth_header = Some required)"

definition names_command :: "str \<Rightarrow> str \<Rightarrow> bool" where
  "names_command cmd entry \<longleftrightarrow> entry = ''*'' \<or> eq_ignore_ascii_case entry cmd"

definition apply_rule ::
  "externals \<Rightarrow> ip_addr \<Rightarrow> str \<Rightarrow> str option \<Rightarrow> bool \<Rightarrow> acl_rule \<Rightarrow> bool" where
  "apply_rule X ip cmd auth_header allowed rule =
     (if rule_matches X ip auth_header rule then
        let allowed1 = foldl (\<lambda>a d. if names_command cmd d then False else a) allowed (rule_disabled rule)
        in foldl (\<lambda>a e. if names_command cmd e then True else a) allowed1 (rule_enabled rule)
      else allowed)"

definition acl_check :: "externals \<Rightarrow> acl_rule list \<Rightarrow> ip_addr \<Rightarrow> str \<Rightarrow> str option \<Rightarrow> bool" where
  "acl_check X rules ip cmd auth_header =
     (if rules = [] then True else foldl (apply_rule X ip cmd auth_header) True rules)"

definition check_auth :: "externals \<Rightarrow> acl_rule list \<Rightarrow> auth_context \<Rightarrow> str \<Rightarrow> bool" where
  "check_auth X rules auth cmd = acl_check X rules (client_ip auth) cmd (authorization auth)"

section \<open>The verdict of the last rule that applies\<close>

definition lists_command :: "str \<Rightarrow> str list \<Rightarrow> bool" where
  "lists_command cmd entries \<longleftrightarrow> list_ex (names_command cmd) entries"

definition verdict ::
  "externals \<Rightarrow> ip_addr \<Rightarrow> str \<Rightarrow> str option \<Rightarrow> acl_rule \<Rightarrow> bool option" where
  "verdict X ip cmd auth_header rule =
     (if \<not> rule_matches X ip auth_header rule then None
      else if lists_command cmd (rule_enabled rule) then Some True
      else if lists_command cmd (rule_disabled rule) then Some False
      else None)"

lemma fold_flag:
  "foldl (\<lambda>a d. if P d then b else a) a ds = (if list_ex P ds then b else a)"
  by (induction ds arbitrary: a) auto

lemma apply_rule_verdict:
  "apply_rule X ip cmd auth_header allowed rule =
     (case verdict X ip cmd auth_header rule of Some b \<Rightarrow> b | None \<Rightarrow> allowed)"
  by (simp add: apply_rule_def verdict_def lists_command_def fold_flag Let_def)

lemma fold_verdicts:
  "foldl (apply_rule X ip cmd auth_header) allowed rules =
     last (allowed # List.map_filter (verdict X ip cmd auth_header) rules)"
  by (induction rules arbitrary: allowed)
    (auto simp: apply_rule_verdict List.map_filter_def split: option.splits)

lemma acl_check_last_verdict:
  "acl_check X rules ip cmd auth_header =
     last (True # List.map_filter (verdict X ip cmd auth_header) rules)"
  by (simp add: acl_check_def fold_verdicts List.map_filter_def)

lemma names_command_case:
  "to_ascii_lowercase c = to_ascii_lowercase d \<Longrightarrow> names_command c = names_command d"
  by (auto simp: names_command_def eq_ignore_ascii_case_def to_ascii_lowercase_def fun_eq_iff)

lemma verdict_case:
  "to_ascii_lowercase c = to_ascii_lowercase d \<Longrightarrow> verdict X ip c auth_header = verdict X ip d auth_header"
  by (simp add: fun_eq_iff verdict_def lists_command_def names_command_case [of c d])

lemma acl_check_case:
  "to_ascii_lowercase c = to_ascii_lowercase d \<Longrightarrow>
     acl_check X rules ip c auth_header = acl_check X rules ip d auth_header"
  by (simp only: acl_check_last_verdict verdict_case [of c d])

text \<open>Rules that ask for credentials say nothing to a client that sends none that decode.\<close>

lemma verdict_without_credentials:
  "basic_credentials X auth_header = None \<Longrightarrow> basic_auth rule \<noteq> None \<Longrightarrow>
     verdict X ip cmd auth_header rule = None"
  by (auto simp: verdict_def rule_matches_def Let_def)

lemma verdicts_without_credentials:
  assumes "basic_credentials X auth_header = None"
  shows "List.map_filter (verdict X ip cmd auth_header) rules =
    List.map_filter (verdict X ip cmd auth_header) (filter (\<lambda>r. basic_auth r = None) rules)"
  by (induction rules) (auto simp: List.map_filter_def verdict_without_credentials assms)

section \<open>What the rules guarantee\<close>

text \<open>C5. The decision is the verdict of the last rule that matches the client and lists the command, enabling before
  disabling within a rule; with none the command is allowed.\<close>

theorem acl_last_rule_wins:
  "acl_check X rules ip cmd auth_header =
     last (True # List.map_filter (verdict X ip cmd auth_header) rules)"
  by (rule acl_check_last_verdict)

end
