(* ===== verification/Handler.thy ===== *)
theory Handler
  imports Request Acl
begin

text \<open>
  \<^verbatim>\<open>crates/redis-web-runtime/src/handler.rs\<close>: one HTTP request from its URI, query, headers and body
  to its response. The parser and the executor are the trait objects of the application state, so
  they are fields of it; the executor's backend is threaded through.
\<close>

section \<open>Data\<close>

record 'b app_state =
  app_default_database :: u8
  request_parser :: "parse_request_input \<Rightarrow> (parsed_request, request_parse_error) result"
  command_executor :: "'b executor"
  app_acl :: "acl_rule list"

text \<open>An HTTP request as axum hands it to a handler: header names are in lower case.\<close>

record http_request =
  uri_path :: str
  query_params :: params
  request_headers :: "str \<rightharpoonup> bytes"
  request_body :: bytes
  client_addr :: ip_addr

section \<open>Redis replies\<close>

fun redis_value_to_json :: "redis_value \<Rightarrow> json" where
  "redis_value_to_json NilV = JNull"
| "redis_value_to_json (IntV i) = JNumber (sint i)"
| "redis_value_to_json (BulkString bs) = JString (from_utf8_lossy bs)"
| "redis_value_to_json (Array items) = JArray (map redis_value_to_json items)"
| "redis_value_to_json (SimpleString s) = JString s"
| "redis_value_to_json Okay = JString ''OK''"
| "redis_value_to_json (Resp3 dbg) = JNull"

fun redis_value_to_bytes :: "redis_value \<Rightarrow> bytes option" where
  "redis_value_to_bytes NilV = Some []"
| "redis_value_to_bytes (IntV i) = Some (dec_int (sint i))"
| "redis_value_to_bytes (BulkString bs) = Some bs"
| "redis_value_to_bytes (SimpleString s) = Some s"
| "redis_value_to_bytes Okay = Some ''OK''"
| "redis_value_to_bytes _ = None"

definition info_line :: "(str \<times> json) list \<Rightarrow> str \<Rightarrow> (str \<times> json) list" where
  "info_line m raw_line =
     (let line = trim raw_line in
      if line = [] \<or> hd line = CHR ''#'' then m
      else case split_once (CHR '':'') line of
          Some (key, v) \<Rightarrow> btree_insert (trim key) (JString (trim v)) m
        | None \<Rightarrow> m)"

definition parse_info_output :: "str \<Rightarrow> json" where
  "parse_info_output text = JObject (foldl info_line [] (lines text))"

definition request_parse_error_message :: "request_parse_error \<Rightarrow> str" where
  "request_parse_error_message e =
     (case e of
        EmptyCommand \<Rightarrow> ''Empty command''
      | InvalidDatabaseIndex \<Rightarrow>
          ''Invalid database index in path. Expected 0-255 for /<db>/<COMMAND>/...''
      | MissingCommandAfterDatabasePrefix \<Rightarrow> ''Missing command after database prefix''
      | InvalidCommand message \<Rightarrow> message)"

definition error_object :: "str \<Rightarrow> json" where
  "error_object msg = JObject [(''error'', JString msg)]"

section \<open>Rendering a result\<close>

text \<open>The tag is the quoted hash of everything that was fed to the hasher.\<close>

definition etag_of :: "externals \<Rightarrow> bytes \<Rightarrow> str" where
  "etag_of X hashed = [CHR 0x22] @ sha1_hex X hashed @ [CHR 0x22]"

definition not_modified :: "externals \<Rightarrow> str \<Rightarrow> response outcome" where
  "not_modified X tag =
     bind_outcome (insert_parsed X ''etag'' tag (bare_response 304))
       (\<lambda>r. Return (set_header ''access-control-allow-origin'' ''*'' r))"

text \<open>
  A rendering ends the request early (\<^term>\<open>Err\<close>) or yields a response that still gets its common
  headers. \<open>with_etag\<close> is the tag computation that both cacheable formats share.
\<close>

definition with_etag ::
  "externals \<Rightarrow> bool \<Rightarrow> bytes \<Rightarrow> str option \<Rightarrow> response \<Rightarrow> (response, response) result outcome" where
  "with_etag X enabled hashed if_none_match resp =
     (if \<not> enabled then Return (Ok resp)
      else let tag = etag_of X hashed in
        if if_none_match = Some tag
        then bind_outcome (not_modified X tag) (\<lambda>r. Return (Err r))
        else bind_outcome (insert_parsed X ''etag'' tag resp) (\<lambda>r. Return (Ok r)))"

definition command_bytes :: "executable_command \<Rightarrow> bytes" where
  "command_bytes cmd = command_name cmd @ concat (command_args cmd)"

definition is_info_command :: "executable_command \<Rightarrow> bool" where
  "is_info_command cmd \<longleftrightarrow>
     eq_ignore_ascii_case (command_name cmd) ''INFO'' \<or>
     eq_ignore_ascii_case (command_name cmd) ''CLUSTER'' \<and>
       (case command_args cmd of a # _ \<Rightarrow> eq_ignore_ascii_case a ''INFO'' | [] \<Rightarrow> False)"

definition json_payload :: "executable_command \<Rightarrow> redis_value \<Rightarrow> json" where
  "json_payload cmd v =
     (case redis_value_to_json v of
        JString s \<Rightarrow> if is_info_command cmd then parse_info_output s else JString s
      | j \<Rightarrow> j)"

definition render_value ::
  "externals \<Rightarrow> parsed_request \<Rightarrow> str option \<Rightarrow> redis_value \<Rightarrow> (response, response) result outcome"
where
  "render_value X p if_none_match v =
     (case output_fmt p of
        Raw \<Rightarrow> Return (Ok (typed_response 200 ''text/plain'' (value_to_resp v)))
      | Text \<Rightarrow>
          (case redis_value_to_bytes v of
             None \<Rightarrow>
               Return (Err (json_value_response X 500
                 (error_object ''Text output supports only string/binary Redis replies'') None))
           | Some b \<Rightarrow>
               with_etag X (etag_enabled p) (command_bytes (command p) @ b) if_none_match
                 (plain_response 200 b))
      | Json \<Rightarrow>
          let j = json_payload (command p) v;
              cb = (case jsonp_callback p of Some cb \<Rightarrow> cb | None \<Rightarrow> [])
          in with_etag X (etag_enabled p) (command_bytes (command p) @ cb @ json_to_string X j)
               if_none_match (format_response X Json (command_name (command p)) j (jsonp_callback p)))"

definition error_status :: "command_execution_error \<Rightarrow> nat" where
  "error_status e = (case e of ServiceUnavailable _ \<Rightarrow> 503 | ExecutionFailed _ \<Rightarrow> 500)"

definition render_error :: "externals \<Rightarrow> parsed_request \<Rightarrow> command_execution_error \<Rightarrow> response" where
  "render_error X p e =
     (case output_fmt p of
        Raw \<Rightarrow> typed_response 200 ''text/plain'' (''-ERR '' @ error_text e @ crlf)
      | Text \<Rightarrow> typed_response (error_status e) ''text/plain'' (error_text e)
      | Json \<Rightarrow>
          json_value_response X (error_status e) (error_object (error_text e)) (jsonp_callback p))"

definition finish_response :: "externals \<Rightarrow> parsed_request \<Rightarrow> response \<Rightarrow> response outcome" where
  "finish_response X p resp =
     (let r = set_header ''access-control-allow-origin'' ''*'' resp in
      case content_type_override p of
        Some ct \<Rightarrow> insert_parsed X ''content-type'' ct r
      | None \<Rightarrow>
          if jsonp_callback p = None \<and> headers r ''content-type'' = None then
            (case extension_content_type p of
               Some ct \<Rightarrow> insert_parsed X ''content-type'' ct r
             | None \<Rightarrow> Return r)
          else Return r)"

section \<open>Handling a request\<close>

definition header_text :: "externals \<Rightarrow> (str \<rightharpoonup> bytes) \<Rightarrow> str \<Rightarrow> str option" where
  "header_text X hs name = (case hs name of None \<Rightarrow> None | Some v \<Rightarrow> header_to_str X v)"

definition process_request ::
  "externals \<Rightarrow> 'b app_state \<Rightarrow> 'b \<Rightarrow> str \<Rightarrow> params \<Rightarrow> bytes option \<Rightarrow> ip_addr \<Rightarrow> str option \<Rightarrow>
   (str \<rightharpoonup> bytes) \<Rightarrow> 'b \<times> response outcome" where
  "process_request X st b cmd_path ps body addr auth_header hs =
     (case request_parser st
             \<lparr>command_path = cmd_path, params_in = ps, default_database_in = app_default_database st,
              body_in = body, etag_enabled_in = (body = None)\<rparr> of
        Err e \<Rightarrow>
          (b, Return (json_value_response X 400 (error_object (request_parse_error_message e))
                (select_jsonp_callback ps)))
      | Ok p \<Rightarrow>
          if \<not> check_auth X (app_acl st) \<lparr>client_ip = addr, authorization = auth_header\<rparr>
                 (command_name (command p))
          then (b, Return (json_value_response X 403 (error_object ''Forbidden'') (jsonp_callback p)))
          else (case command_executor st b (command p) of
              (b', Ok v) \<Rightarrow>
                (b', bind_outcome (render_value X p (header_text X hs ''if-none-match'') v)
                       (\<lambda>res. case res of Err early \<Rightarrow> Return early | Ok r \<Rightarrow> finish_response X p r))
            | (b', Err e) \<Rightarrow> (b', finish_response X p (render_error X p e))))"

definition handle_with_body ::
  "externals \<Rightarrow> 'b app_state \<Rightarrow> 'b \<Rightarrow> http_request \<Rightarrow> bytes option \<Rightarrow> 'b \<times> response outcome" where
  "handle_with_body X st b req body =
     process_request X st b (trim_start_matches (CHR ''/'') (uri_path req)) (query_params req) body
       (client_addr req) (header_text X (request_headers req) ''authorization'') (request_headers req)"

definition handle_get :: "externals \<Rightarrow> 'b app_state \<Rightarrow> 'b \<Rightarrow> http_request \<Rightarrow> 'b \<times> response outcome" where
  "handle_get X st b req = handle_with_body X st b req None"

definition handle_post :: "externals \<Rightarrow> 'b app_state \<Rightarrow> 'b \<Rightarrow> http_request \<Rightarrow> 'b \<times> response outcome" where
  "handle_post X st b req = handle_with_body X st b req (Some (request_body req))"

definition handle_put :: "externals \<Rightarrow> 'b app_state \<Rightarrow> 'b \<Rightarrow> http_request \<Rightarrow> 'b \<times> response outcome" where
  "handle_put X st b req = handle_with_body X st b req (Some (request_body req))"

definition handle_default_root ::
  "externals \<Rightarrow> 'b app_state \<Rightarrow> 'b \<Rightarrow> http_request \<Rightarrow> str \<Rightarrow> 'b \<times> response outcome" where
  "handle_default_root X st b req root =
     process_request X st b root (query_params req) None (client_addr req)
       (header_text X (request_headers req) ''authorization'') (request_headers req)"

definition handle_options :: response where
  "handle_options =
     \<lparr>status = 200,
      headers = [''access-control-allow-origin'' \<mapsto> ''*'',
        ''access-control-allow-methods'' \<mapsto> ''GET, POST, PUT, OPTIONS'',
        ''access-control-allow-headers'' \<mapsto> ''*''],
      content = []\<rparr>"

section \<open>What a request does\<close>

text \<open>The input the parser is given, and whether a request gets past parsing and the ACL.\<close>

definition parse_input :: "'b app_state \<Rightarrow> str \<Rightarrow> params \<Rightarrow> bytes option \<Rightarrow> parse_request_input" where
  "parse_input st cmd_path ps body =
     \<lparr>command_path = cmd_path, params_in = ps, default_database_in = app_default_database st,
      body_in = body, etag_enabled_in = (body = None)\<rparr>"

definition admitted ::
  "externals \<Rightarrow> 'b app_state \<Rightarrow> str \<Rightarrow> params \<Rightarrow> bytes option \<Rightarrow> ip_addr \<Rightarrow> str option \<Rightarrow>
   parsed_request \<Rightarrow> bool" where
  "admitted X st cmd_path ps body addr auth_header p \<longleftrightarrow>
     request_parser st (parse_input st cmd_path ps body) = Ok p \<and>
     acl_check X (app_acl st) addr (command_name (command p)) auth_header"

definition deliver ::
  "externals \<Rightarrow> parsed_request \<Rightarrow> str option \<Rightarrow> (redis_value, command_execution_error) result \<Rightarrow>
   response outcome" where
  "deliver X p if_none_match res =
     (case res of
        Ok v \<Rightarrow>
          bind_outcome (render_value X p if_none_match v)
            (\<lambda>r. case r of Err early \<Rightarrow> Return early | Ok r \<Rightarrow> finish_response X p r)
      | Err e \<Rightarrow> finish_response X p (render_error X p e))"

lemma process_request_admitted:
  assumes "admitted X st cmd_path ps body addr auth_header p"
    and "command_executor st b (command p) = (b', res)"
  shows "process_request X st b cmd_path ps body addr auth_header hs =
    (b', deliver X p (header_text X hs ''if-none-match'') res)"
  using assms
  by (auto simp: process_request_def admitted_def parse_input_def check_auth_def deliver_def
      split: sum.splits)

lemma process_request_refused:
  assumes "\<nexists>p. admitted X st cmd_path ps body addr auth_header p"
  shows "\<exists>st' msg cb. st' \<in> {400, 403} \<and>
    process_request X st b cmd_path ps body addr auth_header hs =
      (b, Return (json_value_response X st' (error_object msg) cb))"
  using assms
  by (auto simp: process_request_def admitted_def parse_input_def check_auth_def split: sum.splits)

section \<open>Panics, cross-origin headers and conditional requests\<close>

text \<open>
  Documented behaviour of the http and sha1 crates: printable ASCII is a valid header value, and a
  hash prints as hexadecimal digits.
\<close>

definition printable :: "str \<Rightarrow> bool" where
  "printable s \<longleftrightarrow> list_all (\<lambda>c. 32 \<le> bv c \<and> bv c < 127) s"

definition header_law :: "externals \<Rightarrow> bool" where
  "header_law X \<longleftrightarrow> (\<forall>s. printable s \<longrightarrow> header_ok X s)"

definition sha1_law :: "externals \<Rightarrow> bool" where
  "sha1_law X \<longleftrightarrow>
     (\<forall>b. list_all (\<lambda>c. is_ascii_digit c \<or> is_ascii_lowercase c) (sha1_hex X b))"

lemma etag_header_ok:
  assumes "header_law X" and "sha1_law X"
  shows "header_ok X (etag_of X b)"
proof -
  have "list_all (\<lambda>c. is_ascii_digit c \<or> is_ascii_lowercase c) (sha1_hex X b)"
    using assms(2) by (simp add: sha1_law_def)
  then have "printable (etag_of X b)"
    by (auto simp: printable_def etag_of_def list_all_iff is_ascii_digit_def is_ascii_lowercase_def)
  with assms(1) show ?thesis
    by (simp add: header_law_def)
qed

lemma content_type_printable: "content_type_for_extension e = Some ct \<Longrightarrow> printable ct"
  unfolding content_type_for_extension_def printable_def
  by (simp split: if_splits; hypsubst; simp)

text \<open>With an acceptable tag the rendering never panics.\<close>

lemma with_etag_eq:
  assumes "header_law X" and "sha1_law X"
  shows "with_etag X enabled hashed inm resp =
    Return (if \<not> enabled then Ok resp
      else if inm = Some (etag_of X hashed)
      then Err (set_header ''access-control-allow-origin'' ''*''
        (set_header ''etag'' (etag_of X hashed) (bare_response 304)))
      else Ok (set_header ''etag'' (etag_of X hashed) resp))"
  using etag_header_ok [OF assms]
  by (simp add: with_etag_def not_modified_def insert_parsed_def Let_def)

lemma render_value_Return:
  assumes "header_law X" and "sha1_law X"
  shows "\<exists>r. render_value X p inm v = Return r"
  using assms
  by (auto simp: render_value_def with_etag_eq Let_def split: output_format.splits option.splits)

text \<open>A rendering that ends the request: a matching tag, or a reply that has no text form.\<close>

definition hashed_bytes :: "externals \<Rightarrow> parsed_request \<Rightarrow> redis_value \<Rightarrow> bytes" where
  "hashed_bytes X p v =
     command_bytes (command p) @
     (if output_fmt p = Text then the (redis_value_to_bytes v)
      else (case jsonp_callback p of Some cb \<Rightarrow> cb | None \<Rightarrow> []) @
        json_to_string X (json_payload (command p) v))"

definition tagged :: "parsed_request \<Rightarrow> redis_value \<Rightarrow> bool" where
  "tagged p v \<longleftrightarrow>
     etag_enabled p \<and> (output_fmt p = Json \<or> output_fmt p = Text \<and> redis_value_to_bytes v \<noteq> None)"

definition no_text_form :: "parsed_request \<Rightarrow> redis_value \<Rightarrow> bool" where
  "no_text_form p v \<longleftrightarrow> output_fmt p = Text \<and> redis_value_to_bytes v = None"

definition fresh_response :: "externals \<Rightarrow> parsed_request \<Rightarrow> redis_value \<Rightarrow> response" where
  "fresh_response X p v =
     (case output_fmt p of
        Raw \<Rightarrow> typed_response 200 ''text/plain'' (value_to_resp v)
      | Text \<Rightarrow> plain_response 200 (the (redis_value_to_bytes v))
      | Json \<Rightarrow>
          json_value_response X 200
            (JObject [(command_name (command p), json_payload (command p) v)]) (jsonp_callback p))"

lemma render_value_eq:
  assumes "header_law X" and "sha1_law X"
  shows "render_value X p inm v = Return (
    let tag = etag_of X (hashed_bytes X p v) in
    if no_text_form p v then
      Err (json_value_response X 500
        (error_object ''Text output supports only string/binary Redis replies'') None)
    else if \<not> tagged p v then Ok (fresh_response X p v)
    else if inm = Some tag then
      Err (set_header ''access-control-allow-origin'' ''*'' (set_header ''etag'' tag (bare_response 304)))
    else Ok (set_header ''etag'' tag (fresh_response X p v)))"
  using assms
  by (cases "output_fmt p")
    (auto simp: render_value_def with_etag_eq no_text_form_def tagged_def fresh_response_def
      hashed_bytes_def Let_def split: option.splits)

lemma fresh_response_headers:
  "k \<noteq> ''content-type'' \<Longrightarrow> headers (fresh_response X p v) k = None"
  by (auto simp: fresh_response_def json_value_response_def split: output_format.splits option.splits)

lemma render_error_headers:
  "k \<noteq> ''content-type'' \<Longrightarrow> headers (render_error X p e) k = None"
  by (auto simp: render_error_def json_value_response_def split: output_format.splits option.splits)

lemma finish_response_Return:
  assumes "finish_response X p r = Return r'"
  shows "status r' = status r" and "content r' = content r"
    and "headers r' ''access-control-allow-origin'' = Some ''*''"
    and "k \<noteq> ''content-type'' \<Longrightarrow> k \<noteq> ''access-control-allow-origin'' \<Longrightarrow> headers r' k = headers r k"
  using assms
  by (auto simp: finish_response_def insert_parsed_def Let_def split: option.splits if_splits)

lemma parse_http_request_extension:
  assumes "parse_http_request i = Ok p" and "extension_content_type p = Some ct"
  shows "printable ct"
proof -
  obtain e where "content_type_for_extension e = Some ct"
    using assms by (auto simp: parse_http_request_def Let_def split: sum.splits prod.splits option.splits
        if_splits)
  then show ?thesis
    by (rule content_type_printable)
qed

lemma finish_response_Panic:
  assumes "header_law X" and "\<And>ct. extension_content_type p = Some ct \<Longrightarrow> printable ct"
  shows "finish_response X p r = Panic \<longleftrightarrow>
    (\<exists>ct. content_type_override p = Some ct \<and> \<not> header_ok X ct)"
  using assms
  by (auto simp: finish_response_def insert_parsed_def header_law_def Let_def
      split: option.splits if_splits)

section \<open>Requests end to end\<close>

lemma trim_command_path:
  "trim_start_matches (CHR ''/'') (CHR ''/'' # command_path_of db cmd as @ r) = command_path_of db cmd as @ r"
proof -
  obtain d ds where d: "dec (unat db) = d # ds" "is_ascii_digit d"
    using dec_hd by blast
  then obtain rest where "command_path_of db cmd as = d # rest"
    by (auto simp: command_path_of_def)
  moreover have "d \<noteq> CHR ''/''"
    using d(2) by (auto simp: is_ascii_digit_def)
  ultimately show ?thesis
    by (simp add: trim_start_matches_def)
qed

lemma handle_get_encoded:
  assumes "request_parser st = parse_http_request"
    and "uri_path req = CHR ''/'' # command_path_of db cmd as"
    and "cmd \<noteq> []" and "utf8_valid cmd" and "\<forall>a \<in> set as. utf8_valid a"
    and "query_params req = Map.empty" and "request_headers req ''if-none-match'' = None"
    and "acl_check X (app_acl st) (client_addr req) cmd
      (header_text X (request_headers req) ''authorization'')"
    and "command_executor st b \<lparr>target_database = db, command_name = cmd, command_args = as\<rparr> = (b', Ok v)"
    and "header_law X" and "sha1_law X"
  shows "\<exists>r. handle_get X st b req = (b', Return r) \<and> status r = 200 \<and>
    content r = json_to_string X (JObject [(cmd,
      json_payload \<lparr>target_database = db, command_name = cmd, command_args = as\<rparr> v)]) \<and>
    headers r ''content-type'' = Some ''application/json'' \<and>
    headers r ''etag'' \<noteq> None \<and> headers r ''access-control-allow-origin'' = Some ''*''"
proof -
  let ?i = "parse_input st (command_path_of db cmd as) Map.empty None"
  have trim: "trim_start_matches (CHR ''/'') (uri_path req) = command_path_of db cmd as"
    using trim_command_path [of db cmd as "[]"] assms(2) by simp
  let ?p = "\<lparr>command = \<lparr>target_database = db, command_name = cmd, command_args = as\<rparr>,
      output_fmt = Json, jsonp_callback = None, content_type_override = None,
      extension_content_type = None, etag_enabled = True\<rparr>"
  have "parse_http_request ?i = Ok ?p"
    using parse_encoded_path [of ?i db cmd as] assms(3-5)
    by (simp add: parse_input_def body_args_def select_jsonp_callback_def nonempty_param_def)
  then have adm: "admitted X st (command_path_of db cmd as) Map.empty None (client_addr req)
      (header_text X (request_headers req) ''authorization'') ?p"
    using assms(1,8) by (simp add: admitted_def)
  have "handle_get X st b req = (b', deliver X ?p None (Ok v))"
    unfolding handle_get_def handle_with_body_def trim assms(6)
    using process_request_admitted [OF adm, of b b' "Ok v"] assms(7,9) by (simp add: header_text_def)
  then show ?thesis
    by (simp add: deliver_def render_value_eq assms(10,11) no_text_form_def tagged_def
        finish_response_def fresh_response_def json_value_response_def Let_def)
qed

section \<open>A sample state\<close>

text \<open>An executor that counts commands and always has the same reply, and requests for one key.\<close>

definition sample_app :: "nat app_state" where
  "sample_app =
     \<lparr>app_default_database = 0, request_parser = parse_http_request,
      command_executor = (\<lambda>b cmd. (Suc b, Ok (BulkString ''v''))), app_acl = []\<rparr>"

definition sample_path :: str where
  "sample_path = command_path_of 0 ''GET'' [''a'']"

definition sample_request :: http_request where
  "sample_request =
     \<lparr>uri_path = CHR ''/'' # sample_path, query_params = Map.empty, request_headers = Map.empty,
      request_body = [], client_addr = V4 1\<rparr>"

lemma sample_laws: "header_law sample_externals" "sha1_law sample_externals"
  by (simp_all add: header_law_def sha1_law_def sample_externals_def printable_def ascii_defs)

lemma sample_utf8: "utf8_valid ''GET''" "utf8_valid ''a''"
  by (simp_all add: utf8_valid_ascii)

lemma sample_parse:
  "\<exists>p. parse_http_request (parse_input st sample_path ps None) = Ok p \<and>
     command p = \<lparr>target_database = 0, command_name = ''GET'', command_args = [''a'']\<rparr> \<and>
     output_fmt p = Json \<and> etag_enabled p"
  using parse_encoded_path [of "parse_input st sample_path ps None" 0 "''GET''" "[''a'']"] sample_utf8
  by (simp add: parse_input_def sample_path_def body_args_def)

lemma sample_admitted:
  "\<exists>p. admitted sample_externals sample_app sample_path ps None addr auth p \<and>
     command p = \<lparr>target_database = 0, command_name = ''GET'', command_args = [''a'']\<rparr> \<and>
     output_fmt p = Json \<and> etag_enabled p"
  using sample_parse [of sample_app ps]
  by (auto simp: admitted_def sample_app_def acl_check_def)

lemma sample_get:
  "\<exists>r. handle_get sample_externals sample_app 0 sample_request = (1, Return r) \<and> status r = 200 \<and>
     headers r ''etag'' \<noteq> None \<and> headers r ''access-control-allow-origin'' = Some ''*''"
  using handle_get_encoded [of sample_app sample_request 0 "''GET''" "[''a'']" sample_externals 0 1
      "BulkString ''v''"] sample_laws sample_utf8
  by (auto simp: sample_app_def sample_request_def sample_path_def acl_check_def)

lemma sample_get_process:
  "handle_get sample_externals sample_app b sample_request =
     process_request sample_externals sample_app b sample_path Map.empty None (V4 1) None Map.empty"
  using trim_command_path [of 0 "''GET''" "[''a'']" "[]"]
  by (simp add: handle_get_def handle_with_body_def sample_request_def sample_path_def header_text_def)

section \<open>What a client can rely on\<close>

text \<open>C18. A GET of the encoded path of a command that the rules allow runs exactly that command, on the
  database the path names, and answers with the JSON object of its reply, tagged for caching.\<close>

theorem handle_get_runs_command:
  assumes "request_parser st = parse_http_request"
    and "uri_path req = CHR ''/'' # command_path_of db cmd as"
    and "cmd \<noteq> []" and "utf8_valid cmd" and "\<forall>a \<in> set as. utf8_valid a"
    and "query_params req = Map.empty" and "request_headers req ''if-none-match'' = None"
    and "acl_check X (app_acl st) (client_addr req) cmd
      (header_text X (request_headers req) ''authorization'')"
    and "command_executor st b \<lparr>target_database = db, command_name = cmd, command_args = as\<rparr> = (b', Ok v)"
    and "header_law X" and "sha1_law X"
  shows "\<exists>r. handle_get X st b req = (b', Return r) \<and> status r = 200 \<and>
    content r = json_to_string X (JObject [(cmd,
      json_payload \<lparr>target_database = db, command_name = cmd, command_args = as\<rparr> v)]) \<and>
    headers r ''content-type'' = Some ''application/json'' \<and>
    headers r ''etag'' \<noteq> None \<and> headers r ''access-control-allow-origin'' = Some ''*''"
  using assms by (rule handle_get_encoded)

theorem handle_get_runs_command_witness:
  "\<exists>r. handle_get sample_externals sample_app 0 sample_request = (1, Return r) \<and> status r = 200"
  using handle_get_runs_command [of sample_app sample_request 0 "''GET''" "[''a'']" sample_externals 0 1
      "BulkString ''v''"] sample_laws sample_utf8
  by (auto simp: sample_app_def sample_request_def sample_path_def acl_check_def)

text \<open>C19. A POST to the path of a command with the raw suffix runs the command with the body as its last
  argument and answers with the RESP encoding of the reply, or with a RESP error.\<close>

theorem handle_post_raw:
  assumes "request_parser st = parse_http_request"
    and "uri_path req = CHR ''/'' # command_path_of db cmd (as @ [a]) @ ''.raw''"
    and "cmd \<noteq> []" and "utf8_valid cmd" and "\<forall>x \<in> set (as @ [a]). utf8_valid x"
    and "query_params req = Map.empty" and "request_body req \<noteq> []"
    and "acl_check X (app_acl st) (client_addr req) cmd
      (header_text X (request_headers req) ''authorization'')"
    and "command_executor st b
      \<lparr>target_database = db, command_name = cmd, command_args = as @ [a, request_body req]\<rparr> = (b', res)"
  shows "handle_post X st b req = (b', Return
    \<lparr>status = 200,
     headers = [''content-type'' \<mapsto> ''text/plain'', ''access-control-allow-origin'' \<mapsto> ''*''],
     content = (case res of Ok v \<Rightarrow> value_to_resp v | Err e \<Rightarrow> ''-ERR '' @ error_text e @ crlf)\<rparr>)"
proof -
  let ?path = "command_path_of db cmd (as @ [a]) @ ''.raw''"
  let ?i = "parse_input st ?path Map.empty (Some (request_body req))"
  have trim: "trim_start_matches (CHR ''/'') (uri_path req) = ?path"
    using trim_command_path [of db cmd "as @ [a]" "''.raw''"] assms(2) by simp
  let ?p = "\<lparr>command = \<lparr>target_database = db, command_name = cmd, command_args = as @ [a, request_body req]\<rparr>,
      output_fmt = Raw, jsonp_callback = None, content_type_override = None,
      extension_content_type = content_type_for_extension ''raw'', etag_enabled = False\<rparr>"
  have "to_ascii_lowercase ''raw'' = ''raw''" "from_extension ''raw'' = Some Raw"
    by (simp_all add: ascii_defs from_extension_def)
  then have "parse_http_request ?i = Ok ?p"
    using parse_encoded_path_suffix [of ?i db cmd as a "''raw''" Raw] assms(3-5,7)
    by (simp add: parse_input_def body_args_def nonempty_param_def known_extensions_def)
  then have adm: "admitted X st ?path Map.empty (Some (request_body req)) (client_addr req)
      (header_text X (request_headers req) ''authorization'') ?p"
    using assms(1,8) by (simp add: admitted_def)
  have "handle_post X st b req =
      (b', deliver X ?p (header_text X (request_headers req) ''if-none-match'') res)"
    unfolding handle_post_def handle_with_body_def trim assms(6)
    using process_request_admitted [OF adm, of b b' res] assms(9) by simp
  then show ?thesis
    by (cases res) (simp_all add: deliver_def render_value_def render_error_def finish_response_def
        response_defs Let_def fun_upd_twist)
qed

theorem handle_post_raw_witness:
  "\<exists>r. handle_post sample_externals sample_app 0
      (sample_request\<lparr>uri_path := CHR ''/'' # command_path_of 0 ''SET'' ([] @ [''a'']) @ ''.raw'',
         request_body := ''v''\<rparr>) = (1, Return r) \<and> status r = 200"
  using handle_post_raw [of sample_app "sample_request\<lparr>uri_path := CHR ''/'' #
      command_path_of 0 ''SET'' ([] @ [''a'']) @ ''.raw'', request_body := ''v''\<rparr>" 0 "''SET''" "[]" "''a''"
      sample_externals 0 1 "Ok (BulkString ''v'')"]
  by (simp add: sample_app_def sample_request_def acl_check_def utf8_valid_ascii)

text \<open>C4. A command that the last rule with a verdict disables is answered 403 and never reaches the executor,
  whatever path, suffix, database prefix, query or body it was sent with.\<close>

theorem forbidden_never_executes:
  assumes "parse_http_request (parse_input st path ps body) = Ok p"
    and "List.map_filter (verdict X addr (command_name (command p)) auth) (app_acl st) = vs @ [False]"
  shows "process_request X (st\<lparr>request_parser := parse_http_request, command_executor := exec\<rparr>)
      b path ps body addr auth hs =
    (b, Return (json_value_response X 403 (error_object ''Forbidden'') (jsonp_callback p)))"
  using assms
  by (simp add: process_request_def parse_input_def check_auth_def acl_check_last_verdict)

theorem forbidden_never_executes_witness:
  "\<exists>r. process_request sample_externals
      (sample_app\<lparr>app_acl := [\<lparr>ip_subnet = None, basic_auth = None, rule_enabled = [], rule_disabled = [''get'']\<rparr>],
         request_parser := parse_http_request, command_executor := (\<lambda>b _. (b + 7, Ok Okay))\<rparr>)
      0 sample_path Map.empty None (V4 1) None Map.empty = (0, Return r) \<and> status r = 403"
proof -
  let ?rule = "\<lparr>ip_subnet = None, basic_auth = None, rule_enabled = [], rule_disabled = [''get'']\<rparr>"
  let ?st = "sample_app\<lparr>app_acl := [?rule]\<rparr>"
  obtain p where p: "parse_http_request (parse_input ?st sample_path Map.empty None) = Ok p"
    "command p = \<lparr>target_database = 0, command_name = ''GET'', command_args = [''a'']\<rparr>"
    using sample_parse [of ?st Map.empty] by auto
  have "eq_ignore_ascii_case ''get'' ''GET''"
    by code_simp
  then have "List.map_filter (verdict sample_externals (V4 1) (command_name (command p)) None) (app_acl ?st) = [] @ [False]"
    by (simp add: p(2) List.map_filter_def verdict_def rule_matches_def lists_command_def names_command_def
        exI [of Not False])
  from forbidden_never_executes [OF p(1) this, of "\<lambda>b _. (b + 7, Ok Okay)" 0 Map.empty] show ?thesis
    by simp
qed

text \<open>C23. A client that revalidates with the tag it was given gets 304 with no body as long as the command
  still has the same reply.\<close>

theorem etag_revalidation:
  assumes "process_request X st b path ps body addr auth hs = (b1, Return r)"
    and "headers r ''etag'' = Some tag"
    and "admitted X st path ps body addr auth p"
    and "command_executor st b (command p) = (b1, Ok v)"
    and "command_executor st b2 (command p) = (b3, Ok v)"
    and "hs' ''if-none-match'' = Some tag" and "header_to_str X tag = Some tag"
    and "header_law X" and "sha1_law X"
  shows "process_request X st b2 path ps body addr auth hs' =
    (b3, Return \<lparr>status = 304,
       headers = [''etag'' \<mapsto> tag, ''access-control-allow-origin'' \<mapsto> ''*''], content = []\<rparr>)"
proof -
  let ?tag = "etag_of X (hashed_bytes X p v)"
  have "deliver X p (header_text X hs ''if-none-match'') (Ok v) = Return r"
    using process_request_admitted [OF assms(3,4)] assms(1) by simp
  moreover have "headers r1 ''etag'' = Some tag" if "finish_response X p r1 = Return r" for r1
    using finish_response_Return(4) [OF that, of "''etag''"] assms(2) by simp
  ultimately have tagged: "tagged p v \<and> \<not> no_text_form p v \<and> tag = ?tag"
    using assms(2) fresh_response_headers [of "''etag''" X p v]
    by (fastforce simp: deliver_def render_value_eq assms(8,9) json_value_response_def Let_def
        split: if_splits option.splits)
  then have "deliver X p (header_text X hs' ''if-none-match'') (Ok v) = Return
      (set_header ''access-control-allow-origin'' ''*'' (set_header ''etag'' tag (bare_response 304)))"
    using assms(6,7) by (simp add: deliver_def render_value_eq assms(8,9) header_text_def Let_def)
  then show ?thesis
    using process_request_admitted [OF assms(3,5)] by (simp add: response_defs)
qed

theorem etag_revalidation_witness:
  "\<exists>tag. process_request sample_externals sample_app 5 sample_path Map.empty None (V4 1) None
      [''if-none-match'' \<mapsto> tag] =
    (6, Return \<lparr>status = 304, headers = [''etag'' \<mapsto> tag, ''access-control-allow-origin'' \<mapsto> ''*''],
       content = []\<rparr>)"
proof -
  obtain r tag where r: "process_request sample_externals sample_app 0 sample_path Map.empty None (V4 1) None
      Map.empty = (1, Return r)" "headers r ''etag'' = Some tag"
    using sample_get unfolding sample_get_process by blast
  obtain p where p: "admitted sample_externals sample_app sample_path Map.empty None (V4 1) None p"
    using sample_admitted by blast
  have ex: "command_executor sample_app b (command p) = (Suc b, Ok (BulkString ''v''))" for b
    by (simp add: sample_app_def)
  show ?thesis
    using etag_revalidation [OF r p ex [of 0, folded One_nat_def] ex [of 5] _ _ sample_laws,
        of "[''if-none-match'' \<mapsto> tag]"]
    by (auto simp: sample_externals_def)
qed

text \<open>C32. A request panics exactly when it is admitted, its response is not an early one, and its type parameter
  is not a valid header value.\<close>

theorem process_request_panics_iff:
  assumes "request_parser st = parse_http_request" and "header_law X" and "sha1_law X"
  shows "snd (process_request X st b path ps body addr auth hs) = Panic \<longleftrightarrow>
    (\<exists>p ct. admitted X st path ps body addr auth p \<and>
       nonempty_param ps ''type'' = Some ct \<and> \<not> header_ok X ct \<and>
       (case snd (command_executor st b (command p)) of
          Err e \<Rightarrow> True
        | Ok v \<Rightarrow> \<not> no_text_form p v \<and>
            \<not> (tagged p v \<and> header_text X hs ''if-none-match'' = Some (etag_of X (hashed_bytes X p v)))))"
proof (cases "\<exists>p. admitted X st path ps body addr auth p")
  case True
  then obtain p where p: "admitted X st path ps body addr auth p" by blast
  then have parsed: "parse_http_request (parse_input st path ps body) = Ok p"
    using assms(1) by (simp add: admitted_def)
  have only: "admitted X st path ps body addr auth q \<longleftrightarrow> q = p" for q
    using p by (auto simp: admitted_def)
  have override: "content_type_override p = nonempty_param ps ''type''"
    using parse_http_request_Ok(4) [OF parsed] by (simp add: parse_input_def)
  note fin = finish_response_Panic [OF assms(2) parse_http_request_extension [OF parsed], simplified]
  obtain b' res where ex: "command_executor st b (command p) = (b', res)" by fastforce
  show ?thesis
    unfolding process_request_admitted [OF p ex] only
    by (auto simp: ex deliver_def render_value_eq assms(2,3) fin override Let_def split: sum.splits)
next
  case False
  then show ?thesis
    using process_request_refused [OF False, of b hs] by auto
qed

theorem process_request_panics_iff_witness:
  "snd (process_request sample_externals sample_app 0 sample_path [''type'' \<mapsto> [CHR 0x0A]] None (V4 1) None
     Map.empty) = Panic"
proof -
  obtain p where p: "admitted sample_externals sample_app sample_path [''type'' \<mapsto> [CHR 0x0A]] None (V4 1) None p"
    "output_fmt p = Json"
    using sample_admitted by blast
  have "nonempty_param [''type'' \<mapsto> [CHR 0x0A]] ''type'' = Some [CHR 0x0A]"
    "\<not> header_ok sample_externals [CHR 0x0A]"
    by (simp_all add: nonempty_param_def sample_externals_def)
  with p show ?thesis
    using process_request_panics_iff [of sample_app sample_externals 0 sample_path
        "[''type'' \<mapsto> [CHR 0x0A]]" None "V4 1" None Map.empty] sample_laws
    by (auto simp: sample_app_def header_text_def no_text_form_def)
qed

text \<open>The cross-origin header is on every response to an admitted request except the one for a reply with no
  text form, and on no response to a refused request.\<close>

theorem cors_header_iff:
  assumes "process_request X st b path ps body addr auth hs = (b', Return r)"
    and "header_law X" and "sha1_law X"
  shows "headers r ''access-control-allow-origin'' = Some ''*'' \<longleftrightarrow>
    (\<exists>p. admitted X st path ps body addr auth p \<and>
       (case snd (command_executor st b (command p)) of Err e \<Rightarrow> True | Ok v \<Rightarrow> \<not> no_text_form p v))"
proof (cases "\<exists>p. admitted X st path ps body addr auth p")
  case True
  then obtain p where p: "admitted X st path ps body addr auth p" by blast
  have only: "admitted X st path ps body addr auth q \<longleftrightarrow> q = p" for q
    using p by (auto simp: admitted_def)
  obtain b1 res where ex: "command_executor st b (command p) = (b1, res)" by fastforce
  have "deliver X p (header_text X hs ''if-none-match'') res = Return r"
    using assms(1) process_request_admitted [OF p ex] by simp
  then show ?thesis
    unfolding only
    by (auto simp: ex deliver_def render_value_eq assms(2,3) json_value_response_def Let_def
        split: sum.splits if_splits dest: finish_response_Return(3))
next
  case False
  then show ?thesis
    using process_request_refused [OF False, of b hs] assms(1)
    by (auto simp: json_value_response_def split: option.splits)
qed

theorem cors_header_iff_witness:
  "\<exists>p. admitted sample_externals sample_app sample_path Map.empty None (V4 1) None p \<and>
     (case snd (command_executor sample_app 0 (command p)) of Err e \<Rightarrow> True | Ok v \<Rightarrow> \<not> no_text_form p v)"
proof -
  obtain r where r: "process_request sample_externals sample_app 0 sample_path Map.empty None (V4 1) None
      Map.empty = (1, Return r)" "headers r ''access-control-allow-origin'' = Some ''*''"
    using sample_get unfolding sample_get_process by blast
  show ?thesis
    using cors_header_iff [OF r(1) sample_laws] r(2) by simp
qed

lemma parse_leading_slash:
  assumes "command_path i = CHR ''/'' # rest"
  shows "\<exists>p. parse_http_request i = Ok p \<and> command_name (command p) = [] \<and>
    target_database (command p) = default_database_in i"
proof -
  obtain y ys where "split_on (CHR ''/'') rest = y # ys"
    by (cases "split_on (CHR ''/'') rest") auto
  then show ?thesis
    using assms
    by (auto simp: parse_http_request_def database_prefix_def is_decimal_segment_def
        strip_request_extension_def percent_decode_segment_lossy_def Let_def split: prod.splits)
qed

text \<open>A default root written with a leading slash, as the configuration schema shows it, runs the command with the
  empty name: unlike the paths of the other handlers it is not stripped of the slash.\<close>

theorem default_root_with_slash:
  assumes "request_parser st = parse_http_request"
    and "acl_check X (app_acl st) (client_addr req) [] (header_text X (request_headers req) ''authorization'')"
  shows "\<exists>cmd. command_name cmd = [] \<and> target_database cmd = app_default_database st \<and>
    fst (handle_default_root X st b req (CHR ''/'' # root)) = fst (command_executor st b cmd)"
proof -
  obtain p where p: "parse_http_request (parse_input st (CHR ''/'' # root) (query_params req) None) = Ok p"
    "command_name (command p) = []" "target_database (command p) = app_default_database st"
    using parse_leading_slash [of "parse_input st (CHR ''/'' # root) (query_params req) None" root]
    by (auto simp: parse_input_def)
  obtain b' res where ex: "command_executor st b (command p) = (b', res)" by fastforce
  have "admitted X st (CHR ''/'' # root) (query_params req) None (client_addr req)
      (header_text X (request_headers req) ''authorization'') p"
    using p assms by (simp add: admitted_def)
  from process_request_admitted [OF this ex] p ex show ?thesis
    by (auto simp: handle_default_root_def)
qed

theorem default_root_with_slash_witness:
  "\<exists>cmd. command_name cmd = [] \<and>
    fst (handle_default_root sample_externals sample_app 0 sample_request (CHR ''/'' # ''GET/index.html'')) =
      fst (command_executor sample_app 0 cmd)"
  using default_root_with_slash [of sample_app sample_externals sample_request 0 "''GET/index.html''"]
  by (auto simp: sample_app_def acl_check_def)

section \<open>INFO replies\<close>

text \<open>The shape of an INFO reply: section headers, blank lines and fields, each ended by CRLF.\<close>

datatype info_item = Section str | Blank | Field str str

fun info_text :: "info_item \<Rightarrow> str" where
  "info_text (Section t) = CHR ''#'' # t"
| "info_text Blank = []"
| "info_text (Field k v) = k @ CHR '':'' # v"

fun info_field :: "info_item \<Rightarrow> (str \<times> json) list" where
  "info_field (Field k v) = [(k, JString v)]"
| "info_field _ = []"

text \<open>Text on one line with no white space at its ends.\<close>

definition neat :: "str \<Rightarrow> bool" where
  "neat s \<longleftrightarrow> CHR 0x0A \<notin> set s \<and> (s \<noteq> [] \<longrightarrow> solid_byte (hd s) \<and> solid_byte (last s))"

fun info_ok :: "info_item \<Rightarrow> bool" where
  "info_ok (Section t) = neat (CHR ''#'' # t)"
| "info_ok Blank = True"
| "info_ok (Field k v) = (neat k \<and> neat v \<and> k \<noteq> [] \<and> hd k \<noteq> CHR ''#'' \<and> CHR '':'' \<notin> set k)"

lemma trim_neat: "neat s \<Longrightarrow> trim s = s"
proof (cases "s = []")
  case False
  assume "neat s"
  then have "trim_start s = s" "trim_end s = s"
    using False trim_start_solid [of "hd s" "tl s"] trim_end_solid [of "last s" "butlast s"]
    by (simp_all add: neat_def)
  then show ?thesis
    by (simp add: trim_def)
qed (simp add: trim_def trim_start_def trim_end_def)

lemma split_once_sep: "c \<notin> set a \<Longrightarrow> split_once c (a @ c # b) = Some (a, b)"
  by (induction a) auto

lemma lines_of_crlf: "lines_of (map (\<lambda>l. l @ [CHR 0x0D]) ls @ [[]]) = ls"
proof (induction ls)
  case (Cons l ls)
  then show ?case
    by (cases ls) simp_all
qed simp

lemma split_on_crlf:
  "\<forall>l \<in> set ls. CHR 0x0A \<notin> set l \<Longrightarrow>
     split_on (CHR 0x0A) (concat (map (\<lambda>l. l @ crlf) ls)) = map (\<lambda>l. l @ [CHR 0x0D]) ls @ [[]]"
proof (induction ls)
  case (Cons l ls)
  then show ?case
    using split_on_append_sep [of "CHR 0x0A" "l @ [CHR 0x0D]"] by (simp add: crlf_def)
qed simp

lemma fill_map_simps: "fill_map m [] = m" "fill_map (fill_map m a) b = fill_map m (a @ b)"
  by (simp_all add: fill_map_def)

lemma info_line_item:
  assumes "info_ok i"
  shows "info_line m (info_text i) = fill_map m (info_field i)"
  using assms
proof (cases i)
  case (Field k v)
  have "neat (k @ CHR '':'' # v)"
    using assms Field by (cases "v = []") (auto simp: neat_def solid_byte_def)
  then show ?thesis
    using assms Field
    by (simp add: info_line_def trim_neat split_once_sep fill_map_def hd_append)
qed (simp_all add: info_line_def trim_neat fill_map_def, simp add: trim_def trim_start_def trim_end_def)

text \<open>Every INFO reply becomes the object of its fields; a field that appears twice keeps its last value.\<close>

theorem parse_info_fields:
  assumes "list_all info_ok items"
  shows "\<exists>m. parse_info_output (concat (map (\<lambda>i. info_text i @ crlf) items)) = JObject m \<and>
    btree_ok m \<and> map_of m = map_of (rev (concat (map info_field items)))"
proof -
  have "CHR 0x0A \<notin> set (info_text i)" if "i \<in> set items" for i
    using assms that by (cases i) (auto simp: list_all_iff neat_def)
  then have lines: "lines (concat (map (\<lambda>i. info_text i @ crlf) items)) = map info_text items"
    using split_on_crlf [of "map info_text items"] lines_of_crlf [of "map info_text items"]
    by (auto simp: lines_def comp_def)
  have "foldl info_line m (map info_text items) = fill_map m (concat (map info_field items))" for m
    using assms
    by (induction items arbitrary: m) (simp_all add: info_line_item fill_map_simps)
  then show ?thesis
    using btree_ok_fill [of "[] :: (str \<times> json) list"] map_of_fill [of "[] :: (str \<times> json) list"]
    by (simp add: parse_info_output_def lines)
qed

theorem parse_info_fields_witness:
  "\<exists>m. parse_info_output (concat (map (\<lambda>i. info_text i @ crlf)
      [Section '' Server'', Field ''version'' ''7.2'', Blank, Field ''mode'' ''a:b''])) = JObject m \<and>
    map_of m ''version'' = Some (JString ''7.2'')"
  using parse_info_fields [of "[Section '' Server'', Field ''version'' ''7.2'', Blank, Field ''mode'' ''a:b'']"]
  by (auto simp: neat_def solid_byte_def)

end
