(* ===== verification/Pipeline.thy ===== *)
theory Pipeline
  imports Resp
begin

text \<open>
  Three loops of the program take RESP commands from a growing buffer: the raw WebSocket, the
  session WebSocket and the session command endpoint. This theory states what they have in common
  as an interface, and proves once what a stream of encoded commands does to such a loop, whole
  or cut into messages.
\<close>

section \<open>Streams of commands\<close>

definition command_stream :: "bytes list list \<Rightarrow> bytes" where
  "command_stream cs = concat (map encode_command cs)"

lemma command_stream_simps [simp]:
  "command_stream [] = []"
  "command_stream (c # cs) = encode_command c @ command_stream cs"
  "command_stream (cs @ ds) = command_stream cs @ command_stream ds"
  by (simp_all add: command_stream_def)

text \<open>Every command may be processed in the state its predecessors leave.\<close>

primrec all_continue :: "('c \<Rightarrow> 's \<Rightarrow> bool) \<Rightarrow> ('c \<Rightarrow> 's \<Rightarrow> 's) \<Rightarrow> 'c list \<Rightarrow> 's \<Rightarrow> bool" where
  "all_continue continues advance [] s = True"
| "all_continue continues advance (c # cs) s =
     (continues c s \<and> all_continue continues advance cs (advance c s))"

lemma all_continue_append:
  "all_continue continues advance (cs @ ds) s \<longleftrightarrow>
     all_continue continues advance cs s \<and> all_continue continues advance ds (fold advance cs s)"
  by (induction cs arbitrary: s) auto

text \<open>A cut at an offset of a stream is harmless unless it is just after a type marker.\<close>

fun boundary_ok :: "bytes list list \<Rightarrow> nat \<Rightarrow> bool" where
  "boundary_ok [] n = True"
| "boundary_ok (c # cs) n =
     (if n < length (encode_command c) then \<not> marker_cut c n
      else boundary_ok cs (n - length (encode_command c)))"

fun offsets :: "nat \<Rightarrow> bytes list \<Rightarrow> nat list" where
  "offsets n [] = []"
| "offsets n (ch # chs) = (n + length ch) # offsets (n + length ch) chs"

text \<open>A proper prefix of the first command of a stream.\<close>

definition partial_frame :: "bytes list list \<Rightarrow> bytes \<Rightarrow> bool" where
  "partial_frame cs q \<longleftrightarrow>
     (case cs of
        [] \<Rightarrow> q = []
      | c # _ \<Rightarrow> length q < length (encode_command c) \<and> q = take (length q) (encode_command c))"

lemma boundary_ok_shift:
  "boundary_ok (cs @ ds) (length (command_stream cs) + n) = boundary_ok ds n"
  by (induction cs) simp_all

lemma offsets_shift: "offsets (m + n) chs = map (\<lambda>k. m + k) (offsets n chs)"
  by (induction chs arbitrary: n) (simp_all add: add.assoc)

lemma stream_prefix_split:
  "command_stream cs = p @ r \<Longrightarrow>
     \<exists>cs1 cs2 q. cs = cs1 @ cs2 \<and> p = command_stream cs1 @ q \<and> command_stream cs2 = q @ r \<and>
       partial_frame cs2 q"
proof (induction cs arbitrary: p)
  case Nil
  then show ?case
    by (simp add: partial_frame_def)
next
  case (Cons c cs)
  show ?case
  proof (cases "length p < length (encode_command c)")
    case True
    then have "p = take (length p) (encode_command c)"
      using Cons.prems by (simp add: append_eq_append_conv_if)
    with True Cons.prems show ?thesis
      by (intro exI [of _ "[]"] exI [of _ "c # cs"] exI [of _ p]) (simp add: partial_frame_def)
  next
    case False
    then obtain p' where p': "p = encode_command c @ p'" "command_stream cs = p' @ r"
      using Cons.prems by (auto simp: append_eq_append_conv2)
    then obtain cs1 cs2 q where "cs = cs1 @ cs2" "p' = command_stream cs1 @ q"
      "command_stream cs2 = q @ r" "partial_frame cs2 q"
      using Cons.IH by blast
    with p' show ?thesis
      by (intro exI [of _ "c # cs1"] exI [of _ cs2] exI [of _ q]) simp
  qed
qed

lemma parse_partial_frame:
  assumes "partial_frame cs q" and "boundary_ok cs (length q)"
    and "list_all (\<lambda>c. command_fits c \<and> c \<noteq> []) cs"
  shows "parse_command q = Return (Ok None)"
proof (cases cs)
  case Nil
  with assms show ?thesis
    by (simp add: partial_frame_def parse_command_def)
next
  case (Cons c ds)
  then show ?thesis
    using assms parse_command_cut [of c "length q"] by (simp add: partial_frame_def)
qed

section \<open>The interface of a command loop\<close>

locale command_loop =
  fixes loop :: "bytes \<Rightarrow> 's \<Rightarrow> 'r"
    and wait :: "bytes \<Rightarrow> 's \<Rightarrow> 'r"
    and continues :: "bytes list \<Rightarrow> 's \<Rightarrow> bool"
    and advance :: "bytes list \<Rightarrow> 's \<Rightarrow> 's"
  assumes loop_command:
      "parse_command buf = Return (Ok (Some (args, n))) \<Longrightarrow> continues args s \<Longrightarrow>
         loop buf s = loop (drop n buf) (advance args s)"
    and loop_wait: "parse_command buf = Return (Ok None) \<Longrightarrow> loop buf s = wait buf s"
begin

text \<open>Commands that arrive together are processed in their order.\<close>

lemma loop_stream:
  "list_all command_fits cs \<Longrightarrow> all_continue continues advance cs s \<Longrightarrow>
     loop (command_stream cs @ rest) s = loop rest (fold advance cs s)"
proof (induction cs arbitrary: s)
  case (Cons c cs)
  then have "loop (encode_command c @ command_stream cs @ rest) s =
      loop (command_stream cs @ rest) (advance c s)"
    by (simp add: loop_command [OF parse_command_encode])
  with Cons show ?case
    by simp
qed simp

lemma loop_whole_stream:
  "list_all command_fits cs \<Longrightarrow> all_continue continues advance cs s \<Longrightarrow>
     loop (command_stream cs) s = wait [] (fold advance cs s)"
  using loop_stream [of cs s "[]"] by (simp add: loop_wait parse_command_def)

end

text \<open>A loop that is run again for every message, on what it left of the buffer and the message.\<close>

locale message_loop = command_loop loop wait continues advance
  for loop :: "bytes \<Rightarrow> 's \<Rightarrow> 'r"
    and wait :: "bytes \<Rightarrow> 's \<Rightarrow> 'r"
    and continues :: "bytes list \<Rightarrow> 's \<Rightarrow> bool"
    and advance :: "bytes list \<Rightarrow> 's \<Rightarrow> 's" +
  fixes messages :: "bytes \<Rightarrow> 's \<Rightarrow> bytes list \<Rightarrow> 'm"
  assumes messages_wait:
      "loop (buf @ ch) s = wait buf' s' \<Longrightarrow> messages buf s (ch # chs) = messages buf' s' chs"
begin

text \<open>How a stream is cut into messages makes no difference, unless a cut follows a type marker.\<close>

lemma messages_stream:
  "list_all (\<lambda>c. command_fits c \<and> c \<noteq> []) cs \<Longrightarrow> all_continue continues advance cs s \<Longrightarrow>
     command_stream cs = buf @ concat chs \<Longrightarrow> partial_frame cs buf \<Longrightarrow>
     list_all (boundary_ok cs) (offsets (length buf) chs) \<Longrightarrow>
     messages buf s chs = messages [] (fold advance cs s) []"
proof (induction chs arbitrary: cs buf s)
  case Nil
  then show ?case
    by (cases cs) (auto simp: partial_frame_def)
next
  case (Cons ch chs)
  obtain cs1 cs2 q where split: "cs = cs1 @ cs2" "buf @ ch = command_stream cs1 @ q"
    "command_stream cs2 = q @ concat chs" "partial_frame cs2 q"
    using stream_prefix_split [of cs "buf @ ch" "concat chs"] Cons.prems(3) by auto
  have len: "length buf + length ch = length (command_stream cs1) + length q"
    using split(2) by (metis length_append)
  have fits: "list_all command_fits cs1" "list_all (\<lambda>c. command_fits c \<and> c \<noteq> []) cs2"
    using Cons.prems(1) split(1) by (auto simp: list_all_iff)
  have cont: "all_continue continues advance cs1 s"
    "all_continue continues advance cs2 (fold advance cs1 s)"
    using Cons.prems(2) split(1) by (simp_all add: all_continue_append)
  have ok: "boundary_ok cs2 (length q)" "list_all (boundary_ok cs2) (offsets (length q) chs)"
    using Cons.prems(5) unfolding split(1)
    by (simp_all add: len boundary_ok_shift offsets_shift list.pred_map comp_def)
  have "loop (buf @ ch) s = wait q (fold advance cs1 s)"
    unfolding split(2) loop_stream [OF fits(1) cont(1)]
    by (rule loop_wait [OF parse_partial_frame [OF split(4) ok(1) fits(2)]])
  then have "messages buf s (ch # chs) = messages q (fold advance cs1 s) chs"
    by (rule messages_wait)
  also have "\<dots> = messages [] (fold advance cs2 (fold advance cs1 s)) []"
    by (rule Cons.IH [OF fits(2) cont(2) split(3,4) ok(2)])
  finally show ?case
    by (simp add: split(1))
qed

end

end
