(* ===== verification/Websocket.thy ===== *)
theory Websocket
  imports Handler Pipeline
begin

text \<open>
  \<^verbatim>\<open>crates/redis-web-runtime/src/websocket.rs\<close>: the JSON and the raw RESP WebSocket. A socket is the
  list of what its stream yields, ended by the end of the stream; whether the client still takes
  a message is a parameter, asked with what was sent so far.
\<close>

section \<open>The JSON socket\<close>

datatype ws_message = WText str | WBinary bytes | WPing bytes | WPong bytes | WClose

text \<open>
  What a JSON socket keeps: the backend, the messages queued for the client and the channels it
  has subscribed to, each with a forwarding task of its own.
\<close>

record 'b json_socket =
  json_backend :: 'b
  json_sent :: "ws_message list"
  json_subscriptions :: "str list"

text \<open>An event is a message of the client or a payload that reaches a forwarding task.\<close>

datatype socket_event = Received "(ws_message, unit) result" | Published nat str

definition json_send :: "externals \<Rightarrow> json \<Rightarrow> 'b json_socket \<Rightarrow> 'b json_socket" where
  "json_send X j s = s\<lparr>json_sent := json_sent s @ [WText (json_to_string X j)]\<rparr>"

definition json_command ::
  "externals \<Rightarrow> 'b app_state \<Rightarrow> str list \<Rightarrow> 'b json_socket \<Rightarrow> 'b json_socket" where
  "json_command X st parsed s =
     (case parsed of
        [] \<Rightarrow> s
      | cmd_name # args \<Rightarrow>
          if eq_ignore_ascii_case cmd_name ''SUBSCRIBE'' then
            (case args of
               [] \<Rightarrow> s
             | channel # _ \<Rightarrow> s\<lparr>json_subscriptions := json_subscriptions s @ [channel]\<rparr>)
          else
            (case command_executor st (json_backend s)
                    \<lparr>target_database = app_default_database st, command_name = cmd_name,
                     command_args = args\<rparr> of
               (b', Ok v) \<Rightarrow>
                 json_send X (JObject [(cmd_name, redis_value_to_json v)]) (s\<lparr>json_backend := b'\<rparr>)
             | (b', Err e) \<Rightarrow> json_send X (error_object (error_text e)) (s\<lparr>json_backend := b'\<rparr>)))"

text \<open>\<open>parse\<close> stands for \<^verbatim>\<open>serde_json::from_str::<Vec<String>>\<close>.\<close>

fun handle_socket ::
  "externals \<Rightarrow> (str \<Rightarrow> str list option) \<Rightarrow> 'b app_state \<Rightarrow> 'b json_socket \<Rightarrow> socket_event list \<Rightarrow>
   'b json_socket" where
  "handle_socket X parse st s [] = s"
| "handle_socket X parse st s (Received (Inl _) # es) = s"
| "handle_socket X parse st s (Received (Inr (WText text)) # es) =
     handle_socket X parse st
       (case parse text of Some parsed \<Rightarrow> json_command X st parsed s | None \<Rightarrow> s) es"
| "handle_socket X parse st s (Received (Inr _) # es) = handle_socket X parse st s es"
| "handle_socket X parse st s (Published i payload # es) =
     handle_socket X parse st
       (if i < length (json_subscriptions s)
        then json_send X (JObject [(''message'', JString payload)]) s else s) es"

section \<open>The raw socket\<close>

record 'b raw_socket =
  raw_backend :: 'b
  raw_sent :: "ws_message list"

datatype socket_exit = Waiting | Closed | Crashed

type_synonym 'b raw_result = "socket_exit \<times> bytes \<times> 'b raw_socket"

definition raw_command :: "'b app_state \<Rightarrow> bytes list \<Rightarrow> executable_command" where
  "raw_command st args =
     \<lparr>target_database = app_default_database st,
      command_name = from_utf8_lossy (hd args), command_args = tl args\<rparr>"

definition raw_reply :: "(redis_value, command_execution_error) result \<Rightarrow> bytes" where
  "raw_reply res = (case res of Ok v \<Rightarrow> value_to_resp v | Err e \<Rightarrow> ''-ERR '' @ error_text e @ crlf)"

definition invalid_resp :: bytes where
  "invalid_resp = ''-ERR Invalid RESP'' @ crlf"

function raw_loop ::
  "'b app_state \<Rightarrow> (ws_message list \<Rightarrow> ws_message \<Rightarrow> bool) \<Rightarrow> bytes \<Rightarrow> 'b raw_socket \<Rightarrow> 'b raw_result"
where
  "raw_loop st ok buf s =
     (case parse_command buf of
        Panic \<Rightarrow> (Crashed, buf, s)
      | Return (Inr (Some (args, consumed))) \<Rightarrow>
          let buf' = drop consumed buf in
          if args = [] then raw_loop st ok buf' s
          else (case command_executor st (raw_backend s) (raw_command st args) of
              (b', res) \<Rightarrow>
                let m = WBinary (raw_reply res) in
                if ok (raw_sent s) m
                then raw_loop st ok buf' \<lparr>raw_backend = b', raw_sent = raw_sent s @ [m]\<rparr>
                else (Closed, buf', s\<lparr>raw_backend := b'\<rparr>))
      | Return (Inr None) \<Rightarrow> (Waiting, buf, s)
      | Return (Inl Incomplete) \<Rightarrow> (Waiting, buf, s)
      | Return (Inl _) \<Rightarrow>
          let m = WBinary invalid_resp in
          if ok (raw_sent s) m then (Waiting, [], s\<lparr>raw_sent := raw_sent s @ [m]\<rparr>)
          else (Closed, [], s))"
  by pat_completeness auto
termination
  by (relation "measure (\<lambda>(st, ok, buf, s). length buf)") (auto dest!: parse_command_consumed)

declare raw_loop.simps [simp del]

fun handle_socket_raw ::
  "'b app_state \<Rightarrow> (ws_message list \<Rightarrow> ws_message \<Rightarrow> bool) \<Rightarrow> bytes \<Rightarrow> 'b raw_socket \<Rightarrow>
   (ws_message, unit) result list \<Rightarrow> 'b raw_result"
  and after_message ::
  "'b app_state \<Rightarrow> (ws_message list \<Rightarrow> ws_message \<Rightarrow> bool) \<Rightarrow> (ws_message, unit) result list \<Rightarrow>
   'b raw_result \<Rightarrow> 'b raw_result"
where
  "handle_socket_raw st ok buf s [] = (Waiting, buf, s)"
| "handle_socket_raw st ok buf s (Inl _ # ms) = (Closed, buf, s)"
| "handle_socket_raw st ok buf s (Inr (WBinary data) # ms) =
     after_message st ok ms (raw_loop st ok (buf @ data) s)"
| "handle_socket_raw st ok buf s (Inr (WText text) # ms) =
     after_message st ok ms (raw_loop st ok (buf @ text) s)"
| "handle_socket_raw st ok buf s (Inr WClose # ms) = (Closed, buf, s)"
| "handle_socket_raw st ok buf s (Inr (WPing p) # ms) =
     (if ok (raw_sent s) (WPong p)
      then handle_socket_raw st ok buf (s\<lparr>raw_sent := raw_sent s @ [WPong p]\<rparr>) ms
      else (Closed, buf, s))"
| "handle_socket_raw st ok buf s (Inr (WPong p) # ms) = handle_socket_raw st ok buf s ms"
| "after_message st ok ms (exit, buf, s) =
     (if exit = Waiting then handle_socket_raw st ok buf s ms else (exit, buf, s))"

section \<open>Streams of commands\<close>

definition raw_advance :: "'b app_state \<Rightarrow> bytes list \<Rightarrow> 'b raw_socket \<Rightarrow> 'b raw_socket" where
  "raw_advance st args s =
     (if args = [] then s
      else case command_executor st (raw_backend s) (raw_command st args) of
        (b', res) \<Rightarrow>
          \<lparr>raw_backend = b', raw_sent = raw_sent s @ [WBinary (raw_reply res)]\<rparr>)"

definition raw_continues ::
  "'b app_state \<Rightarrow> (ws_message list \<Rightarrow> ws_message \<Rightarrow> bool) \<Rightarrow> bytes list \<Rightarrow> 'b raw_socket \<Rightarrow> bool" where
  "raw_continues st ok args s \<longleftrightarrow>
     args = [] \<or>
     ok (raw_sent s)
       (WBinary (raw_reply (snd (command_executor st (raw_backend s) (raw_command st args)))))"

interpretation raw_ws: message_loop
  "raw_loop st ok" "\<lambda>buf s. (Waiting, buf, s)" "raw_continues st ok" "raw_advance st"
  "\<lambda>buf s chs. handle_socket_raw st ok buf s (map (\<lambda>ch. Inr (WBinary ch)) chs)"
  for st ok
proof unfold_locales
  show "raw_loop st ok buf s = raw_loop st ok (drop n buf) (raw_advance st args s)"
    if "parse_command buf = Return (Ok (Some (args, n)))" "raw_continues st ok args s" for buf args n s
    using that
    by (subst raw_loop.simps) (auto simp: raw_advance_def raw_continues_def Let_def split: prod.splits)
  show "raw_loop st ok buf s = (Waiting, buf, s)" if "parse_command buf = Return (Ok None)" for buf s
    using that by (simp add: raw_loop.simps)
qed simp

lemma raw_continues_always: "all_continue (raw_continues st (\<lambda>_ _. True)) (raw_advance st) cs s"
  by (induction cs arbitrary: s) (simp_all add: raw_continues_def)

section \<open>What a client of the raw socket can rely on\<close>

text \<open>C9. A stream of encoded commands has the same effect and the same replies, in order, however it is cut into
  messages, as long as no message ends just after a type marker.\<close>

theorem raw_socket_chunks:
  assumes "list_all (\<lambda>c. command_fits c \<and> c \<noteq> []) cs"
    and "concat chs = command_stream cs" and "list_all (boundary_ok cs) (offsets 0 chs)"
  shows "handle_socket_raw st (\<lambda>_ _. True) [] s (map (\<lambda>ch. Inr (WBinary ch)) chs) =
    (Waiting, [], fold (raw_advance st) cs s)"
proof -
  have "partial_frame cs []"
    by (auto simp: partial_frame_def split: list.splits)
  then show ?thesis
    using raw_ws.messages_stream [OF assms(1) raw_continues_always, of "[]" chs] assms(2,3) by simp
qed

theorem raw_socket_chunks_witness:
  "\<exists>s. handle_socket_raw sample_app (\<lambda>_ _. True) [] \<lparr>raw_backend = 0, raw_sent = []\<rparr>
      (map (\<lambda>ch. Inr (WBinary ch)) [take 2 (encode_command [''PING'']), drop 2 (encode_command [''PING''])]) =
    (Waiting, [], s) \<and> length (raw_sent s) = 1"
  using raw_socket_chunks [of "[[''PING'']]"
      "[take 2 (encode_command [''PING'']), drop 2 (encode_command [''PING''])]" sample_app
      "\<lparr>raw_backend = 0, raw_sent = []\<rparr>"]
  by (simp add: command_fits_def isize_max_eq encode_command_eq marker_cut_def crlf_def dec.simps
      raw_advance_def sample_app_def)

text \<open>A message that ends just after a type marker of a command is answered with an error and thrown away,
  although the command would be complete with the next message.\<close>

theorem raw_socket_marker_cut:
  assumes "command_fits args" and "args \<noteq> []" and "k < length (encode_command args)" and "marker_cut args k"
  shows "handle_socket_raw st (\<lambda>_ _. True) [] s [Inr (WBinary (take k (encode_command args)))] =
    (Waiting, [], s\<lparr>raw_sent := raw_sent s @ [WBinary invalid_resp]\<rparr>)"
  using parse_command_cut [OF assms(1-3)] assms(4) by (simp add: raw_loop.simps)

theorem raw_socket_marker_cut_witness:
  "handle_socket_raw sample_app (\<lambda>_ _. True) [] \<lparr>raw_backend = 0, raw_sent = []\<rparr>
      [Inr (WBinary (take 1 (encode_command [''PING''])))] =
    (Waiting, [], \<lparr>raw_backend = 0, raw_sent = [WBinary invalid_resp]\<rparr>)"
  using raw_socket_marker_cut [of "[''PING'']" 1 sample_app "\<lparr>raw_backend = 0, raw_sent = []\<rparr>"]
  by (simp add: command_fits_def isize_max_eq encode_command_eq marker_cut_def)

lemma raw_command_acl [simp]: "raw_command (st\<lparr>app_acl := rules\<rparr>) args = raw_command st args"
  by (simp add: raw_command_def)

lemma raw_loop_acl: "raw_loop (st\<lparr>app_acl := rules\<rparr>) ok buf s = raw_loop st ok buf s"
proof (induction st ok buf s rule: raw_loop.induct)
  case (1 st ok buf s)
  show ?case
    by (subst (1 2) raw_loop.simps)
      (auto simp: 1 Let_def split: outcome.splits sum.splits option.splits prod.splits resp_error.splits)
qed

lemma handle_socket_raw_acl:
  "handle_socket_raw (st\<lparr>app_acl := rules\<rparr>) ok buf s ms = handle_socket_raw st ok buf s ms"
  "after_message (st\<lparr>app_acl := rules\<rparr>) ok ms res = after_message st ok ms res"
  by (induction st ok buf s ms and st ok ms res rule: handle_socket_raw_after_message.induct)
    (simp_all add: raw_loop_acl)

lemma json_command_acl [simp]: "json_command X (st\<lparr>app_acl := rules\<rparr>) p s = json_command X st p s"
  by (cases p) (simp_all add: json_command_def)

lemma handle_socket_acl:
  "handle_socket X parse (st\<lparr>app_acl := rules\<rparr>) s es = handle_socket X parse st s es"
  by (induction X parse st s es rule: handle_socket.induct) (simp_all cong: option.case_cong)

text \<open>Neither WebSocket consults the access rules: what it does is the same under any of them.\<close>

theorem sockets_ignore_acl:
  "handle_socket X parse (st\<lparr>app_acl := rules\<rparr>) j es = handle_socket X parse st j es \<and>
   handle_socket_raw (st\<lparr>app_acl := rules\<rparr>) ok buf s ms = handle_socket_raw st ok buf s ms"
  by (simp add: handle_socket_acl handle_socket_raw_acl)

end
