(* ===== verification/Compat_Session.thy ===== *)
theory Compat_Session
  imports Websocket "HOL-Library.AList"
begin

text \<open>
  \<^verbatim>\<open>crates/redis-web-runtime/src/compat.rs\<close>: the sessions behind the hiredis-compatible API. A session
  has a Redis connection of its own, a task that owns its subscriptions, and a broadcast channel
  for pushed frames. The clock, the connections and the random identifiers come from the world,
  whose state \<open>'s\<close> every operation threads through \<open>session_lib\<close>.
\<close>

section \<open>Settings\<close>

record compat_settings =
  set_enabled :: bool
  set_path_prefix :: str
  set_session_ttl :: nat \<comment> \<open>in seconds\<close>
  set_max_sessions :: nat
  set_max_pipeline :: nat

fun pop_slashes :: "str \<Rightarrow> str" where
  "pop_slashes v =
     (if v \<noteq> [] \<and> last v = CHR ''/'' \<and> 1 < length v then pop_slashes (butlast v) else v)"

declare pop_slashes.simps [simp del]

definition normalize_prefix :: "str \<Rightarrow> str" where
  "normalize_prefix p =
     (let v0 = trim p;
          v1 = (if prefix ''/'' v0 then v0 else ''/'' @ v0);
          v2 = pop_slashes v1
      in if v2 = [] then ''/__compat'' else v2)"

definition settings_from_config :: "config \<Rightarrow> compat_settings" where
  "settings_from_config c =
     (let cfg = (case compat_hiredis c of Some h \<Rightarrow> h | None \<Rightarrow> default_compat_hiredis) in
      \<lparr>set_enabled = compat_enabled cfg, set_path_prefix = normalize_prefix (path_prefix cfg),
       set_session_ttl = session_ttl_sec cfg, set_max_sessions = max_sessions cfg,
       set_max_pipeline = max_pipeline_commands cfg\<rparr>)"

section \<open>Sessions\<close>

text \<open>The subscription task: the sets it keeps and its connection, or it has ended.\<close>

datatype pubsub_task =
    TaskRunning (task_conn: nat) (task_channels: "bytes list") (task_patterns: "bytes list")
  | TaskEnded

record compat_session =
  sess_id :: str
  sess_created_at :: nat
  sess_last_access :: nat
  sess_conn :: nat
  sess_pushed :: "bytes list" \<comment> \<open>everything sent to the broadcast channel\<close>
  sess_task :: "pubsub_task option"
  sess_warned :: bool
  sess_has_pubsub :: bool

datatype pubsub_op = Subscribe | Psubscribe | Unsubscribe | Punsubscribe

record 's session_lib =
  clock :: "'s \<Rightarrow> nat" \<comment> \<open>\<^verbatim>\<open>Instant::now\<close> in nanoseconds\<close>
  new_uuid :: "'s \<Rightarrow> 's \<times> str"
  connect_command :: "'s \<Rightarrow> 's \<times> (nat, str) result"
  session_query :: "'s \<Rightarrow> nat \<Rightarrow> bytes list \<Rightarrow> 's \<times> (redis_value, str) result"
  connect_pubsub :: "'s \<Rightarrow> 's \<times> (nat, str) result"
  pubsub_call :: "pubsub_op \<Rightarrow> 's \<Rightarrow> nat \<Rightarrow> bytes \<Rightarrow> 's \<times> (unit, str) result"
  iteration_order :: "bytes list \<Rightarrow> bytes list" \<comment> \<open>of a \<^verbatim>\<open>HashSet\<close>\<close>
  task_ends_first :: "'s \<Rightarrow> bool" \<comment> \<open>a new task that fails does so before its first command is sent\<close>

definition session_new :: "str \<Rightarrow> nat \<Rightarrow> nat \<Rightarrow> compat_session" where
  "session_new i conn now =
     \<lparr>sess_id = i, sess_created_at = now, sess_last_access = now, sess_conn = conn,
      sess_pushed = [], sess_task = None, sess_warned = False, sess_has_pubsub = False\<rparr>"

definition touch :: "nat \<Rightarrow> compat_session \<Rightarrow> compat_session" where
  "touch now s = s\<lparr>sess_last_access := now\<rparr>"

text \<open>Saturating at zero, as subtraction on natural numbers does.\<close>

definition idle_for :: "nat \<Rightarrow> compat_session \<Rightarrow> nat" where
  "idle_for now s = now - sess_last_access s"

definition maybe_emit_http_pubsub_warning :: "bool \<Rightarrow> compat_session \<Rightarrow> compat_session \<times> bool" where
  "maybe_emit_http_pubsub_warning muted s =
     (if \<not> sess_has_pubsub s then (s, False)
      else if muted then (s, False)
      else if \<not> sess_warned s then (s\<lparr>sess_warned := True\<rparr>, True)
      else (s, False))"

section \<open>Subscription commands\<close>

definition hs_insert :: "bytes \<Rightarrow> bytes list \<Rightarrow> bytes list" where
  "hs_insert x xs = (if x \<in> set xs then xs else xs @ [x])"

definition hs_remove :: "bytes \<Rightarrow> bytes list \<Rightarrow> bytes list" where
  "hs_remove x xs = filter (\<lambda>y. y \<noteq> x) xs"

definition count_frame :: "str \<Rightarrow> bytes \<Rightarrow> nat \<Rightarrow> bytes" where
  "count_frame label name n =
     value_to_resp (Array [BulkString label, BulkString name, IntV (of_nat n)])"

text \<open>
  The loop that the four branches of \<^verbatim>\<open>handle_pubsub_command\<close> share: one call per target, the set
  updated after each, one reply each; the first failure ends it and drops the replies.
\<close>

fun pubsub_each ::
  "('s \<Rightarrow> bytes \<Rightarrow> 's \<times> (unit, str) result) \<Rightarrow> str \<Rightarrow> (bytes \<Rightarrow> bytes list \<Rightarrow> bytes list) \<Rightarrow> nat \<Rightarrow>
   's \<Rightarrow> bytes list \<Rightarrow> bytes list \<Rightarrow> bytes list \<Rightarrow> 's \<times> bytes list \<times> (bytes list, str) result" where
  "pubsub_each call label upd other srv names [] replies = (srv, names, Ok replies)"
| "pubsub_each call label upd other srv names (t # ts) replies =
     (case call srv t of
        (srv', Err e) \<Rightarrow> (srv', names, Err e)
      | (srv', Ok _) \<Rightarrow>
          let names' = upd t names in
          pubsub_each call label upd other srv' names' ts
            (replies @ [count_frame label t (length names' + other)]))"

fun op_label :: "pubsub_op \<Rightarrow> str" where
  "op_label Subscribe = ''subscribe''"
| "op_label Psubscribe = ''psubscribe''"
| "op_label Unsubscribe = ''unsubscribe''"
| "op_label Punsubscribe = ''punsubscribe''"

definition pubsub_op_of :: "str \<Rightarrow> pubsub_op option" where
  "pubsub_op_of op =
     (if op = ''SUBSCRIBE'' then Some Subscribe
      else if op = ''PSUBSCRIBE'' then Some Psubscribe
      else if op = ''UNSUBSCRIBE'' then Some Unsubscribe
      else if op = ''PUNSUBSCRIBE'' then Some Punsubscribe
      else None)"

definition add_names ::
  "'s session_lib \<Rightarrow> pubsub_op \<Rightarrow> nat \<Rightarrow> nat \<Rightarrow> 's \<Rightarrow> bytes list \<Rightarrow> bytes list \<Rightarrow>
   's \<times> bytes list \<times> (bytes list, str) result" where
  "add_names L op conn other srv names args =
     pubsub_each (\<lambda>srv t. pubsub_call L op srv conn t) (op_label op) hs_insert other srv names args []"

definition remove_names ::
  "'s session_lib \<Rightarrow> pubsub_op \<Rightarrow> nat \<Rightarrow> nat \<Rightarrow> 's \<Rightarrow> bytes list \<Rightarrow> bytes list \<Rightarrow>
   's \<times> bytes list \<times> (bytes list, str) result" where
  "remove_names L op conn other srv names args =
     (let targets = (if args = [] then iteration_order L names else args) in
      if targets = [] then (srv, names, Ok [count_frame (op_label op) [] (length names + other)])
      else pubsub_each (\<lambda>srv t. pubsub_call L op srv conn t) (op_label op) hs_remove other srv names
             targets [])"

definition handle_pubsub_command ::
  "'s session_lib \<Rightarrow> nat \<Rightarrow> 's \<Rightarrow> bytes list \<Rightarrow> bytes list \<Rightarrow> str \<Rightarrow> bytes list \<Rightarrow>
   's \<times> (bytes list \<times> bytes list) \<times> (bytes list, str) result" where
  "handle_pubsub_command L conn srv channels patterns op args =
     (case pubsub_op_of op of
        Some Subscribe \<Rightarrow>
          if args = [] then (srv, (channels, patterns), Err ''SUBSCRIBE requires at least one channel'')
          else (case add_names L Subscribe conn (length patterns) srv channels args of
              (srv', channels', res) \<Rightarrow> (srv', (channels', patterns), res))
      | Some Psubscribe \<Rightarrow>
          if args = [] then (srv, (channels, patterns), Err ''PSUBSCRIBE requires at least one pattern'')
          else (case add_names L Psubscribe conn (length channels) srv patterns args of
              (srv', patterns', res) \<Rightarrow> (srv', (channels, patterns'), res))
      | Some Unsubscribe \<Rightarrow>
          (case remove_names L Unsubscribe conn (length patterns) srv channels args of
             (srv', channels', res) \<Rightarrow> (srv', (channels', patterns), res))
      | Some Punsubscribe \<Rightarrow>
          (case remove_names L Punsubscribe conn (length channels) srv patterns args of
             (srv', patterns', res) \<Rightarrow> (srv', (channels, patterns'), res))
      | None \<Rightarrow> (srv, (channels, patterns), Err (''unsupported pubsub command: '' @ op)))"

text \<open>The frames the task pushes for what its message stream yields.\<close>

record pubsub_message =
  msg_pattern :: "bytes option"
  msg_channel :: bytes
  msg_payload :: bytes

definition message_frame :: "pubsub_message \<Rightarrow> bytes" where
  "message_frame m =
     (case msg_pattern m of
        Some p \<Rightarrow>
          value_to_resp (Array [BulkString ''pmessage'', BulkString p, BulkString (msg_channel m),
            BulkString (msg_payload m)])
      | None \<Rightarrow>
          value_to_resp (Array [BulkString ''message'', BulkString (msg_channel m),
            BulkString (msg_payload m)]))"

text \<open>One poll of the message stream: a message, its end, or a timeout with the command channel closed.\<close>

datatype stream_poll = Message pubsub_message | StreamEnd | PollTimeout bool

fun task_poll :: "stream_poll \<Rightarrow> compat_session \<Rightarrow> compat_session" where
  "task_poll (Message m) s = s\<lparr>sess_pushed := sess_pushed s @ [message_frame m]\<rparr>"
| "task_poll StreamEnd s =
     s\<lparr>sess_pushed := sess_pushed s @ [''-ERR pubsub stream ended'' @ crlf], sess_task := Some TaskEnded\<rparr>"
| "task_poll (PollTimeout closed) s = (if closed then s\<lparr>sess_task := Some TaskEnded\<rparr> else s)"

definition ensure_pubsub_task ::
  "'s session_lib \<Rightarrow> 's \<Rightarrow> compat_session \<Rightarrow> 's \<times> compat_session" where
  "ensure_pubsub_task L srv s =
     (case sess_task s of
        Some _ \<Rightarrow> (srv, s)
      | None \<Rightarrow>
          (case connect_pubsub L srv of
             (srv', Ok conn) \<Rightarrow> (srv', s\<lparr>sess_task := Some (TaskRunning conn [] [])\<rparr>)
           | (srv', Err e) \<Rightarrow>
               (srv', s\<lparr>sess_pushed := sess_pushed s @ [''-ERR pubsub init failed: '' @ e @ crlf],
                        sess_task := Some TaskEnded\<rparr>)))"

definition err_frame :: "str \<Rightarrow> bytes" where
  "err_frame e = ''-ERR '' @ e @ crlf"

definition execute_pubsub_control ::
  "'s session_lib \<Rightarrow> 's \<Rightarrow> compat_session \<Rightarrow> str \<Rightarrow> bytes list \<Rightarrow> 's \<times> compat_session \<times> bytes" where
  "execute_pubsub_control L srv s op args =
     (let fresh = (sess_task s = None) in
      case ensure_pubsub_task L srv (s\<lparr>sess_has_pubsub := True\<rparr>) of
        (srv1, s1) \<Rightarrow>
          (case sess_task s1 of
             Some (TaskRunning conn channels patterns) \<Rightarrow>
               (case handle_pubsub_command L conn srv1 channels patterns op args of
                  (srv2, (channels', patterns'), res) \<Rightarrow>
                    (srv2, s1\<lparr>sess_task := Some (TaskRunning conn channels' patterns')\<rparr>,
                     case res of Ok frames \<Rightarrow> concat frames | Err e \<Rightarrow> err_frame e))
           | _ \<Rightarrow>
               (srv1, s1,
                if fresh \<and> \<not> task_ends_first L srv1 then err_frame ''pubsub response channel closed''
                else err_frame ''pubsub session is unavailable'')))"

definition execute_command ::
  "'s session_lib \<Rightarrow> 's \<Rightarrow> compat_session \<Rightarrow> bytes list \<Rightarrow> 's \<times> compat_session \<times> bytes" where
  "execute_command L srv s0 args =
     (let s = touch (clock L srv) s0 in
      case args of
        [] \<Rightarrow> (srv, s, ''-ERR Empty command'' @ crlf)
      | name # rest \<Rightarrow>
          let cmd = to_ascii_uppercase (from_utf8_lossy name) in
          if pubsub_op_of cmd \<noteq> None then execute_pubsub_control L srv s cmd rest
          else (case session_query L srv (sess_conn s) (cmd # rest) of
              (srv', Ok v) \<Rightarrow> (srv', s, value_to_resp v)
            | (srv', Err e) \<Rightarrow> (srv', s, err_frame e)))"

section \<open>A sample world\<close>

text \<open>A world that is its clock, in which every call succeeds.\<close>

definition sample_lib :: "nat session_lib" where
  "sample_lib =
     \<lparr>clock = (\<lambda>s. s), new_uuid = (\<lambda>s. (s, ''u'')), connect_command = (\<lambda>s. (s, Ok 1)),
      session_query = (\<lambda>s _ _. (s, Ok Okay)), connect_pubsub = (\<lambda>s. (s, Ok 2)),
      pubsub_call = (\<lambda>_ s _ _. (s, Ok ())), iteration_order = (\<lambda>xs. xs), task_ends_first = (\<lambda>_. False)\<rparr>"

section \<open>What subscription commands do\<close>

definition calls_succeed :: "'s session_lib \<Rightarrow> bool" where
  "calls_succeed L \<longleftrightarrow> (\<forall>op srv conn t. \<exists>srv'. pubsub_call L op srv conn t = (srv', Ok ()))"

text \<open>A \<^verbatim>\<open>HashSet\<close> yields each of its elements once.\<close>

definition iteration_law :: "'s session_lib \<Rightarrow> bool" where
  "iteration_law L \<longleftrightarrow> (\<forall>xs. set (iteration_order L xs) = set xs)"

lemma hs_insert_set [simp]: "set (hs_insert x xs) = insert x (set xs)"
  by (auto simp: hs_insert_def)

lemma hs_remove_set [simp]: "set (hs_remove x xs) = set xs - {x}"
  by (auto simp: hs_remove_def)

lemma hs_distinct [wf_intros]:
  "distinct xs \<Longrightarrow> distinct (hs_insert x xs)" "distinct xs \<Longrightarrow> distinct (hs_remove x xs)"
  by (auto simp: hs_insert_def hs_remove_def)

lemma pubsub_each_distinct:
  assumes "\<And>t xs. distinct xs \<Longrightarrow> distinct (upd t xs)" and "distinct names"
    and "pubsub_each call label upd other srv names ts replies = (srv', names', res)"
  shows "distinct names'"
  using assms(2,3)
proof (induction ts arbitrary: srv names replies)
  case (Cons t ts)
  show ?case
    using Cons.IH [OF assms(1) [OF Cons.prems(1)]] Cons.prems
    by (auto simp: Let_def split: prod.splits sum.splits)
qed simp

lemma pubsub_each_ok:
  assumes "\<And>srv t. \<exists>srv'. call srv t = (srv', Ok ())"
  shows "\<exists>srv' frames. pubsub_each call label upd other srv names ts replies =
      (srv', fold upd ts names, Ok (replies @ frames)) \<and>
    length frames = length ts \<and>
    (ts \<noteq> [] \<longrightarrow> last frames = count_frame label (last ts) (length (fold upd ts names) + other))"
proof (induction ts arbitrary: srv names replies)
  case (Cons t ts)
  obtain srv1 where call: "call srv t = (srv1, Ok ())"
    using assms by blast
  let ?f = "count_frame label t (length (upd t names) + other)"
  obtain srv2 frames where IH:
    "pubsub_each call label upd other srv1 (upd t names) ts (replies @ [?f]) =
       (srv2, fold upd ts (upd t names), Ok ((replies @ [?f]) @ frames))"
    "length frames = length ts"
    "ts \<noteq> [] \<longrightarrow> last frames = count_frame label (last ts) (length (fold upd ts (upd t names)) + other)"
    using Cons.IH [of srv1 "upd t names" "replies @ [?f]"] by blast
  then show ?case
    by (intro exI [of _ srv2] exI [of _ "?f # frames"]) (auto simp: call Let_def)
qed simp

lemma fold_hs_insert_set: "set (fold hs_insert ts xs) = set xs \<union> set ts"
  by (induction ts arbitrary: xs) auto

lemma fold_hs_remove: "fold hs_remove ts xs = filter (\<lambda>x. x \<notin> set ts) xs"
proof (induction ts arbitrary: xs)
  case (Cons t ts)
  then show ?case
    by (auto simp: hs_remove_def intro!: filter_cong)
qed (simp add: filter_True)

lemma fold_hs_insert_prefix: "\<exists>ys. fold hs_insert ts xs = xs @ ys \<and> set ys \<subseteq> set ts"
proof (induction ts arbitrary: xs)
  case (Cons t ts)
  obtain ys where "fold hs_insert ts (hs_insert t xs) = hs_insert t xs @ ys" "set ys \<subseteq> set ts"
    using Cons.IH by blast
  then show ?case
    by (cases "t \<in> set xs") (auto simp: hs_insert_def [of t])
qed simp



text \<open>UNSUBSCRIBE and PUNSUBSCRIBE without arguments drop every channel, respectively every pattern.\<close>

lemma unsubscribe_all:
  assumes "calls_succeed L" and "iteration_law L"
  shows "fst (fst (snd (handle_pubsub_command L conn srv channels patterns ''UNSUBSCRIBE'' []))) = [] \<and>
    snd (fst (snd (handle_pubsub_command L conn srv channels patterns ''PUNSUBSCRIBE'' []))) = []"
proof -
  have ok: "\<exists>srv'. pubsub_call L op srv conn t = (srv', Ok ())" for op srv t
    using assms(1) by (simp add: calls_succeed_def)
  have "fst (snd (remove_names L op conn other srv names [])) = []" for op other names
    using pubsub_each_ok [of "\<lambda>srv t. pubsub_call L op srv conn t" "op_label op" hs_remove other srv names
        "iteration_order L names" "[]"] ok assms(2)
    by (auto simp: remove_names_def Let_def iteration_law_def fold_hs_remove filter_empty_conv
        dest: arg_cong [of _ _ set])
  then show ?thesis
    by (simp add: handle_pubsub_command_def pubsub_op_of_def split: prod.splits) (metis fst_conv snd_conv)
qed

text \<open>A subscription task that has ended is never started again: every later subscription command of the session
  is refused, and the task stays ended.\<close>

theorem ended_task_is_final:
  assumes "sess_task s = Some TaskEnded"
    and "pubsub_op_of (to_ascii_uppercase (from_utf8_lossy name)) \<noteq> None"
    and "execute_command L srv s (name # args) = (srv', s', frame)"
  shows "frame = err_frame ''pubsub session is unavailable'' \<and> sess_task s' = Some TaskEnded \<and> srv' = srv"
  using assms
  by (auto simp: execute_command_def execute_pubsub_control_def ensure_pubsub_task_def touch_def Let_def)

theorem ended_task_is_final_witness:
  "\<exists>srv' s' frame. execute_command sample_lib 9 ((session_new ''u'' 1 0)\<lparr>sess_task := Some TaskEnded\<rparr>)
      (''SUBSCRIBE'' # [''a'']) = (srv', s', frame) \<and> frame = err_frame ''pubsub session is unavailable''"
proof -
  obtain srv' s' frame where ex: "execute_command sample_lib 9
      ((session_new ''u'' 1 0)\<lparr>sess_task := Some TaskEnded\<rparr>) (''SUBSCRIBE'' # [''a'']) = (srv', s', frame)"
    by (metis prod_cases3)
  have "to_ascii_uppercase ''SUBSCRIBE'' = ''SUBSCRIBE''"
    by code_simp
  then have "pubsub_op_of (to_ascii_uppercase (from_utf8_lossy ''SUBSCRIBE'')) \<noteq> None"
    by (simp add: utf8_valid_ascii pubsub_op_of_def)
  with ended_task_is_final [OF _ _ ex] ex show ?thesis
    by simp
qed

section \<open>The path prefix\<close>

lemma pop_slashes_shape:
  "v \<noteq> [] \<Longrightarrow> pop_slashes v \<noteq> [] \<and> hd (pop_slashes v) = hd v \<and> prefix (pop_slashes v) v \<and>
     (pop_slashes v = [hd v] \<or> last (pop_slashes v) \<noteq> CHR ''/'')"
proof (induction v rule: pop_slashes.induct)
  case (1 v)
  show ?case
  proof (cases "last v = CHR ''/'' \<and> 1 < length v")
    case True
    then have "butlast v \<noteq> []" "hd (butlast v) = hd v" "prefix (butlast v) v"
      using "1.prems" by (cases v; simp add: prefixeq_butlast)+
    moreover have "pop_slashes v = pop_slashes (butlast v)"
      using True "1.prems" by (subst pop_slashes.simps) simp
    ultimately show ?thesis
      using "1.IH" True "1.prems" by (auto intro: prefix_order.trans)
  next
    case False
    then have same: "pop_slashes v = v"
      by (subst pop_slashes.simps) auto
    have "v = [hd v] \<or> last v \<noteq> CHR ''/''"
      using False "1.prems" by (cases v) (auto simp: neq_Nil_conv)
    with "1.prems" show ?thesis
      unfolding same by simp
  qed
qed

text \<open>A normalised prefix starts with a slash and, unless it is the root, does not end with one; a prefix
  that already has this form and no white space around it is kept.\<close>

lemma normalize_prefix_shape:
  "hd (normalize_prefix p) = CHR ''/'' \<and>
   (normalize_prefix p = ''/'' \<or> last (normalize_prefix p) \<noteq> CHR ''/'') \<and>
   (neat p \<and> prefix ''/'' p \<and> last p \<noteq> CHR ''/'' \<longrightarrow> normalize_prefix p = p)"
proof -
  let ?v1 = "if prefix ''/'' (trim p) then trim p else ''/'' @ trim p"
  have v1: "?v1 \<noteq> []" "hd ?v1 = CHR ''/''"
    by (auto simp: prefix_def)
  have "normalize_prefix p = pop_slashes ?v1"
    using pop_slashes_shape [OF v1(1)] by (simp add: normalize_prefix_def Let_def)
  moreover have "pop_slashes p = p" if "last p \<noteq> CHR ''/''"
    using that by (subst pop_slashes.simps) simp
  ultimately show ?thesis
    using pop_slashes_shape [OF v1(1)] v1(2) by (auto simp: trim_neat)
qed

end
