(* ===== verification/Compat_Api.thy ===== *)
theory Compat_Api
  imports Compat_Session
begin

text \<open>
  The session manager of \<^verbatim>\<open>crates/redis-web-runtime/src/compat.rs\<close> and the HTTP and WebSocket handlers
  over it. The session table is an association list with one entry per identifier; a handler
  works on the session object and what it does to it is written back.
\<close>

section \<open>The session manager\<close>

type_synonym sessions = "(str \<times> compat_session) list"

record 's compat_state =
  sessions :: sessions
  world :: 's

datatype create_session_error = LimitReached | BackendUnavailable str

definition expired :: "compat_settings \<Rightarrow> nat \<Rightarrow> compat_session \<Rightarrow> bool" where
  "expired cfg now s \<longleftrightarrow> set_session_ttl cfg * 10 ^ 9 < idle_for now s"

definition sweep_expired :: "'s session_lib \<Rightarrow> compat_settings \<Rightarrow> 's compat_state \<Rightarrow> 's compat_state" where
  "sweep_expired L cfg st =
     (let now = clock L (world st);
          gone = map fst (filter (\<lambda>(_, s). expired cfg now s) (sessions st))
      in if gone = [] then st
         else st\<lparr>sessions := filter (\<lambda>(i, _). i \<notin> set gone) (sessions st)\<rparr>)"

definition limit_reached :: "compat_settings \<Rightarrow> sessions \<Rightarrow> bool" where
  "limit_reached cfg ss \<longleftrightarrow> set_max_sessions cfg \<le> length ss"

definition open_session ::
  "'s session_lib \<Rightarrow> 's \<Rightarrow> 's \<times> (compat_session, create_session_error) result" where
  "open_session L srv =
     (case connect_command L srv of
        (srv1, Err e) \<Rightarrow>
          (srv1, Err (BackendUnavailable (''failed to create compat command connection: '' @ e)))
      | (srv1, Ok conn) \<Rightarrow>
          (case new_uuid L srv1 of (srv2, i) \<Rightarrow> (srv2, Ok (session_new i conn (clock L srv2)))))"

definition manager_create_session ::
  "'s session_lib \<Rightarrow> compat_settings \<Rightarrow> 's compat_state \<Rightarrow>
   's compat_state \<times> (compat_session, create_session_error) result" where
  "manager_create_session L cfg st0 =
     (let st = sweep_expired L cfg st0 in
      if limit_reached cfg (sessions st) then (st, Err LimitReached)
      else (case open_session L (world st) of
          (srv, Err e) \<Rightarrow> (st\<lparr>world := srv\<rparr>, Err e)
        | (srv, Ok s) \<Rightarrow>
            (\<lparr>sessions = AList.update (sess_id s) s (sessions st), world = srv\<rparr>, Ok s)))"

definition manager_get_session ::
  "'s session_lib \<Rightarrow> compat_settings \<Rightarrow> 's compat_state \<Rightarrow> str \<Rightarrow>
   's compat_state \<times> compat_session option" where
  "manager_get_session L cfg st0 i =
     (let st = sweep_expired L cfg st0 in
      case map_of (sessions st) i of
        None \<Rightarrow> (st, None)
      | Some s \<Rightarrow>
          let s' = touch (clock L (world st)) s
          in (st\<lparr>sessions := AList.update i s' (sessions st)\<rparr>, Some s'))"

definition remove_session :: "'s compat_state \<Rightarrow> str \<Rightarrow> 's compat_state \<times> bool" where
  "remove_session st i =
     (st\<lparr>sessions := AList.delete i (sessions st)\<rparr>, map_of (sessions st) i \<noteq> None)"

section \<open>Helpers of the handlers\<close>

definition with_cors :: "response \<Rightarrow> response" where
  "with_cors r = set_header ''access-control-allow-origin'' ''*'' r"

definition resp_plain :: "nat \<Rightarrow> bytes \<Rightarrow> response" where
  "resp_plain st payload = typed_response st ''text/plain'' payload"

definition normalize_raw_session_path :: "str \<Rightarrow> str" where
  "normalize_raw_session_path raw =
     (case strip_suffix ''.raw'' raw of Some s \<Rightarrow> s | None \<Rightarrow> raw)"

definition extract_auth_header :: "externals \<Rightarrow> (str \<rightharpoonup> bytes) \<Rightarrow> str option" where
  "extract_auth_header X hs =
     (case hs ''authorization'' of None \<Rightarrow> None | Some v \<Rightarrow> header_to_str X v)"

definition is_command_allowed ::
  "externals \<Rightarrow> acl_rule list \<Rightarrow> ip_addr \<Rightarrow> str option \<Rightarrow> bytes list \<Rightarrow> bool" where
  "is_command_allowed X rules addr auth args =
     (case args of [] \<Rightarrow> True | name # _ \<Rightarrow> acl_check X rules addr (from_utf8_lossy name) auth)"

datatype parse_result = Command "bytes list" | NeedMore | Invalid

definition parse_next_command :: "bytes \<Rightarrow> (parse_result \<times> bytes) outcome" where
  "parse_next_command buffer =
     (case parse_command buffer of
        Panic \<Rightarrow> Panic
      | Return (Inr (Some (args, consumed))) \<Rightarrow> Return (Command args, drop consumed buffer)
      | Return (Inr None) \<Rightarrow> Return (NeedMore, buffer)
      | Return (Inl _) \<Rightarrow> Return (Invalid, buffer))"

lemma parse_next_command_shorter [shrink]:
  "parse_next_command buf = Return (Command args, buf') \<Longrightarrow> length buf' < length buf"
  by (auto simp: parse_next_command_def split: outcome.splits sum.splits option.splits
      dest!: parse_command_consumed)

section \<open>The command endpoint\<close>

record 's command_run =
  run_world :: 's
  run_session :: compat_session
  run_count :: nat
  run_out :: bytes

definition run_command ::
  "externals \<Rightarrow> 's session_lib \<Rightarrow> acl_rule list \<Rightarrow> ip_addr \<Rightarrow> str option \<Rightarrow> bytes list \<Rightarrow>
   's command_run \<Rightarrow> 's command_run" where
  "run_command X L rules addr auth args r =
     (if \<not> is_command_allowed X rules addr auth args
      then r\<lparr>run_count := Suc (run_count r), run_out := run_out r @ err_frame ''forbidden''\<rparr>
      else (case execute_command L (run_world r) (run_session r) args of
          (srv, s, frame) \<Rightarrow>
            \<lparr>run_world = srv, run_session = s, run_count = Suc (run_count r),
             run_out = run_out r @ frame\<rparr>))"

function command_raw_loop ::
  "externals \<Rightarrow> 's session_lib \<Rightarrow> acl_rule list \<Rightarrow> nat \<Rightarrow> ip_addr \<Rightarrow> str option \<Rightarrow> bytes \<Rightarrow>
   's command_run \<Rightarrow> 's command_run \<times> response outcome" where
  "command_raw_loop X L rules limit addr auth buf r =
     (if buf = [] then (r, Return (resp_plain 200 (run_out r)))
      else (case parse_next_command buf of
          Panic \<Rightarrow> (r, Panic)
        | Return (Command args, buf') \<Rightarrow>
            if limit < Suc (run_count r)
            then (r, Return (resp_plain 400 (''-ERR Pipelined command limit exceeded'' @ crlf)))
            else command_raw_loop X L rules limit addr auth buf' (run_command X L rules addr auth args r)
        | Return (NeedMore, _) \<Rightarrow>
            (r, Return (resp_plain 400 (''-ERR Incomplete RESP command'' @ crlf)))
        | Return (Invalid, _) \<Rightarrow>
            (r, Return (resp_plain 400 (''-ERR Invalid RESP command'' @ crlf)))))"
  by pat_completeness auto
termination
  by (relation "measure (\<lambda>(X, L, rules, limit, addr, auth, buf, r). length buf)")
    (auto dest!: parse_next_command_shorter)

declare command_raw_loop.simps [simp del]

text \<open>The handlers: \<^term>\<open>None\<close> for the settings means that the API is disabled.\<close>

definition compat_disabled :: response where
  "compat_disabled = with_cors (plain_response 404 ''compat disabled'')"

definition session_not_found :: response where
  "session_not_found = with_cors (plain_response 404 ''session not found'')"

definition command_raw ::
  "externals \<Rightarrow> 's session_lib \<Rightarrow> acl_rule list \<Rightarrow> compat_settings option \<Rightarrow> 's compat_state \<Rightarrow>
   str \<Rightarrow> ip_addr \<Rightarrow> (str \<rightharpoonup> bytes) \<Rightarrow> bytes \<Rightarrow> 's compat_state \<times> response outcome" where
  "command_raw X L rules manager st session_path addr hs body =
     (case manager of
        None \<Rightarrow> (st, Return compat_disabled)
      | Some cfg \<Rightarrow>
          let i = normalize_raw_session_path session_path in
          (case manager_get_session L cfg st i of
             (st1, None) \<Rightarrow> (st1, Return session_not_found)
           | (st1, Some s) \<Rightarrow>
               if body = []
               then (st1, Return (with_cors (resp_plain 400 (''-ERR Empty command body'' @ crlf))))
               else (case command_raw_loop X L rules (set_max_pipeline cfg) addr
                            (extract_auth_header X hs) body
                            \<lparr>run_world = world st1, run_session = s, run_count = 0, run_out = []\<rparr> of
                   (r, resp) \<Rightarrow>
                     (\<lparr>sessions = AList.update i (run_session r) (sessions st1), world = run_world r\<rparr>,
                      bind_outcome resp (\<lambda>x. Return (with_cors x))))))"

definition session_body :: "str \<Rightarrow> compat_settings \<Rightarrow> nat \<Rightarrow> compat_session \<Rightarrow> json" where
  "session_body host cfg now s =
     (let base = host @ set_path_prefix cfg in
      JObject (fill_map []
        [(''id'', JString (sess_id s)),
         (''session_id'', JString (sess_id s)),
         (''created_at_ms'', JNumber (int ((now - sess_created_at s) div 10 ^ 6))),
         (''ws_url'', JString (''ws://'' @ base @ ''/ws/'' @ sess_id s)),
         (''cmd_url'', JString (''http://'' @ base @ ''/cmd/'' @ sess_id s @ ''.raw'')),
         (''stream_url'', JString (''http://'' @ base @ ''/stream/'' @ sess_id s @ ''.raw'')),
         (''session_ttl_sec'', JNumber (int (set_session_ttl cfg)))]))"

definition create_session ::
  "externals \<Rightarrow> 's session_lib \<Rightarrow> compat_settings option \<Rightarrow> 's compat_state \<Rightarrow> (str \<rightharpoonup> bytes) \<Rightarrow>
   's compat_state \<times> response" where
  "create_session X L manager st hs =
     (case manager of
        None \<Rightarrow> (st, compat_disabled)
      | Some cfg \<Rightarrow>
          let host = (case (case hs ''host'' of None \<Rightarrow> None | Some h \<Rightarrow> header_to_str X h) of
                        Some h \<Rightarrow> h | None \<Rightarrow> ''127.0.0.1'') in
          (case manager_create_session L cfg st of
             (st1, Ok s) \<Rightarrow>
               (st1, with_cors (json_response X 201 (session_body host cfg (clock L (world st1)) s)))
           | (st1, Err LimitReached) \<Rightarrow>
               (st1, with_cors (json_response X 429 (error_object ''compat session limit reached'')))
           | (st1, Err (BackendUnavailable e)) \<Rightarrow>
               (st1, with_cors (json_response X 503 (error_object e)))))"

definition delete_session ::
  "compat_settings option \<Rightarrow> 's compat_state \<Rightarrow> str \<Rightarrow> 's compat_state \<times> response" where
  "delete_session manager st i =
     (case manager of
        None \<Rightarrow> (st, compat_disabled)
      | Some cfg \<Rightarrow>
          (case remove_session st i of
             (st1, True) \<Rightarrow> (st1, with_cors (bare_response 204))
           | (st1, False) \<Rightarrow> (st1, session_not_found)))"

text \<open>
  A stream's head, and whether a warning is logged; its body is what the session pushes from then on,
  except the frames a slow reader lags behind on.
\<close>

datatype received = Frame bytes | Lagged | ChannelClosed

fun stream_body :: "received list \<Rightarrow> bytes list" where
  "stream_body [] = []"
| "stream_body (Frame f # rs) = f # stream_body rs"
| "stream_body (Lagged # rs) = stream_body rs"
| "stream_body (ChannelClosed # rs) = []"

definition stream_raw ::
  "'s session_lib \<Rightarrow> bool \<Rightarrow> compat_settings option \<Rightarrow> 's compat_state \<Rightarrow> str \<Rightarrow> received list \<Rightarrow>
   's compat_state \<times> response \<times> bool" where
  "stream_raw L muted manager st session_path rx =
     (case manager of
        None \<Rightarrow> (st, compat_disabled, False)
      | Some cfg \<Rightarrow>
          let i = normalize_raw_session_path session_path in
          (case manager_get_session L cfg st i of
             (st1, None) \<Rightarrow> (st1, session_not_found, False)
           | (st1, Some s) \<Rightarrow>
               (case maybe_emit_http_pubsub_warning muted s of
                  (s', warned) \<Rightarrow>
                    (st1\<lparr>sessions := AList.update i s' (sessions st1)\<rparr>,
                     with_cors (typed_response 200 ''text/plain'' (concat (stream_body rx))), warned))))"

section \<open>The session table\<close>

interpretation session_table: keyed_store map_of AList.update "\<lambda>m. distinct (map fst m)"
  by unfold_locales (simp_all add: update_conv' distinct_update)

text \<open>One entry per identifier, each under its own, and no more than the limit.\<close>

definition sessions_ok :: "compat_settings \<Rightarrow> sessions \<Rightarrow> bool" where
  "sessions_ok cfg ss \<longleftrightarrow>
     distinct (map fst ss) \<and> (\<forall>i s. map_of ss i = Some s \<longrightarrow> sess_id s = i) \<and>
     length ss \<le> set_max_sessions cfg"

lemma map_of_filter_distinct:
  "distinct (map fst m) \<Longrightarrow>
     map_of (filter (\<lambda>(k, v). P k v) m) k =
       (case map_of m k of Some v \<Rightarrow> if P k v then Some v else None | None \<Rightarrow> None)"
proof (induction m)
  case (Cons kv m)
  then have "map_of m (fst kv) = None"
    by (simp add: map_of_eq_None_iff)
  with Cons show ?case
    by (auto split: option.splits)
qed simp

lemma sweep_expired_sessions:
  assumes "distinct (map fst (sessions st))"
  shows "sessions (sweep_expired L cfg st) =
    filter (\<lambda>(_, s). \<not> expired cfg (clock L (world st)) s) (sessions st)"
proof -
  have "i \<in> fst ` {x \<in> set (sessions st). case x of (_, s) \<Rightarrow> expired cfg (clock L (world st)) s} \<longleftrightarrow>
      expired cfg (clock L (world st)) s" if "(i, s) \<in> set (sessions st)" for i s
  proof
    assume "i \<in> fst ` {x \<in> set (sessions st). case x of (_, s) \<Rightarrow> expired cfg (clock L (world st)) s}"
    then obtain s' where "(i, s') \<in> set (sessions st)" "expired cfg (clock L (world st)) s'"
      by auto
    with eq_key_imp_eq_value [OF assms that] show "expired cfg (clock L (world st)) s"
      by blast
  qed (use that in \<open>auto simp: image_iff\<close>)
  then have "filter (\<lambda>(i, _). i \<notin> fst ` {x \<in> set (sessions st).
        case x of (_, s) \<Rightarrow> expired cfg (clock L (world st)) s}) (sessions st) =
      filter (\<lambda>(_, s). \<not> expired cfg (clock L (world st)) s) (sessions st)"
    by (intro filter_cong) auto
  then show ?thesis
    by (auto simp: sweep_expired_def Let_def filter_empty_conv intro!: filter_True [symmetric])
qed

lemma sweep_expired_world [simp]: "world (sweep_expired L cfg st) = world st"
  by (simp add: sweep_expired_def Let_def)

lemma sessions_ok_filter [wf_intros]:
  "sessions_ok cfg ss \<Longrightarrow> sessions_ok cfg (filter (\<lambda>(i, s). P i s) ss)"
  by (auto simp: sessions_ok_def map_of_filter_distinct distinct_map_filter
      split: option.splits if_splits intro: le_trans [OF length_filter_le])

lemma sessions_ok_sweep [wf_intros]:
  "sessions_ok cfg (sessions st) \<Longrightarrow> sessions_ok cfg (sessions (sweep_expired L cfg st))"
  using sessions_ok_filter [of cfg "sessions st" "\<lambda>_ s. \<not> expired cfg (clock L (world st)) s"]
    sweep_expired_sessions [of st L cfg]
  by (simp add: sessions_ok_def)

lemma length_alist_update:
  "length (AList.update k v m) = (if k \<in> fst ` set m then length m else Suc (length m))"
  by (induction m) auto

lemma sessions_ok_update [wf_intros]:
  assumes "sessions_ok cfg ss" and "sess_id s = i"
    and "map_of ss i \<noteq> None \<or> length ss < set_max_sessions cfg"
  shows "sessions_ok cfg (AList.update i s ss)"
  using assms
  by (auto simp: sessions_ok_def distinct_update update_conv' length_alist_update map_of_eq_None_iff)

lemma sessions_ok_delete [wf_intros]:
  "sessions_ok cfg ss \<Longrightarrow> sessions_ok cfg (AList.delete i ss)"
  using le_trans [OF length_delete_le [of i ss]]
  by (auto simp: sessions_ok_def distinct_delete delete_conv' split: if_splits)

lemma manager_create_session_ok [wf_intros]:
  assumes "sessions_ok cfg (sessions st)" and "manager_create_session L cfg st = (st', res)"
  shows "sessions_ok cfg (sessions st')"
  using assms sessions_ok_sweep [OF assms(1), of L]
  by (auto simp: manager_create_session_def limit_reached_def Let_def
      split: if_splits prod.splits sum.splits intro!: sessions_ok_update)

lemma touch_id [simp]: "sess_id (touch now s) = sess_id s"
  by (simp add: touch_def)

lemma manager_get_session_ok [wf_intros]:
  assumes "sessions_ok cfg (sessions st)" and "manager_get_session L cfg st i = (st', res)"
  shows "sessions_ok cfg (sessions st')"
    and "res = Some s \<Longrightarrow> map_of (sessions st') i = Some s \<and> sess_id s = i"
proof -
  have swept: "sessions_ok cfg (sessions (sweep_expired L cfg st))"
    by (rule sessions_ok_sweep [OF assms(1)])
  then show "sessions_ok cfg (sessions st')"
    using assms(2)
    by (auto simp: manager_get_session_def Let_def split: option.splits
        intro!: sessions_ok_update) (simp add: sessions_ok_def)
  show "res = Some s \<Longrightarrow> map_of (sessions st') i = Some s \<and> sess_id s = i"
    using assms(2) swept
    by (auto simp: manager_get_session_def Let_def update_conv' sessions_ok_def split: option.splits)
qed

end
