(* ===== verification/Compat_Ws.thy ===== *)
theory Compat_Ws
  imports Compat_Api
begin

text \<open>
  The session WebSocket of \<^verbatim>\<open>compat.rs\<close> (\<^verbatim>\<open>ws_raw\<close>, \<^verbatim>\<open>handle_ws\<close>), and what a pipeline of commands
  does over the WebSocket and over the command endpoint: both are instances of the command loop
  interface.
\<close>

section \<open>The session socket\<close>

record 's session_socket =
  sock_world :: 's
  sock_session :: compat_session
  sock_sent :: "ws_message list"

type_synonym 's socket_result = "socket_exit \<times> bytes \<times> 's session_socket"

definition reply_to ::
  "externals \<Rightarrow> 's session_lib \<Rightarrow> acl_rule list \<Rightarrow> ip_addr \<Rightarrow> str option \<Rightarrow> bytes list \<Rightarrow>
   's session_socket \<Rightarrow> 's session_socket \<times> bytes" where
  "reply_to X L rules addr auth args k =
     (if \<not> is_command_allowed X rules addr auth args then (k, err_frame ''forbidden'')
      else (case execute_command L (sock_world k) (sock_session k) args of
          (srv, s, frame) \<Rightarrow> (k\<lparr>sock_world := srv, sock_session := s\<rparr>, frame)))"

definition push_sent :: "ws_message \<Rightarrow> 's session_socket \<Rightarrow> 's session_socket" where
  "push_sent m k = k\<lparr>sock_sent := sock_sent k @ [m]\<rparr>"

function session_ws_loop ::
  "externals \<Rightarrow> 's session_lib \<Rightarrow> acl_rule list \<Rightarrow> ip_addr \<Rightarrow> str option \<Rightarrow>
   (ws_message list \<Rightarrow> ws_message \<Rightarrow> bool) \<Rightarrow> bytes \<Rightarrow> 's session_socket \<Rightarrow> 's socket_result" where
  "session_ws_loop X L rules addr auth ok buf k =
     (case parse_next_command buf of
        Panic \<Rightarrow> (Crashed, buf, k)
      | Return (Command args, buf') \<Rightarrow>
          (case reply_to X L rules addr auth args k of
             (k', frame) \<Rightarrow>
               if ok (sock_sent k') (WBinary frame)
               then session_ws_loop X L rules addr auth ok buf' (push_sent (WBinary frame) k')
               else (Closed, buf', k'))
      | Return (NeedMore, _) \<Rightarrow> (Waiting, buf, k)
      | Return (Invalid, _) \<Rightarrow>
          let m = WBinary invalid_resp in
          (Waiting, [], if ok (sock_sent k) m then push_sent m k else k))"
  by pat_completeness auto
termination
  by (relation "measure (\<lambda>(X, L, rules, addr, auth, ok, buf, k). length buf)")
    (auto dest!: parse_next_command_shorter)

declare session_ws_loop.simps [simp del]

text \<open>An event of the socket: something the client sent, or a frame the session pushed.\<close>

datatype session_event = FromClient "(ws_message, unit) result" | Pushed bytes

fun handle_ws ::
  "externals \<Rightarrow> 's session_lib \<Rightarrow> acl_rule list \<Rightarrow> ip_addr \<Rightarrow> str option \<Rightarrow>
   (ws_message list \<Rightarrow> ws_message \<Rightarrow> bool) \<Rightarrow> bytes \<Rightarrow> 's session_socket \<Rightarrow> session_event list \<Rightarrow>
   's socket_result"
  and after_ws_message ::
  "externals \<Rightarrow> 's session_lib \<Rightarrow> acl_rule list \<Rightarrow> ip_addr \<Rightarrow> str option \<Rightarrow>
   (ws_message list \<Rightarrow> ws_message \<Rightarrow> bool) \<Rightarrow> session_event list \<Rightarrow> 's socket_result \<Rightarrow> 's socket_result"
where
  "handle_ws X L rules addr auth ok buf k [] = (Waiting, buf, k)"
| "handle_ws X L rules addr auth ok buf k (Pushed frame # es) =
     handle_ws X L rules addr auth ok buf
       (if ok (sock_sent k) (WBinary frame) then push_sent (WBinary frame) k else k) es"
| "handle_ws X L rules addr auth ok buf k (FromClient (Inl _) # es) = (Closed, buf, k)"
| "handle_ws X L rules addr auth ok buf k (FromClient (Inr (WBinary data)) # es) =
     after_ws_message X L rules addr auth ok es (session_ws_loop X L rules addr auth ok (buf @ data) k)"
| "handle_ws X L rules addr auth ok buf k (FromClient (Inr (WText text)) # es) =
     after_ws_message X L rules addr auth ok es (session_ws_loop X L rules addr auth ok (buf @ text) k)"
| "handle_ws X L rules addr auth ok buf k (FromClient (Inr WClose) # es) = (Closed, buf, k)"
| "handle_ws X L rules addr auth ok buf k (FromClient (Inr (WPing p)) # es) =
     (if ok (sock_sent k) (WPong p)
      then handle_ws X L rules addr auth ok buf (push_sent (WPong p) k) es
      else (Closed, buf, k))"
| "handle_ws X L rules addr auth ok buf k (FromClient (Inr (WPong p)) # es) =
     handle_ws X L rules addr auth ok buf k es"
| "after_ws_message X L rules addr auth ok es (exit, buf, k) =
     (if exit = Waiting then handle_ws X L rules addr auth ok buf k es else (exit, buf, k))"

definition ws_raw ::
  "externals \<Rightarrow> 's session_lib \<Rightarrow> acl_rule list \<Rightarrow> compat_settings option \<Rightarrow> 's compat_state \<Rightarrow> str \<Rightarrow>
   ip_addr \<Rightarrow> (str \<rightharpoonup> bytes) \<Rightarrow> (ws_message list \<Rightarrow> ws_message \<Rightarrow> bool) \<Rightarrow> session_event list \<Rightarrow>
   's compat_state \<times> (response + 's socket_result)" where
  "ws_raw X L rules manager st i addr hs ok es =
     (case manager of
        None \<Rightarrow> (st, Inl compat_disabled)
      | Some cfg \<Rightarrow>
          (case manager_get_session L cfg st i of
             (st1, None) \<Rightarrow> (st1, Inl session_not_found)
           | (st1, Some s) \<Rightarrow>
               (case handle_ws X L rules addr (extract_auth_header X hs) ok []
                       \<lparr>sock_world = world st1, sock_session = s, sock_sent = []\<rparr> es of
                  (exit, buf, k) \<Rightarrow>
                    (\<lparr>sessions = AList.update i (sock_session k) (sessions st1), world = sock_world k\<rparr>,
                     Inr (exit, buf, k)))))"

section \<open>Both loops process pipelines in order\<close>

definition ws_advance ::
  "externals \<Rightarrow> 's session_lib \<Rightarrow> acl_rule list \<Rightarrow> ip_addr \<Rightarrow> str option \<Rightarrow> bytes list \<Rightarrow>
   's session_socket \<Rightarrow> 's session_socket" where
  "ws_advance X L rules addr auth args k =
     (case reply_to X L rules addr auth args k of (k', frame) \<Rightarrow> push_sent (WBinary frame) k')"

definition ws_continues ::
  "externals \<Rightarrow> 's session_lib \<Rightarrow> acl_rule list \<Rightarrow> ip_addr \<Rightarrow> str option \<Rightarrow>
   (ws_message list \<Rightarrow> ws_message \<Rightarrow> bool) \<Rightarrow> bytes list \<Rightarrow> 's session_socket \<Rightarrow> bool" where
  "ws_continues X L rules addr auth ok args k =
     (case reply_to X L rules addr auth args k of (k', frame) \<Rightarrow> ok (sock_sent k') (WBinary frame))"

interpretation session_ws: message_loop
  "session_ws_loop X L rules addr auth ok" "\<lambda>buf k. (Waiting, buf, k)"
  "ws_continues X L rules addr auth ok" "ws_advance X L rules addr auth"
  "\<lambda>buf k chs. handle_ws X L rules addr auth ok buf k (map (\<lambda>ch. FromClient (Inr (WBinary ch))) chs)"
  for X L rules addr auth ok
proof unfold_locales
  show "session_ws_loop X L rules addr auth ok buf k =
      session_ws_loop X L rules addr auth ok (drop n buf) (ws_advance X L rules addr auth args k)"
    if "parse_command buf = Return (Ok (Some (args, n)))" "ws_continues X L rules addr auth ok args k"
    for buf args n k
    using that
    by (subst session_ws_loop.simps)
      (auto simp: parse_next_command_def ws_advance_def ws_continues_def split: prod.splits)
  show "session_ws_loop X L rules addr auth ok buf k = (Waiting, buf, k)"
    if "parse_command buf = Return (Ok None)" for buf k
    using that by (simp add: session_ws_loop.simps parse_next_command_def)
qed simp

text \<open>The endpoint's loop ends when its buffer is empty and refuses an incomplete command.\<close>

definition endpoint_wait :: "bytes \<Rightarrow> 's command_run \<Rightarrow> 's command_run \<times> response outcome" where
  "endpoint_wait buf r =
     (r, Return (if buf = [] then resp_plain 200 (run_out r)
                 else resp_plain 400 (''-ERR Incomplete RESP command'' @ crlf)))"

interpretation endpoint: command_loop
  "command_raw_loop X L rules limit addr auth" endpoint_wait
  "\<lambda>args r. run_count r < limit" "run_command X L rules addr auth"
  for X L rules limit addr auth
proof unfold_locales
  show "command_raw_loop X L rules limit addr auth buf r =
      command_raw_loop X L rules limit addr auth (drop n buf) (run_command X L rules addr auth args r)"
    if "parse_command buf = Return (Ok (Some (args, n)))" "run_count r < limit" for buf args n r
    using that parse_command_consumed [OF that(1)]
    by (subst command_raw_loop.simps) (auto simp: parse_next_command_def)
  show "command_raw_loop X L rules limit addr auth buf r = endpoint_wait buf r"
    if "parse_command buf = Return (Ok None)" for buf r
    using that by (simp add: command_raw_loop.simps parse_next_command_def endpoint_wait_def)
qed

lemma run_count_run_command [simp]:
  "run_count (run_command X L rules addr auth args r) = Suc (run_count r)"
  by (auto simp: run_command_def split: prod.splits)

lemma run_count_fold [simp]:
  "run_count (fold (run_command X L rules addr auth) cs r) = run_count r + length cs"
  by (induction cs arbitrary: r) simp_all

lemma endpoint_continues:
  "run_count r + length cs \<le> limit \<Longrightarrow>
     all_continue (\<lambda>args r. run_count r < limit) (run_command X L rules addr auth) cs r"
  by (induction cs arbitrary: r) simp_all

section \<open>Sessions keep their identity\<close>

lemma ensure_pubsub_task_id:
  "ensure_pubsub_task L srv s = (srv', s') \<Longrightarrow> sess_id s' = sess_id s"
  by (auto simp: ensure_pubsub_task_def split: option.splits prod.splits sum.splits)

lemma execute_pubsub_control_id:
  assumes "execute_pubsub_control L srv s op args = (srv', s', frame)"
  shows "sess_id s' = sess_id s"
proof -
  obtain srv1 s1 where e: "ensure_pubsub_task L srv (s\<lparr>sess_has_pubsub := True\<rparr>) = (srv1, s1)"
    by fastforce
  then have "sess_id s' = sess_id s1"
    using assms
    by (auto simp: execute_pubsub_control_def Let_def split: option.splits prod.splits pubsub_task.splits)
  with ensure_pubsub_task_id [OF e] show ?thesis
    by simp
qed

lemma execute_command_id:
  "execute_command L srv s args = (srv', s', frame) \<Longrightarrow> sess_id s' = sess_id s"
  by (auto simp: execute_command_def Let_def split: list.splits if_splits prod.splits sum.splits
      dest: execute_pubsub_control_id)

lemma run_command_id [simp]:
  "sess_id (run_session (run_command X L rules addr auth args r)) = sess_id (run_session r)"
  by (auto simp: run_command_def split: prod.splits dest: execute_command_id)

lemma command_raw_loop_id:
  "sess_id (run_session (fst (command_raw_loop X L rules limit addr auth buf r))) = sess_id (run_session r)"
proof (induction X L rules limit addr auth buf r rule: command_raw_loop.induct)
  case (1 X L rules limit addr auth buf r)
  then show ?case
    by (subst command_raw_loop.simps)
      (auto split: outcome.splits prod.splits parse_result.splits)
qed

lemma reply_to_id:
  "reply_to X L rules addr auth args k = (k', frame) \<Longrightarrow>
     sess_id (sock_session k') = sess_id (sock_session k)"
  by (auto simp: reply_to_def split: if_splits prod.splits dest: execute_command_id)

lemma session_ws_loop_id:
  "session_ws_loop X L rules addr auth ok buf k = (exit, buf', k') \<Longrightarrow>
     sess_id (sock_session k') = sess_id (sock_session k)"
proof (induction X L rules addr auth ok buf k arbitrary: exit buf' k' rule: session_ws_loop.induct)
  case (1 X L rules addr auth ok buf k)
  show ?case
  proof (cases "parse_next_command buf")
    case Panic
    with 1 show ?thesis by (simp add: session_ws_loop.simps)
  next
    case (Return pr)
    obtain res rest where pr: "pr = (res, rest)" by fastforce
    show ?thesis
    proof (cases res)
      case (Command args)
      obtain k1 frame where r: "reply_to X L rules addr auth args k = (k1, frame)" by fastforce
      show ?thesis
        using "1.IH" [OF Return pr [symmetric] Command r [symmetric]] "1.prems" reply_to_id [OF r]
        by (auto simp: session_ws_loop.simps [of X L rules addr auth ok buf] Return pr Command r
            push_sent_def split: if_splits)
    qed (use "1.prems" Return pr in \<open>auto simp: session_ws_loop.simps Let_def push_sent_def split: if_splits\<close>)
  qed
qed

lemma handle_ws_id:
  "sess_id (sock_session (snd (snd (handle_ws X L rules addr auth ok buf k es)))) =
     sess_id (sock_session k)"
  "sess_id (sock_session (snd (snd (after_ws_message X L rules addr auth ok es res)))) =
     sess_id (sock_session (snd (snd res)))"
proof (induction X L rules addr auth ok buf k es and X L rules addr auth ok es res
    rule: handle_ws_after_ws_message.induct)
  case (4 X L rules addr auth ok buf k data es)
  then show ?case
    using session_ws_loop_id [of X L rules addr auth ok "buf @ data" k] by (metis handle_ws.simps(4) prod.collapse)
next
  case (5 X L rules addr auth ok buf k t es)
  then show ?case
    using session_ws_loop_id [of X L rules addr auth ok "buf @ t" k] by (metis handle_ws.simps(5) prod.collapse)
qed (auto simp: push_sent_def)

section \<open>The API as a transition system\<close>

text \<open>
  One request is one step; between requests time passes and subscription tasks poll their stream.
\<close>

inductive compat_step ::
  "externals \<Rightarrow> 's session_lib \<Rightarrow> acl_rule list \<Rightarrow> compat_settings \<Rightarrow> 's compat_state \<Rightarrow>
   's compat_state \<Rightarrow> bool" for X L rules cfg where
  create: "create_session X L (Some cfg) st hs = (st', resp) \<Longrightarrow> compat_step X L rules cfg st st'"
| delete: "delete_session (Some cfg) st i = (st', resp) \<Longrightarrow> compat_step X L rules cfg st st'"
| command: "command_raw X L rules (Some cfg) st p addr hs body = (st', out) \<Longrightarrow>
    compat_step X L rules cfg st st'"
| stream: "stream_raw L muted (Some cfg) st p rx = (st', resp, warned) \<Longrightarrow>
    compat_step X L rules cfg st st'"
| socket: "ws_raw X L rules (Some cfg) st i addr hs ok es = (st', out) \<Longrightarrow>
    compat_step X L rules cfg st st'"
| poll: "map_of (sessions st) i = Some s \<Longrightarrow>
    compat_step X L rules cfg st (st\<lparr>sessions := AList.update i (task_poll poll s) (sessions st)\<rparr>)"
| tick: "compat_step X L rules cfg st (st\<lparr>world := w\<rparr>)"

definition compat_start :: "'s compat_state \<Rightarrow> bool" where
  "compat_start st \<longleftrightarrow> sessions st = []"

lemma task_poll_id [simp]: "sess_id (task_poll p s) = sess_id s"
  by (cases p) auto

lemma sessions_ok_write_back:
  assumes "sessions_ok cfg (sessions st)" and "manager_get_session L cfg st i = (st1, Some s)"
    and "sess_id s' = sess_id s"
  shows "sessions_ok cfg (AList.update i s' (sessions st1))"
  using manager_get_session_ok [OF assms(1,2)] assms(3) by (intro sessions_ok_update) auto

lemma compat_step_ok:
  assumes "sessions_ok cfg (sessions st)" and "compat_step X L rules cfg st st'"
  shows "sessions_ok cfg (sessions st')"
  using assms(2,1)
proof cases
  case (create hs resp)
  obtain st1 res where m: "manager_create_session L cfg st = (st1, res)" by fastforce
  then have "st' = st1"
    using create by (auto simp: create_session_def Let_def split: sum.splits create_session_error.splits)
  with manager_create_session_ok [OF assms(1) m] show ?thesis by simp
next
  case (delete i resp)
  then show ?thesis
    using assms(1) by (auto simp: delete_session_def remove_session_def
        split: bool.splits intro: sessions_ok_delete)
next
  case (command p addr hs body out)
  let ?i = "normalize_raw_session_path p"
  obtain st1 found where g: "manager_get_session L cfg st ?i = (st1, found)" by fastforce
  show ?thesis
  proof (cases "found = None \<or> body = []")
    case True
    then have "st' = st1"
      using command g by (auto simp: command_raw_def Let_def split: option.splits)
    with manager_get_session_ok(1) [OF assms(1) g] show ?thesis by simp
  next
    case False
    then obtain s where found: "found = Some s" and "body \<noteq> []" by auto
    then have "sessions st' = AList.update ?i (run_session (fst (command_raw_loop X L rules
        (set_max_pipeline cfg) addr (extract_auth_header X hs) body
        \<lparr>run_world = world st1, run_session = s, run_count = 0, run_out = []\<rparr>))) (sessions st1)"
      using command g by (auto simp: command_raw_def Let_def split: prod.splits)
    then show ?thesis
      using sessions_ok_write_back [OF assms(1) g [unfolded found]] by (simp add: command_raw_loop_id)
  qed
next
  case (stream muted p rx resp warned)
  then show ?thesis
    using assms(1)
    by (auto simp: stream_raw_def Let_def maybe_emit_http_pubsub_warning_def
        split: prod.splits option.splits if_splits
        intro: manager_get_session_ok(1) intro!: sessions_ok_write_back)
next
  case (socket i addr hs ok es out)
  obtain st1 found where g: "manager_get_session L cfg st i = (st1, found)" by fastforce
  show ?thesis
  proof (cases found)
    case None
    then have "st' = st1"
      using socket g by (simp add: ws_raw_def)
    with manager_get_session_ok(1) [OF assms(1) g] show ?thesis by simp
  next
    case (Some s)
    then have "sessions st' = AList.update i (sock_session (snd (snd (handle_ws X L rules addr
        (extract_auth_header X hs) ok []
        \<lparr>sock_world = world st1, sock_session = s, sock_sent = []\<rparr> es)))) (sessions st1)"
      using socket g by (auto simp: ws_raw_def split: prod.splits)
    then show ?thesis
      using sessions_ok_write_back [OF assms(1) g [unfolded Some]] by (simp add: handle_ws_id)
  qed
next
  case (poll i s p)
  then have "sess_id s = i" using assms(1) by (simp add: sessions_ok_def)
  with poll assms(1) show ?thesis by (auto intro: sessions_ok_update)
qed (use assms(1) in simp)

interpretation compat_api: invariant_system
  compat_start "compat_step X L rules cfg" "\<lambda>st. sessions_ok cfg (sessions st)"
  for X L rules cfg
proof unfold_locales
  show "compat_start st \<Longrightarrow> sessions_ok cfg (sessions st)" for st :: "'s compat_state"
    by (simp add: compat_start_def sessions_ok_def)
qed (rule compat_step_ok)

section \<open>A sample table\<close>

definition sample_settings :: compat_settings where
  "sample_settings =
     \<lparr>set_enabled = True, set_path_prefix = ''/__compat'', set_session_ttl = 300, set_max_sessions = 4,
      set_max_pipeline = 2\<rparr>"

definition sample_state :: "nat compat_state" where
  "sample_state = \<lparr>sessions = [(''u'', session_new ''u'' 1 0)], world = 5\<rparr>"

lemma sample_raw_path: "normalize_raw_session_path ''u.raw'' = ''u''"
  by (simp add: normalize_raw_session_path_def strip_suffix_def suffix_def)

lemma sample_found:
  "manager_get_session sample_lib sample_settings sample_state ''u'' =
     (sample_state\<lparr>sessions := [(''u'', session_new ''u'' 1 0\<lparr>sess_last_access := 5\<rparr>)]\<rparr>,
      Some (session_new ''u'' 1 0\<lparr>sess_last_access := 5\<rparr>))"
  by (simp add: manager_get_session_def sweep_expired_def expired_def idle_for_def sample_lib_def
      sample_settings_def sample_state_def session_new_def touch_def Let_def)

lemma sample_fits: "command_fits [''PING'']"
  by (simp add: command_fits_def isize_max_eq)

section \<open>Requests to a session\<close>

text \<open>C11. In every state the API can reach, the session table has one entry per identifier, each session under its
  own, and no more sessions than the limit, when requests do not overlap.\<close>

theorem compat_sessions_invariant:
  assumes "reachable compat_start (compat_step X L rules cfg) st"
  shows "sessions_ok cfg (sessions st)"
  using assms by (rule compat_api.reachable_inv)

theorem compat_sessions_invariant_witness:
  "\<exists>st. reachable compat_start (compat_step sample_externals sample_lib [] sample_settings) st \<and>
     length (sessions st) = 1 \<and> sessions_ok sample_settings (sessions st)"
proof -
  let ?s0 = "\<lparr>sessions = [], world = 0 :: nat\<rparr>"
  have "reachable compat_start (compat_step sample_externals sample_lib [] sample_settings) ?s0"
    by (rule reach_start) (simp add: compat_start_def)
  moreover obtain st resp where st: "create_session sample_externals sample_lib (Some sample_settings) ?s0
      Map.empty = (st, resp)" by fastforce
  ultimately have r: "reachable compat_start (compat_step sample_externals sample_lib [] sample_settings) st"
    by (meson reach_step compat_step.create)
  have "length (sessions st) = 1"
    using st by (auto simp: create_session_def manager_create_session_def sweep_expired_def limit_reached_def
        open_session_def sample_lib_def sample_settings_def)
  with compat_sessions_invariant [OF r] r show ?thesis
    by blast
qed

lemma manager_get_session_found:
  assumes "sessions_ok cfg (sessions st)"
  shows "snd (manager_get_session L cfg st i) =
    (case map_of (sessions st) i of
       Some s \<Rightarrow> if expired cfg (clock L (world st)) s then None else Some (touch (clock L (world st)) s)
     | None \<Rightarrow> None)"
proof -
  have "distinct (map fst (sessions st))"
    using assms by (simp add: sessions_ok_def)
  then show ?thesis
    by (auto simp: manager_get_session_def Let_def sweep_expired_sessions
        map_of_filter_distinct [where P = "\<lambda>_ s. \<not> expired cfg (clock L (world st)) s"]
        split: option.splits)
qed

lemma command_raw_not_found:
  assumes "snd (manager_get_session L cfg st (normalize_raw_session_path p)) = None"
  shows "snd (command_raw X L rules (Some cfg) st p addr hs body) = Return session_not_found"
  using assms by (auto simp: command_raw_def Let_def split: prod.splits)

lemma command_raw_found:
  assumes "manager_get_session L cfg st (normalize_raw_session_path p) = (st1, Some s)" and "body \<noteq> []"
  shows "command_raw X L rules (Some cfg) st p addr hs body =
    (let (r, resp) = command_raw_loop X L rules (set_max_pipeline cfg) addr (extract_auth_header X hs) body
        \<lparr>run_world = world st1, run_session = s, run_count = 0, run_out = []\<rparr>
     in (\<lparr>sessions = AList.update (normalize_raw_session_path p) (run_session r) (sessions st1),
          world = run_world r\<rparr>, bind_outcome resp (\<lambda>x. Return (with_cors x))))"
  using assms by (simp add: command_raw_def Let_def)

text \<open>
  What a sequence of commands does to a session, and the frame each is answered with, in order: the
  specification the two endpoints of a session are held to.
\<close>

fun session_transcript ::
  "externals \<Rightarrow> 's session_lib \<Rightarrow> acl_rule list \<Rightarrow> ip_addr \<Rightarrow> str option \<Rightarrow> 's \<Rightarrow> compat_session \<Rightarrow>
   bytes list list \<Rightarrow> 's \<times> compat_session \<times> bytes list" where
  "session_transcript X L rules addr auth srv s [] = (srv, s, [])"
| "session_transcript X L rules addr auth srv s (c # cs) =
     (let (srv1, s1, frame) =
        (if is_command_allowed X rules addr auth c then execute_command L srv s c
         else (srv, s, err_frame ''forbidden''));
        (srv2, s2, frames) = session_transcript X L rules addr auth srv1 s1 cs
      in (srv2, s2, frame # frames))"

lemma fold_run_command:
  assumes "session_transcript X L rules addr auth (run_world r) (run_session r) cs = (srv, s, frames)"
  shows "fold (run_command X L rules addr auth) cs r =
    \<lparr>run_world = srv, run_session = s, run_count = run_count r + length cs, run_out = run_out r @ concat frames\<rparr>"
  using assms
proof (induction cs arbitrary: r frames)
  case Nil
  then show ?case by simp
next
  case (Cons c cs)
  obtain srv1 s1 frame where one: "(if is_command_allowed X rules addr auth c
      then execute_command L (run_world r) (run_session r) c
      else (run_world r, run_session r, err_frame ''forbidden'')) = (srv1, s1, frame)"
    by (metis prod_cases3)
  obtain frames' where rest: "session_transcript X L rules addr auth srv1 s1 cs = (srv, s, frames')"
    and frames: "frames = frame # frames'"
    using Cons.prems one by (auto split: prod.splits)
  have "run_command X L rules addr auth c r =
      \<lparr>run_world = srv1, run_session = s1, run_count = Suc (run_count r), run_out = run_out r @ frame\<rparr>"
    using one by (auto simp: run_command_def split: if_splits)
  with Cons.IH [of "run_command X L rules addr auth c r"] rest frames show ?case
    by simp
qed

text \<open>C10. A pipeline of commands within the limit is executed in order on one session, and the answer is their
  replies one after the other.\<close>

theorem pipeline_in_order:
  assumes "manager_get_session L cfg st (normalize_raw_session_path p) = (st1, Some s)"
    and "list_all command_fits cs" and "cs \<noteq> []" and "length cs \<le> set_max_pipeline cfg"
    and "session_transcript X L rules addr (extract_auth_header X hs) (world st1) s cs = (srv, s', frames)"
  shows "command_raw X L rules (Some cfg) st p addr hs (command_stream cs) =
    (\<lparr>sessions = AList.update (normalize_raw_session_path p) s' (sessions st1), world = srv\<rparr>,
     Return (with_cors (resp_plain 200 (concat frames))))"
proof -
  let ?r0 = "\<lparr>run_world = world st1, run_session = s, run_count = 0, run_out = []\<rparr>"
  have "command_stream cs \<noteq> []"
    using assms(3) by (cases cs) auto
  moreover have "command_raw_loop X L rules (set_max_pipeline cfg) addr (extract_auth_header X hs)
      (command_stream cs) ?r0 =
      (\<lparr>run_world = srv, run_session = s', run_count = length cs, run_out = concat frames\<rparr>,
       Return (resp_plain 200 (concat frames)))"
    using endpoint.loop_whole_stream [OF assms(2) endpoint_continues, of ?r0] assms(4)
      fold_run_command [of X L rules addr _ ?r0] assms(5)
    by (simp add: endpoint_wait_def)
  ultimately show ?thesis
    by (simp add: command_raw_found [OF assms(1)])
qed

lemma sample_transcript:
  "session_transcript sample_externals sample_lib [] (V4 1) (extract_auth_header sample_externals Map.empty)
     srv s [[''PING''], [''PING'']] = (srv1, s1, frames) \<Longrightarrow> frames = [value_to_resp Okay, value_to_resp Okay]"
proof -
  have "to_ascii_uppercase ''PING'' = ''PING''"
    by code_simp
  then show "session_transcript sample_externals sample_lib [] (V4 1) (extract_auth_header sample_externals Map.empty)
     srv s [[''PING''], [''PING'']] = (srv1, s1, frames) \<Longrightarrow> frames = [value_to_resp Okay, value_to_resp Okay]"
    by (auto simp: is_command_allowed_def acl_check_def execute_command_def utf8_valid_ascii
        pubsub_op_of_def sample_lib_def simp del: value_to_resp.simps)
qed

theorem pipeline_in_order_witness:
  "\<exists>st'. command_raw sample_externals sample_lib [] (Some sample_settings) sample_state ''u.raw'' (V4 1) Map.empty
      (command_stream [[''PING''], [''PING'']]) =
    (st', Return (with_cors (resp_plain 200 (value_to_resp Okay @ value_to_resp Okay))))"
proof -
  obtain st1 s where found: "manager_get_session sample_lib sample_settings sample_state
      (normalize_raw_session_path ''u.raw'') = (st1, Some s)"
    using sample_found [folded sample_raw_path] by blast
  obtain srv s' frames where t: "session_transcript sample_externals sample_lib [] (V4 1)
      (extract_auth_header sample_externals Map.empty) (world st1) s [[''PING''], [''PING'']] = (srv, s', frames)"
    by (metis prod_cases3)
  show ?thesis
    using pipeline_in_order [OF found _ _ _ t] sample_transcript [OF t] sample_fits
    by (simp add: sample_settings_def del: value_to_resp.simps)
qed

text \<open>A pipeline over the limit is answered 400 with no replies, after the commands up to the limit have been
  executed.\<close>

theorem pipeline_over_limit:
  assumes "manager_get_session L cfg st (normalize_raw_session_path p) = (st1, Some s)"
    and "list_all command_fits (cs @ c # ds)" and "length cs = set_max_pipeline cfg"
    and "session_transcript X L rules addr (extract_auth_header X hs) (world st1) s cs = (srv, s', frames)"
  shows "command_raw X L rules (Some cfg) st p addr hs (command_stream (cs @ c # ds)) =
    (\<lparr>sessions = AList.update (normalize_raw_session_path p) s' (sessions st1), world = srv\<rparr>,
     Return (with_cors (resp_plain 400 (''-ERR Pipelined command limit exceeded'' @ crlf))))"
proof -
  let ?r0 = "\<lparr>run_world = world st1, run_session = s, run_count = 0, run_out = []\<rparr>"
  let ?ran = "\<lparr>run_world = srv, run_session = s', run_count = length cs, run_out = concat frames\<rparr>"
  let ?loop = "command_raw_loop X L rules (set_max_pipeline cfg) addr (extract_auth_header X hs)"
  let ?rest = "encode_command c @ command_stream ds"
  have "?loop (command_stream cs @ ?rest) ?r0 = ?loop ?rest ?ran"
    using endpoint.loop_stream [OF _ endpoint_continues, of cs ?r0] assms(2,3)
      fold_run_command [of X L rules addr _ ?r0] assms(4) by simp
  also have "\<dots> = (?ran, Return (resp_plain 400 (''-ERR Pipelined command limit exceeded'' @ crlf)))"
    using assms(2,3) by (subst command_raw_loop.simps) (simp add: parse_next_command_def parse_command_encode)
  finally show ?thesis
    by (simp add: command_raw_found [OF assms(1)])
qed

theorem pipeline_over_limit_witness:
  "\<exists>st'. command_raw sample_externals sample_lib [] (Some sample_settings) sample_state ''u.raw'' (V4 1) Map.empty
      (command_stream ([[''PING''], [''PING'']] @ [''PING''] # [])) =
    (st', Return (with_cors (resp_plain 400 (''-ERR Pipelined command limit exceeded'' @ crlf))))"
proof -
  obtain st1 s where found: "manager_get_session sample_lib sample_settings sample_state
      (normalize_raw_session_path ''u.raw'') = (st1, Some s)"
    using sample_found [folded sample_raw_path] by blast
  obtain srv s' frames where t: "session_transcript sample_externals sample_lib [] (V4 1)
      (extract_auth_header sample_externals Map.empty) (world st1) s [[''PING''], [''PING'']] = (srv, s', frames)"
    by (metis prod_cases3)
  show ?thesis
    using pipeline_over_limit [OF found _ _ t, of "[''PING'']" "[]"] sample_fits
    by (simp add: sample_settings_def)
qed

lemma command_raw_loop_status:
  "snd (command_raw_loop X L rules limit addr auth buf r) = Return x \<Longrightarrow> status x \<in> {200, 400}"
proof (induction X L rules limit addr auth buf r rule: command_raw_loop.induct)
  case (1 X L rules limit addr auth buf r)
  note step = "1.prems" [unfolded command_raw_loop.simps [of X L rules limit addr auth buf]]
  from step "1.IH" show ?case
    by (auto simp: resp_plain_def split: if_splits outcome.splits prod.splits parse_result.splits)
qed

lemma command_raw_status:
  assumes "snd (manager_get_session L cfg st (normalize_raw_session_path p)) = Some s"
    and "snd (command_raw X L rules (Some cfg) st p addr hs body) = Return x"
  shows "status x \<in> {200, 400}"
proof -
  obtain st1 where g: "manager_get_session L cfg st (normalize_raw_session_path p) = (st1, Some s)"
    using assms(1) by (cases "manager_get_session L cfg st (normalize_raw_session_path p)") auto
  show ?thesis
  proof (cases "body = []")
    case True
    with assms(2) g show ?thesis
      by (auto simp: command_raw_def with_cors_def resp_plain_def)
  next
    case False
    then show ?thesis
      using assms(2) command_raw_found [OF g False, of X rules addr hs]
        command_raw_loop_status [of X L rules "set_max_pipeline cfg" addr "extract_auth_header X hs" body]
      by (auto simp: with_cors_def bind_outcome_Return_iff split: prod.splits) (metis snd_conv)
  qed
qed

text \<open>C25. A session answers exactly as long as its idle time is within the time to live; after that, and after its
  deletion, the endpoint answers 404.\<close>

theorem session_lifetime:
  assumes "sessions_ok cfg (sessions st)" and "map_of (sessions st) i = Some s"
    and "normalize_raw_session_path p = i"
  shows "(snd (command_raw X L rules (Some cfg) st p addr hs body) = Return session_not_found \<longleftrightarrow>
      set_session_ttl cfg * 10 ^ 9 < clock L (world st) - sess_last_access s) \<and>
    snd (command_raw X L rules (Some cfg) (fst (delete_session (Some cfg) st i)) p addr hs body) =
      Return session_not_found"
proof -
  have "snd (command_raw X L rules (Some cfg) st p addr hs body) = Return session_not_found \<longleftrightarrow>
      snd (manager_get_session L cfg st i) = None"
    using command_raw_not_found [of L cfg st p] command_raw_status [of L cfg st p _ X rules addr hs body]
      assms(3) by (fastforce simp: session_not_found_def with_cors_def)
  moreover have "snd (manager_get_session L cfg (fst (delete_session (Some cfg) st i)) i) = None"
    using assms(1)
    by (subst manager_get_session_found) (auto simp: delete_session_def remove_session_def delete_conv'
        split: bool.splits intro: sessions_ok_delete)
  ultimately show ?thesis
    using assms manager_get_session_found [OF assms(1), of L i]
      command_raw_not_found [of L cfg "fst (delete_session (Some cfg) st i)" p]
    by (simp add: expired_def idle_for_def)
qed

theorem session_lifetime_witness:
  "snd (command_raw sample_externals sample_lib [] (Some sample_settings)
      (fst (delete_session (Some sample_settings) sample_state ''u'')) ''u.raw'' (V4 1) Map.empty ''x'') =
    Return session_not_found"
proof -
  have "sessions_ok sample_settings (sessions sample_state)"
    by (simp add: sessions_ok_def sample_state_def sample_settings_def session_new_def)
  from session_lifetime [OF this _ sample_raw_path, of _ sample_externals sample_lib "[]" "V4 1" Map.empty "''x''"]
  show ?thesis
    by (simp add: sample_state_def)
qed

section \<open>Access rules\<close>

lemma acl_check_uppercase: "acl_check X rules addr (to_ascii_uppercase n) auth = acl_check X rules addr n auth"
  by (rule acl_check_case) (simp add: to_ascii_lowercase_def to_ascii_uppercase_def comp_def)

lemma session_query_unused [simp]:
  "ensure_pubsub_task (L\<lparr>session_query := q\<rparr>) srv s = ensure_pubsub_task L srv s"
  "handle_pubsub_command (L\<lparr>session_query := q\<rparr>) conn srv cs ps op args =
     handle_pubsub_command L conn srv cs ps op args"
  "sweep_expired (L\<lparr>session_query := q\<rparr>) cfg st = sweep_expired L cfg st"
  by (simp_all add: ensure_pubsub_task_def handle_pubsub_command_def add_names_def remove_names_def
      sweep_expired_def Let_def cong: option.case_cong pubsub_op.case_cong)

lemma execute_pubsub_control_query [simp]:
  "execute_pubsub_control (L\<lparr>session_query := q\<rparr>) srv s op args = execute_pubsub_control L srv s op args"
  by (simp add: execute_pubsub_control_def Let_def cong: option.case_cong pubsub_task.case_cong)

lemma manager_get_session_query [simp]:
  "manager_get_session (L\<lparr>session_query := q\<rparr>) cfg st i = manager_get_session L cfg st i"
  by (simp add: manager_get_session_def Let_def cong: option.case_cong)

lemma run_command_forbidden:
  assumes "\<not> acl_check X rules addr cmd auth"
    and "\<And>srv conn n rest. n \<noteq> cmd \<Longrightarrow> q srv conn (n # rest) = session_query L srv conn (n # rest)"
  shows "run_command X (L\<lparr>session_query := q\<rparr>) rules addr auth args r = run_command X L rules addr auth args r"
proof (cases "is_command_allowed X rules addr auth args")
  case True
  have "execute_command (L\<lparr>session_query := q\<rparr>) srv s args = execute_command L srv s args" for srv s
  proof (cases args)
    case (Cons name rest)
    then have "to_ascii_uppercase (from_utf8_lossy name) \<noteq> cmd"
      using True assms(1) acl_check_uppercase by (auto simp: is_command_allowed_def)
    then show ?thesis
      using Cons assms(2)
      by (simp add: execute_command_def Let_def)
  qed (simp add: execute_command_def)
  then show ?thesis
    by (simp add: run_command_def)
qed (simp add: run_command_def)

lemma command_raw_loop_forbidden:
  assumes "\<not> acl_check X rules addr cmd auth"
    and "\<And>srv conn n rest. n \<noteq> cmd \<Longrightarrow> q srv conn (n # rest) = session_query L srv conn (n # rest)"
  shows "command_raw_loop X (L\<lparr>session_query := q\<rparr>) rules limit addr auth buf r =
    command_raw_loop X L rules limit addr auth buf r"
  using assms
proof (induction X L rules limit addr auth buf r rule: command_raw_loop.induct)
  case (1 X L rules limit addr auth buf r)
  show ?case
    by (subst (1 2) command_raw_loop.simps)
      (auto simp: 1 run_command_forbidden [OF "1.prems"] split: outcome.splits prod.splits parse_result.splits)
qed



text \<open>Over the session socket too, a stream of commands is processed in order however it is cut into messages,
  as long as no message ends just after a type marker.\<close>

lemma session_socket_chunks:
  assumes "list_all (\<lambda>c. command_fits c \<and> c \<noteq> []) cs"
    and "concat chs = command_stream cs" and "list_all (boundary_ok cs) (offsets 0 chs)"
  shows "handle_ws X L rules addr auth (\<lambda>_ _. True) [] k (map (\<lambda>ch. FromClient (Inr (WBinary ch))) chs) =
    (Waiting, [], fold (ws_advance X L rules addr auth) cs k)"
proof -
  have "partial_frame cs []"
    by (auto simp: partial_frame_def split: list.splits)
  moreover have "all_continue (ws_continues X L rules addr auth (\<lambda>_ _. True)) (ws_advance X L rules addr auth) cs k"
    by (induction cs arbitrary: k) (simp_all add: ws_continues_def split: prod.splits)
  ultimately show ?thesis
    using session_ws.messages_stream [OF assms(1), of X L rules addr auth "\<lambda>_ _. True" k "[]" chs] assms(2,3)
    by simp
qed

end
