(* ===== verification/Pubsub.thy ===== *)
theory Pubsub
  imports Handler
begin

text \<open>
  \<^verbatim>\<open>crates/redis-web-runtime/src/pubsub.rs\<close>: one background task owns the Redis subscription
  connection and fans messages out to a broadcast channel per name; the HTTP endpoint streams a
  broadcast channel in one of three forms. The task, its command queue and the map of broadcast
  channels form a transition system; a broadcast channel is the list of everything sent to it.
\<close>

section \<open>The manager and its background task\<close>

text \<open>The task has a connection (with the channels Redis was asked for on it) or is between two.\<close>

datatype pubsub_conn = Disconnected | Connected "str list"

record pubsub_state =
  broadcasts :: "str \<rightharpoonup> str list" \<comment> \<open>the map of senders: what was sent to each\<close>
  commands :: "str list" \<comment> \<open>queued \<^verbatim>\<open>Command::Subscribe\<close>\<close>
  connection :: pubsub_conn

definition pubsub_new :: pubsub_state where
  "pubsub_new = \<lparr>broadcasts = Map.empty, commands = [], connection = Disconnected\<rparr>"

definition subscribe :: "str \<Rightarrow> pubsub_state \<Rightarrow> pubsub_state" where
  "subscribe ch s =
     (case broadcasts s ch of
        Some _ \<Rightarrow> s
      | None \<Rightarrow> s\<lparr>broadcasts := (broadcasts s)(ch \<mapsto> []), commands := commands s @ [ch]\<rparr>)"

text \<open>What the task gets from its connection: a decodable payload or not, the end, or a timeout.\<close>

datatype poll_result = GotMessage str "str option" | StreamEnded | TimedOut

definition run_subscribe_command :: "bool \<Rightarrow> pubsub_state \<Rightarrow> pubsub_state" where
  "run_subscribe_command ok s =
     (case (commands s, connection s) of
        (ch # rest, Connected subs) \<Rightarrow>
          s\<lparr>commands := rest, connection := Connected (if ok then subs @ [ch] else subs)\<rparr>
      | _ \<Rightarrow> s)"

definition poll_message :: "poll_result \<Rightarrow> pubsub_state \<Rightarrow> pubsub_state" where
  "poll_message res s =
     (case res of
        GotMessage ch (Some payload) \<Rightarrow>
          (case broadcasts s ch of
             Some sent \<Rightarrow> s\<lparr>broadcasts := (broadcasts s)(ch \<mapsto> sent @ [payload])\<rparr>
           | None \<Rightarrow> s)
      | GotMessage ch None \<Rightarrow> s
      | StreamEnded \<Rightarrow> s\<lparr>connection := Disconnected\<rparr>
      | TimedOut \<Rightarrow> s)"

text \<open>
  The steps: a local subscriber; a (re)connection that succeeds; a queued command, which the task
  takes before it polls; and a poll, with no command waiting.
\<close>

inductive pubsub_step :: "pubsub_state \<Rightarrow> pubsub_state \<Rightarrow> bool" where
  local: "pubsub_step s (subscribe ch s)"
| connect: "connection s = Disconnected \<Longrightarrow> pubsub_step s (s\<lparr>connection := Connected []\<rparr>)"
| command: "connection s = Connected subs \<Longrightarrow> commands s \<noteq> [] \<Longrightarrow>
    pubsub_step s (run_subscribe_command ok s)"
| poll: "connection s = Connected subs \<Longrightarrow> commands s = [] \<Longrightarrow> pubsub_step s (poll_message res s)"

inductive_cases pubsub_stepE: "pubsub_step s t"

section \<open>The HTTP endpoint\<close>

definition wants_chunked_json :: "externals \<Rightarrow> (str \<rightharpoonup> bytes) \<Rightarrow> bool" where
  "wants_chunked_json X hs =
     (case (case hs ''accept'' of None \<Rightarrow> None | Some v \<Rightarrow> header_to_str X v) of
        None \<Rightarrow> False
      | Some accept \<Rightarrow>
          let lowered = to_ascii_lowercase accept in
          if str_contains ''text/event-stream'' lowered then False
          else str_contains ''application/json'' lowered \<or> str_contains ''application/*+json'' lowered)"

text \<open>What a subscriber's receiver yields, and the body it becomes.\<close>

datatype recv = RecvMessage str | RecvLagged | RecvClosed

datatype stream_mode = Jsonp str | ChunkedJson | Sse

definition select_mode :: "externals \<Rightarrow> params \<Rightarrow> (str \<rightharpoonup> bytes) \<Rightarrow> stream_mode" where
  "select_mode X ps hs =
     (case select_jsonp_callback ps of
        Some cb \<Rightarrow> Jsonp cb
      | None \<Rightarrow> if wants_chunked_json X hs then ChunkedJson else Sse)"

definition mode_content_type :: "stream_mode \<Rightarrow> str" where
  "mode_content_type mode =
     (case mode of
        Jsonp _ \<Rightarrow> ''application/javascript; charset=utf-8''
      | ChunkedJson \<Rightarrow> ''application/json; charset=utf-8''
      | Sse \<Rightarrow> ''text/event-stream'')"

definition subscribe_payload :: "str \<Rightarrow> str \<Rightarrow> str \<Rightarrow> json" where
  "subscribe_payload kind ch payload =
     JObject [(''SUBSCRIBE'', JArray [JString kind, JString ch, JString payload])]"

text \<open>An item of the stream: a chunk of the body, or a server-sent event with its type and data.\<close>

datatype stream_item = Chunk bytes | SseEvent "str option" str

definition stream_item_of ::
  "externals \<Rightarrow> stream_mode \<Rightarrow> str \<Rightarrow> str option \<Rightarrow> stream_item" where
  "stream_item_of X mode ch msg =
     (let j = (case msg of
                 Some m \<Rightarrow> subscribe_payload ''message'' ch m
               | None \<Rightarrow> subscribe_payload ''error'' ch ''lagged'')
      in case mode of
           Jsonp cb \<Rightarrow> Chunk (cb @ ''('' @ json_to_string X j @ '');'' @ [CHR 0x0A])
         | ChunkedJson \<Rightarrow> Chunk (json_to_string X j @ [CHR 0x0A])
         | Sse \<Rightarrow> (case msg of Some m \<Rightarrow> SseEvent None m | None \<Rightarrow> SseEvent (Some ''error'') ''lagged''))"

fun subscribe_stream :: "externals \<Rightarrow> stream_mode \<Rightarrow> str \<Rightarrow> recv list \<Rightarrow> stream_item list" where
  "subscribe_stream X mode ch [] = []"
| "subscribe_stream X mode ch (RecvMessage m # rs) =
     stream_item_of X mode ch (Some m) # subscribe_stream X mode ch rs"
| "subscribe_stream X mode ch (RecvLagged # rs) =
     stream_item_of X mode ch None # subscribe_stream X mode ch rs"
| "subscribe_stream X mode ch (RecvClosed # rs) = []"

text \<open>The handler: the state after the subscription, the head of the response and its stream.\<close>

definition handle_subscribe ::
  "externals \<Rightarrow> pubsub_state \<Rightarrow> str \<Rightarrow> params \<Rightarrow> (str \<rightharpoonup> bytes) \<Rightarrow> recv list \<Rightarrow>
   pubsub_state \<times> response \<times> stream_item list" where
  "handle_subscribe X s ch ps hs rx =
     (let mode = select_mode X ps hs in
      (subscribe ch s,
       set_header ''access-control-allow-origin'' ''*'' (typed_response 200 (mode_content_type mode) []),
       subscribe_stream X mode ch rx))"

section \<open>Invariant\<close>

text \<open>Every queued or subscribed name has a broadcast channel, and Redis is asked for each name once.\<close>

definition asked :: "pubsub_state \<Rightarrow> str list" where
  "asked s = commands s @ (case connection s of Connected subs \<Rightarrow> subs | Disconnected \<Rightarrow> [])"

definition pubsub_inv :: "pubsub_state \<Rightarrow> bool" where
  "pubsub_inv s \<longleftrightarrow> distinct (asked s) \<and> set (asked s) \<subseteq> dom (broadcasts s)"

lemma pubsub_inv_subscribe [wf_intros]: "pubsub_inv s \<Longrightarrow> pubsub_inv (subscribe ch s)"
  by (auto simp: pubsub_inv_def asked_def subscribe_def domIff split: option.splits pubsub_conn.splits)

lemma pubsub_inv_command [wf_intros]: "pubsub_inv s \<Longrightarrow> pubsub_inv (run_subscribe_command ok s)"
  by (auto simp: pubsub_inv_def asked_def run_subscribe_command_def
      split: list.splits pubsub_conn.splits)

lemma pubsub_inv_poll [wf_intros]: "pubsub_inv s \<Longrightarrow> pubsub_inv (poll_message res s)"
  by (auto simp: pubsub_inv_def asked_def poll_message_def
      split: poll_result.splits option.splits pubsub_conn.splits)

interpretation pubsub: invariant_system "\<lambda>s. s = pubsub_new" pubsub_step pubsub_inv
proof unfold_locales
  show "pubsub_inv t" if "pubsub_inv s" "pubsub_step s t" for s t
    using that(2,1)
  proof cases
    case connect
    with that(1) show ?thesis
      by (auto simp: pubsub_inv_def asked_def)
  qed (auto intro: wf_intros)
qed (simp add: pubsub_inv_def asked_def pubsub_new_def)

text \<open>C26. In every reachable state Redis has been asked for a channel at most once on the current connection, and
  every channel it has been asked for has a broadcast channel to deliver to.\<close>

theorem pubsub_single_upstream:
  assumes "reachable (\<lambda>s. s = pubsub_new) pubsub_step s"
  shows "distinct (asked s) \<and> set (asked s) \<subseteq> dom (broadcasts s)"
  using pubsub.reachable_inv [OF assms] by (simp add: pubsub_inv_def)

text \<open>A state in which one channel has been subscribed upstream.\<close>

lemma sample_subscribed:
  "reachable (\<lambda>s. s = pubsub_new) pubsub_step
     \<lparr>broadcasts = [''c'' \<mapsto> []], commands = [], connection = Connected [''c'']\<rparr>"
proof -
  have "reachable (\<lambda>s. s = pubsub_new) pubsub_step pubsub_new"
    by (rule reach_start) simp
  from reach_step [OF this pubsub_step.local [of _ "''c''"]]
  have "reachable (\<lambda>s. s = pubsub_new) pubsub_step
      \<lparr>broadcasts = [''c'' \<mapsto> []], commands = [''c''], connection = Disconnected\<rparr>"
    by (simp add: subscribe_def pubsub_new_def)
  from reach_step [OF this pubsub_step.connect]
  have "reachable (\<lambda>s. s = pubsub_new) pubsub_step
      \<lparr>broadcasts = [''c'' \<mapsto> []], commands = [''c''], connection = Connected []\<rparr>"
    by simp
  from reach_step [OF this pubsub_step.command [of _ "[]" True]] show ?thesis
    by (simp add: run_subscribe_command_def)
qed

theorem pubsub_single_upstream_witness:
  "distinct (asked \<lparr>broadcasts = [''c'' \<mapsto> []], commands = [], connection = Connected [''c'']\<rparr>)"
  using pubsub_single_upstream [OF sample_subscribed] by simp

section \<open>Reconnecting\<close>

definition orphaned :: "str \<Rightarrow> pubsub_state \<Rightarrow> bool" where
  "orphaned ch s \<longleftrightarrow> ch \<in> dom (broadcasts s) \<and> ch \<notin> set (asked s)"

lemma orphaned_step: "orphaned ch s \<Longrightarrow> pubsub_step s t \<Longrightarrow> orphaned ch t"
  by (erule pubsub_stepE)
    (auto simp: orphaned_def asked_def subscribe_def run_subscribe_command_def poll_message_def
      split: option.splits pubsub_conn.splits list.splits poll_result.splits)

lemma orphaned_steps: "pubsub_step\<^sup>*\<^sup>* s t \<Longrightarrow> orphaned ch s \<Longrightarrow> orphaned ch t"
  by (induction rule: rtranclp_induct) (auto intro: orphaned_step)

text \<open>C36. When the connection ends, no channel that was subscribed on it is ever asked for again, whatever happens
  next and however many new local subscribers come.\<close>

theorem reconnect_loses_channels:
  assumes "reachable (\<lambda>s. s = pubsub_new) pubsub_step s" and "connection s = Connected subs"
    and "commands s = []" and "ch \<in> set subs"
    and "pubsub_step\<^sup>*\<^sup>* (poll_message StreamEnded s) t"
  shows "ch \<notin> set (asked t) \<and> ch \<in> dom (broadcasts t)"
proof -
  have "pubsub_inv s"
    by (rule pubsub.reachable_inv [OF assms(1)])
  then have "orphaned ch (poll_message StreamEnded s)"
    using assms(2-4) by (auto simp: pubsub_inv_def orphaned_def asked_def poll_message_def)
  with orphaned_steps [OF assms(5)] show ?thesis
    by (simp add: orphaned_def)
qed

theorem reconnect_loses_channels_witness:
  "''c'' \<notin> set (asked (subscribe ''c'' (poll_message StreamEnded
     \<lparr>broadcasts = [''c'' \<mapsto> []], commands = [], connection = Connected [''c'']\<rparr>)))"
  using reconnect_loses_channels [OF sample_subscribed, of "[''c'']" "''c''"
      "subscribe ''c'' (poll_message StreamEnded
        \<lparr>broadcasts = [''c'' \<mapsto> []], commands = [], connection = Connected [''c'']\<rparr>)"]
    pubsub_step.local [of "poll_message StreamEnded
        \<lparr>broadcasts = [''c'' \<mapsto> []], commands = [], connection = Connected [''c'']\<rparr>" "''c''"]
  by (simp add: r_into_rtranclp)

section \<open>The lock and the bounded queue\<close>

text \<open>
  A subscriber to a new channel holds the write lock of the map while it waits for room in the
  command queue; the task takes the read lock to deliver a message. What matters for their
  progress is how full the queue is, whether such a subscriber waits, and where the task is.
\<close>

datatype task_phase = Draining | Polling | Delivering

record lock_state =
  queued :: nat
  writer_waits :: bool
  phase :: task_phase

definition COMMAND_QUEUE :: nat where
  "COMMAND_QUEUE = 100"

inductive lock_step :: "lock_state \<Rightarrow> lock_state \<Rightarrow> bool" where
  enqueue: "\<not> writer_waits s \<Longrightarrow> queued s < COMMAND_QUEUE \<Longrightarrow> lock_step s (s\<lparr>queued := Suc (queued s)\<rparr>)"
| block: "\<not> writer_waits s \<Longrightarrow> queued s = COMMAND_QUEUE \<Longrightarrow> lock_step s (s\<lparr>writer_waits := True\<rparr>)"
| unblock: "writer_waits s \<Longrightarrow> queued s < COMMAND_QUEUE \<Longrightarrow>
    lock_step s (s\<lparr>queued := Suc (queued s), writer_waits := False\<rparr>)"
| drain: "phase s = Draining \<Longrightarrow> queued s = Suc n \<Longrightarrow> lock_step s (s\<lparr>queued := n\<rparr>)"
| start_poll: "phase s = Draining \<Longrightarrow> queued s = 0 \<Longrightarrow> lock_step s (s\<lparr>phase := Polling\<rparr>)"
| timeout: "phase s = Polling \<Longrightarrow> lock_step s (s\<lparr>phase := Draining\<rparr>)"
| message: "phase s = Polling \<Longrightarrow> lock_step s (s\<lparr>phase := Delivering\<rparr>)"
| deliver: "phase s = Delivering \<Longrightarrow> \<not> writer_waits s \<Longrightarrow> lock_step s (s\<lparr>phase := Draining\<rparr>)"

definition lock_start :: "lock_state \<Rightarrow> bool" where
  "lock_start s \<longleftrightarrow> s = \<lparr>queued = 0, writer_waits = False, phase = Draining\<rparr>"

definition lock_inv :: "lock_state \<Rightarrow> bool" where
  "lock_inv s \<longleftrightarrow> queued s \<le> COMMAND_QUEUE"

interpretation pubsub_lock: invariant_system lock_start lock_step lock_inv
proof unfold_locales
  show "lock_inv t" if "lock_inv s" "lock_step s t" for s t
    using that(2,1) by cases (auto simp: lock_inv_def)
qed (simp add: lock_start_def lock_inv_def)

lemma lock_stuck_iff:
  assumes "lock_inv s"
  shows "(\<nexists>t. lock_step s t) \<longleftrightarrow>
    phase s = Delivering \<and> writer_waits s \<and> queued s = COMMAND_QUEUE"
proof
  assume stuck: "\<nexists>t. lock_step s t"
  have "phase s = Delivering"
    using stuck lock_step.drain lock_step.start_poll lock_step.timeout
    by (metis not0_implies_Suc task_phase.exhaust)
  moreover have "writer_waits s"
    using stuck lock_step.deliver calculation by blast
  moreover have "queued s = COMMAND_QUEUE"
    using stuck lock_step.unblock calculation(2) assms by (metis lock_inv_def le_neq_implies_less)
  ultimately show "phase s = Delivering \<and> writer_waits s \<and> queued s = COMMAND_QUEUE"
    by blast
qed (auto elim!: lock_step.cases)

lemma queue_fills:
  "n \<le> COMMAND_QUEUE \<Longrightarrow>
     reachable lock_start lock_step \<lparr>queued = n, writer_waits = False, phase = Polling\<rparr>"
proof (induction n)
  case 0
  have "reachable lock_start lock_step \<lparr>queued = 0, writer_waits = False, phase = Draining\<rparr>"
    by (rule reach_start) (simp add: lock_start_def)
  from reach_step [OF this lock_step.start_poll] show ?case
    by simp
next
  case (Suc n)
  then have "reachable lock_start lock_step \<lparr>queued = n, writer_waits = False, phase = Polling\<rparr>"
    by simp
  from reach_step [OF this lock_step.enqueue] Suc.prems show ?case
    by simp
qed

text \<open>C37. The manager can block for ever: when a message arrives while a new subscriber holds the map's lock and
  waits for room in a full queue, neither it nor the task can go on. These are the only stuck states.\<close>

theorem pubsub_deadlock:
  "(\<exists>s. reachable lock_start lock_step s \<and> (\<nexists>t. lock_step s t)) \<and>
   (\<forall>s. reachable lock_start lock_step s \<and> (\<nexists>t. lock_step s t) \<longrightarrow>
      phase s = Delivering \<and> writer_waits s \<and> queued s = COMMAND_QUEUE)"
proof -
  let ?n = COMMAND_QUEUE
  have "reachable lock_start lock_step \<lparr>queued = ?n, writer_waits = False, phase = Polling\<rparr>"
    by (rule queue_fills) simp
  from reach_step [OF this lock_step.block]
  have "reachable lock_start lock_step \<lparr>queued = ?n, writer_waits = True, phase = Polling\<rparr>"
    by simp
  from reach_step [OF this lock_step.message]
  have stuck: "reachable lock_start lock_step \<lparr>queued = ?n, writer_waits = True, phase = Delivering\<rparr>"
    by simp
  moreover have "\<nexists>t. lock_step \<lparr>queued = ?n, writer_waits = True, phase = Delivering\<rparr> t"
    using lock_stuck_iff [OF pubsub_lock.reachable_inv [OF stuck]] by simp
  ultimately show ?thesis
    using lock_stuck_iff pubsub_lock.reachable_inv by blast
qed

theorem pubsub_deadlock_witness:
  "\<exists>s. reachable lock_start lock_step s \<and> (\<nexists>t. lock_step s t) \<and> queued s = COMMAND_QUEUE"
  using pubsub_deadlock by blast

end
