(* ===== verification/Grpc.thy ===== *)
theory Grpc
  imports Pubsub
begin

text \<open>
  \<^verbatim>\<open>crates/redis-web-runtime/src/grpc.rs\<close>: the gRPC gateway over the same parser-independent state. The
  generated protobuf types are records and a datatype with the fields of
  \<^verbatim>\<open>proto/redis_web/v1/gateway.proto\<close>; tonic's transport is not modelled.
\<close>

section \<open>Messages\<close>

datatype grpc_code = InvalidArgument | PermissionDenied | Unavailable | Internal | OtherCode

datatype grpc_status = Status (status_code: grpc_code) (status_message: str)

datatype proto_value =
    PNil
  | PInteger i64
  | PBulk bytes
  | PSimple str
  | PArray "proto_value list"

record command_request =
  req_command :: str
  req_database :: "u32 option"
  req_args :: "bytes list"

record stream_request =
  req_correlation_id :: str
  req_inner :: "command_request option"

text \<open>The error kinds of the protocol, by number.\<close>

definition SERVICE_UNAVAILABLE :: nat where "SERVICE_UNAVAILABLE = 1"
definition EXECUTION_FAILED :: nat where "EXECUTION_FAILED = 2"

datatype command_error = CommandError (error_kind: nat) (error_message: str)

record stream_reply =
  rep_correlation_id :: str
  rep_result :: "(proto_value, command_error) result"

record metadata =
  remote_ip :: "ip_addr option"
  md_authorization :: "bytes option"

section \<open>Conversions\<close>

definition localhost :: ip_addr where
  "localhost = V4 0x7F000001"

definition authorization_header :: "externals \<Rightarrow> metadata \<Rightarrow> str option" where
  "authorization_header X md =
     (case md_authorization md of None \<Rightarrow> None | Some v \<Rightarrow> header_to_str X v)"

definition grpc_auth_context :: "externals \<Rightarrow> metadata \<Rightarrow> auth_context" where
  "grpc_auth_context X md =
     \<lparr>client_ip = (case remote_ip md of Some ip \<Rightarrow> ip | None \<Rightarrow> localhost),
      authorization = authorization_header X md\<rparr>"

definition authorize ::
  "externals \<Rightarrow> 'b app_state \<Rightarrow> auth_context \<Rightarrow> str \<Rightarrow> (unit, grpc_status) result" where
  "authorize X st auth cmd =
     (if check_auth X (app_acl st) auth cmd then Ok ()
      else Err (Status PermissionDenied ''Forbidden''))"

definition command_from_proto ::
  "u8 \<Rightarrow> command_request \<Rightarrow> (executable_command, grpc_status) result" where
  "command_from_proto default_db req =
     (let db = (case req_database req of Some d \<Rightarrow> d | None \<Rightarrow> ucast default_db) in
      if req_command req = [] then Err (Status InvalidArgument ''command must not be empty'')
      else if (255 :: u32) < db then Err (Status InvalidArgument ''database must be between 0 and 255'')
      else Ok \<lparr>target_database = ucast db, command_name = req_command req, command_args = req_args req\<rparr>)"

text \<open>The recursion collects the elements of an array and stops at the first that has no form.\<close>

fun redis_value_to_proto :: "redis_value \<Rightarrow> (proto_value, grpc_status) result"
  and collect_protos :: "redis_value list \<Rightarrow> (proto_value list, grpc_status) result" where
  "redis_value_to_proto NilV = Ok PNil"
| "redis_value_to_proto (IntV i) = Ok (PInteger i)"
| "redis_value_to_proto (BulkString bs) = Ok (PBulk bs)"
| "redis_value_to_proto (Array vs) =
     (case collect_protos vs of Err e \<Rightarrow> Err e | Ok ps \<Rightarrow> Ok (PArray ps))"
| "redis_value_to_proto (SimpleString s) = Ok (PSimple s)"
| "redis_value_to_proto Okay = Ok (PSimple ''OK'')"
| "redis_value_to_proto (Resp3 dbg) =
     Err (Status Internal ''unsupported Redis reply type for gRPC response'')"
| "collect_protos [] = Ok []"
| "collect_protos (v # vs) =
     (case redis_value_to_proto v of
        Err e \<Rightarrow> Err e
      | Ok p \<Rightarrow> (case collect_protos vs of Err e \<Rightarrow> Err e | Ok ps \<Rightarrow> Ok (p # ps)))"

fun command_error_to_status :: "command_execution_error \<Rightarrow> grpc_status" where
  "command_error_to_status (ServiceUnavailable message) = Status Unavailable message"
| "command_error_to_status (ExecutionFailed message) = Status Internal message"

fun command_error_to_stream_error :: "command_execution_error \<Rightarrow> command_error" where
  "command_error_to_stream_error (ServiceUnavailable message) = CommandError SERVICE_UNAVAILABLE message"
| "command_error_to_stream_error (ExecutionFailed message) = CommandError EXECUTION_FAILED message"

definition status_to_stream_error :: "grpc_status \<Rightarrow> command_error" where
  "status_to_stream_error st = CommandError 0 (status_message st)"

section \<open>The calls\<close>

definition grpc_execute ::
  "externals \<Rightarrow> 'b app_state \<Rightarrow> 'b \<Rightarrow> metadata \<Rightarrow> command_request \<Rightarrow> 'b \<times> (proto_value, grpc_status) result"
where
  "grpc_execute X st b md req =
     (let auth = grpc_auth_context X md in
      case command_from_proto (app_default_database st) req of
        Err e \<Rightarrow> (b, Err e)
      | Ok cmd \<Rightarrow>
          (case authorize X st auth (command_name cmd) of
             Err e \<Rightarrow> (b, Err e)
           | Ok _ \<Rightarrow>
               (case command_executor st b cmd of
                  (b', Err e) \<Rightarrow> (b', Err (command_error_to_status e))
                | (b', Ok v) \<Rightarrow> (b', redis_value_to_proto v))))"

definition stream_result ::
  "externals \<Rightarrow> 'b app_state \<Rightarrow> 'b \<Rightarrow> auth_context \<Rightarrow> command_request option \<Rightarrow>
   'b \<times> (proto_value, command_error) result" where
  "stream_result X st b auth item =
     (case item of
        None \<Rightarrow>
          (b, Err (status_to_stream_error (Status InvalidArgument ''stream request is missing command'')))
      | Some req \<Rightarrow>
          (case command_from_proto (app_default_database st) req of
             Err e \<Rightarrow> (b, Err (status_to_stream_error e))
           | Ok cmd \<Rightarrow>
               (case authorize X st auth (command_name cmd) of
                  Err e \<Rightarrow> (b, Err (status_to_stream_error e))
                | Ok _ \<Rightarrow>
                    (case command_executor st b cmd of
                       (b', Ok v) \<Rightarrow>
                         (case redis_value_to_proto v of
                            Ok p \<Rightarrow> (b', Ok p)
                          | Err e \<Rightarrow> (b', Err (status_to_stream_error e)))
                     | (b', Err e) \<Rightarrow> (b', Err (command_error_to_stream_error e))))))"

text \<open>
  The task of a stream: an item is a request or the failure of the transport; \<open>ok\<close> says whether the
  client still reads, given what it has been sent.
\<close>

fun grpc_execute_stream ::
  "externals \<Rightarrow> 'b app_state \<Rightarrow> auth_context \<Rightarrow> ((stream_reply, grpc_status) result list \<Rightarrow> bool) \<Rightarrow> 'b \<Rightarrow>
   (stream_reply, grpc_status) result list \<Rightarrow> (stream_request, grpc_status) result list \<Rightarrow>
   'b \<times> (stream_reply, grpc_status) result list" where
  "grpc_execute_stream X st auth ok b sent [] = (b, sent)"
| "grpc_execute_stream X st auth ok b sent (Inl failure # items) =
     (b, if ok sent then sent @ [Err failure] else sent)"
| "grpc_execute_stream X st auth ok b sent (Inr item # items) =
     (case stream_result X st b auth (req_inner item) of
        (b', res) \<Rightarrow>
          if ok sent
          then grpc_execute_stream X st auth ok b'
                 (sent @ [Ok \<lparr>rep_correlation_id = req_correlation_id item, rep_result = res\<rparr>]) items
          else (b', sent))"

record subscribe_event =
  ev_channel :: bytes
  ev_payload :: bytes

fun event_stream :: "str \<Rightarrow> recv list \<Rightarrow> subscribe_event list" where
  "event_stream ch [] = []"
| "event_stream ch (RecvMessage payload # rs) =
     \<lparr>ev_channel = ch, ev_payload = payload\<rparr> # event_stream ch rs"
| "event_stream ch (RecvLagged # rs) = event_stream ch rs"
| "event_stream ch (RecvClosed # rs) = []"

definition grpc_subscribe ::
  "externals \<Rightarrow> 'b app_state \<Rightarrow> pubsub_state \<Rightarrow> metadata \<Rightarrow> str \<Rightarrow> recv list \<Rightarrow>
   pubsub_state \<times> (subscribe_event list, grpc_status) result" where
  "grpc_subscribe X st ps md channel rx =
     (if channel = [] then (ps, Err (Status InvalidArgument ''channel must not be empty''))
      else (case authorize X st (grpc_auth_context X md) ''SUBSCRIBE'' of
          Err e \<Rightarrow> (ps, Err e)
        | Ok _ \<Rightarrow> (subscribe channel ps, Ok (event_stream channel rx))))"

text \<open>The limits \<^verbatim>\<open>serve_with_listener\<close> configures and the services it adds beside the gateway.\<close>

definition decoding_limit :: "config \<Rightarrow> nat" where
  "decoding_limit c =
     (case max_decoding_message_size (grpc c) of
        Some n \<Rightarrow> n
      | None \<Rightarrow>
          (case http_max_request_size c of Some n \<Rightarrow> n | None \<Rightarrow> DEFAULT_HTTP_MAX_REQUEST_SIZE))"

datatype grpc_service = Gateway | Health | Reflection

definition grpc_services :: "config \<Rightarrow> grpc_service list" where
  "grpc_services c =
     (if enable_health_service (grpc c) then
        (if enable_reflection (grpc c) then [Gateway, Health, Reflection] else [Gateway, Health])
      else if enable_reflection (grpc c) then [Gateway, Reflection]
      else [Gateway])"

section \<open>Properties\<close>

text \<open>A reply has a protobuf form exactly when no part of it is of a type the protocol lacks.\<close>

fun proto_representable :: "redis_value \<Rightarrow> bool" where
  "proto_representable (Array vs) = list_all proto_representable vs"
| "proto_representable (Resp3 _) = False"
| "proto_representable _ = True"

text \<open>The reply a protobuf value stands for.\<close>

fun proto_value_meaning :: "proto_value \<Rightarrow> redis_value" where
  "proto_value_meaning PNil = NilV"
| "proto_value_meaning (PInteger i) = IntV i"
| "proto_value_meaning (PBulk bs) = BulkString bs"
| "proto_value_meaning (PSimple s) = SimpleString s"
| "proto_value_meaning (PArray ps) = Array (map proto_value_meaning ps)"

lemma redis_value_to_proto_meaning:
  "proto_representable v \<Longrightarrow>
     \<exists>p. redis_value_to_proto v = Ok p \<and> proto_value_meaning p = wire_form v"
  "list_all proto_representable vs \<Longrightarrow>
     \<exists>ps. collect_protos vs = Ok ps \<and> map proto_value_meaning ps = map wire_form vs"
  by (induction v and vs rule: redis_value_to_proto_collect_protos.induct) fastforce+

lemma redis_value_to_proto_unsupported:
  "\<not> proto_representable v \<Longrightarrow>
     redis_value_to_proto v = Err (Status Internal ''unsupported Redis reply type for gRPC response'')"
  "\<not> list_all proto_representable vs \<Longrightarrow>
     collect_protos vs = Err (Status Internal ''unsupported Redis reply type for gRPC response'')"
proof (induction v and vs rule: redis_value_to_proto_collect_protos.induct)
  case (9 v vs)
  then show ?case
    using redis_value_to_proto_meaning(1) [of v] by (cases "proto_representable v") auto
qed auto

text \<open>C33. A reply whose every part the protocol can carry is sent as a value that stands for the same reply as its RESP
  encoding does; any other reply is an internal error.\<close>

theorem proto_conversion_faithful:
  "(proto_representable v \<longrightarrow>
      (\<exists>p. redis_value_to_proto v = Ok p \<and> proto_value_meaning p = wire_form v)) \<and>
   (\<not> proto_representable v \<longrightarrow>
      redis_value_to_proto v = Err (Status Internal ''unsupported Redis reply type for gRPC response''))"
  using redis_value_to_proto_meaning(1) redis_value_to_proto_unsupported(1) by blast

theorem proto_conversion_faithful_witness:
  "(\<exists>p. redis_value_to_proto (Array [Okay, IntV 3]) = Ok p \<and>
      proto_value_meaning p = Array [SimpleString ''OK'', IntV 3]) \<and>
   redis_value_to_proto (Array [Resp3 ''Set'']) =
     Err (Status Internal ''unsupported Redis reply type for gRPC response'')"
  using proto_conversion_faithful [of "Array [Okay, IntV 3]"] proto_conversion_faithful [of "Array [Resp3 ''Set'']"]
  by simp

text \<open>The database a request asks for.\<close>

definition requested_database :: "u8 \<Rightarrow> command_request \<Rightarrow> nat" where
  "requested_database d req = (case req_database req of Some n \<Rightarrow> unat n | None \<Rightarrow> unat d)"

lemma command_from_proto_eq:
  "command_from_proto d req =
     (if req_command req = [] then Err (Status InvalidArgument ''command must not be empty'')
      else if 255 < requested_database d req
      then Err (Status InvalidArgument ''database must be between 0 and 255'')
      else Ok \<lparr>target_database = of_nat (requested_database d req), command_name = req_command req,
              command_args = req_args req\<rparr>)"
proof -
  let ?w = "case req_database req of Some n \<Rightarrow> n | None \<Rightarrow> (ucast d :: u32)"
  have "unat (ucast d :: u32) = unat d"
    using unsigned_less [of d, where 'a = nat] by (simp add: unsigned_ucast_eq take_bit_nat_eq_self)
  then have db: "unat ?w = requested_database d req"
    by (simp add: requested_database_def split: option.splits)
  have "255 < ?w \<longleftrightarrow> 255 < requested_database d req"
    by (simp add: word_less_nat_alt db)
  moreover have "(ucast ?w :: u8) = of_nat (requested_database d req)"
    unfolding db [symmetric] by simp
  ultimately show ?thesis
    by (simp add: command_from_proto_def Let_def)
qed

text \<open>A unary call runs exactly the requested command on the requested database, or on the default one; an empty
  command, a database above 255 and a forbidden command are refused without running anything.\<close>

theorem grpc_execute_cases:
  "grpc_execute X st b md req =
     (let db = requested_database (app_default_database st) req in
      if req_command req = [] then (b, Err (Status InvalidArgument ''command must not be empty''))
      else if 255 < db then (b, Err (Status InvalidArgument ''database must be between 0 and 255''))
      else if \<not> last (True # List.map_filter
            (verdict X (client_ip (grpc_auth_context X md)) (req_command req)
              (authorization_header X md)) (app_acl st))
      then (b, Err (Status PermissionDenied ''Forbidden''))
      else (case command_executor st b
              \<lparr>target_database = of_nat db, command_name = req_command req, command_args = req_args req\<rparr> of
          (b', Ok v) \<Rightarrow> (b', redis_value_to_proto v)
        | (b', Err e) \<Rightarrow> (b', Err (command_error_to_status e))))"
  by (simp add: grpc_execute_def command_from_proto_eq authorize_def check_auth_def
      acl_check_last_verdict grpc_auth_context_def Let_def)

lemma stream_result_execute:
  "fst (stream_result X st b (grpc_auth_context X md) (Some req)) = fst (grpc_execute X st b md req) \<and>
   (\<forall>p. snd (stream_result X st b (grpc_auth_context X md) (Some req)) = Ok p \<longleftrightarrow>
        snd (grpc_execute X st b md req) = Ok p)"
  by (auto simp: stream_result_def grpc_execute_def Let_def split: sum.splits prod.splits)

text \<open>The unary calls a stream stands for, run one after the other.\<close>

fun unary_calls ::
  "externals \<Rightarrow> 'b app_state \<Rightarrow> metadata \<Rightarrow> 'b \<Rightarrow> command_request list \<Rightarrow> 'b \<times> proto_value option list" where
  "unary_calls X st md b [] = (b, [])"
| "unary_calls X st md b (req # reqs) =
     (case grpc_execute X st b md req of
        (b', res) \<Rightarrow>
          (case unary_calls X st md b' reqs of
             (b'', vs) \<Rightarrow> (b'', (case res of Ok v \<Rightarrow> Some v | Err e \<Rightarrow> None) # vs)))"

definition reply_value :: "(stream_reply, grpc_status) result \<Rightarrow> proto_value option" where
  "reply_value r = (case r of Ok m \<Rightarrow> (case rep_result m of Ok v \<Rightarrow> Some v | Err e \<Rightarrow> None) | Err e \<Rightarrow> None)"

definition reply_id :: "(stream_reply, grpc_status) result \<Rightarrow> str option" where
  "reply_id r = (case r of Ok m \<Rightarrow> Some (rep_correlation_id m) | Err e \<Rightarrow> None)"

lemma execute_stream_unary:
  assumes "unary_calls X st md b (map snd reqs) = (b', vs)"
  shows "\<exists>replies. grpc_execute_stream X st (grpc_auth_context X md) (\<lambda>_. True) b sent
      (map (\<lambda>(i, c). Ok \<lparr>req_correlation_id = i, req_inner = Some c\<rparr>) reqs) = (b', sent @ replies) \<and>
    map reply_id replies = map (\<lambda>(i, c). Some i) reqs \<and> map reply_value replies = vs"
  using assms
proof (induction reqs arbitrary: b sent vs)
  case (Cons ic reqs)
  obtain i c where ic: "ic = (i, c)" by fastforce
  obtain b1 res where ex: "grpc_execute X st b md c = (b1, res)" by fastforce
  obtain sres where sr: "stream_result X st b (grpc_auth_context X md) (Some c) = (b1, sres)"
    "\<forall>p. sres = Ok p \<longleftrightarrow> res = Ok p"
    using stream_result_execute [of X st b md c] ex by (metis fst_conv snd_conv surj_pair)
  obtain ws where rest: "unary_calls X st md b1 (map snd reqs) = (b', ws)"
    and vs: "vs = (case res of Ok v \<Rightarrow> Some v | Err e \<Rightarrow> None) # ws"
    using Cons.prems ic ex by (auto split: prod.splits)
  let ?r = "Ok \<lparr>rep_correlation_id = i, rep_result = sres\<rparr>"
  obtain replies where IH: "grpc_execute_stream X st (grpc_auth_context X md) (\<lambda>_. True) b1 (sent @ [?r])
      (map (\<lambda>(i, c). Ok \<lparr>req_correlation_id = i, req_inner = Some c\<rparr>) reqs) = (b', (sent @ [?r]) @ replies)"
    "map reply_id replies = map (\<lambda>(i, c). Some i) reqs" "map reply_value replies = ws"
    using Cons.IH [OF rest] by blast
  have "reply_value ?r = (case res of Ok v \<Rightarrow> Some v | Err e \<Rightarrow> None)"
  proof (cases res)
    case (Inr v)
    then have "sres = Ok v" using sr(2) by blast
    with Inr show ?thesis by (simp add: reply_value_def)
  next
    case (Inl e)
    then obtain e' where "sres = Err e'" using sr(2) by (cases sres) auto
    with Inl show ?thesis by (simp add: reply_value_def)
  qed
  moreover have "reply_id ?r = Some i"
    by (simp add: reply_id_def)
  ultimately show ?case
    using IH ic sr(1) vs by (intro exI [of _ "?r # replies"]) simp
qed simp

text \<open>C20. A stream of commands has the effects and the values of the same unary calls made in its order, and each
  reply carries the correlation identifier of its request.\<close>

theorem execute_stream_equals_unary:
  assumes "unary_calls X st md b (map snd reqs) = (b', vs)"
  shows "\<exists>replies. grpc_execute_stream X st (grpc_auth_context X md) (\<lambda>_. True) b []
      (map (\<lambda>(i, c). Ok \<lparr>req_correlation_id = i, req_inner = Some c\<rparr>) reqs) = (b', replies) \<and>
    map reply_id replies = map (\<lambda>(i, c). Some i) reqs \<and> map reply_value replies = vs"
  using execute_stream_unary [OF assms, of "[]"] by simp

theorem execute_stream_equals_unary_witness:
  "\<exists>replies. grpc_execute_stream sample_externals sample_app
      (grpc_auth_context sample_externals \<lparr>remote_ip = None, md_authorization = None\<rparr>) (\<lambda>_. True) 0 []
      (map (\<lambda>(i, c). Ok \<lparr>req_correlation_id = i, req_inner = Some c\<rparr>)
        [(''x'', \<lparr>req_command = ''GET'', req_database = None, req_args = [''a'']\<rparr>)]) = (1, replies) \<and>
    map reply_id replies = [Some ''x'']"
proof -
  have "unary_calls sample_externals sample_app \<lparr>remote_ip = None, md_authorization = None\<rparr> 0
      (map snd [(''x'', \<lparr>req_command = ''GET'', req_database = None, req_args = [''a'']\<rparr>)]) =
      (1, [Some (PBulk ''v'')])"
    by (simp add: grpc_execute_def command_from_proto_def authorize_def check_auth_def acl_check_def sample_app_def)
  from execute_stream_equals_unary [OF this] show ?thesis
    by auto
qed

end
