(* ===== verification/Pools.thy ===== *)
theory Pools
  imports Config
begin

text \<open>
  \<^verbatim>\<open>crates/redis-web-runtime/src/redis.rs\<close> and \<^verbatim>\<open>executor.rs\<close>: connection settings, connection pools
  per logical database, and the executor that runs a command on a pooled connection. The redis
  and deadpool crates and the file system are the fields of \<open>redis_lib\<close>. A pool handle is a cheap
  clone of a shared pool: its \<open>pool_id\<close> is the identity of what is shared.
\<close>

section \<open>What the code uses of its libraries\<close>

datatype redis_error_kind = InvalidClientConfig | IoError | OtherError

datatype redis_error = RedisError redis_error_kind str str

datatype conn_addr = Tcp str u16 | TcpTls str u16 | Unix str | OtherAddr

datatype protocol = RESP2 | RESP3

record redis_settings =
  conn_db :: int
  conn_protocol :: protocol
  conn_username :: "str option"
  conn_password :: "str option"

text \<open>Keep-alive settings: idle time and probe interval in seconds.\<close>

record connection_info =
  conn_addr :: conn_addr
  conn_settings :: redis_settings
  conn_keepalive :: "(nat \<times> nat) option"

definition default_settings :: redis_settings where
  "default_settings =
     \<lparr>conn_db = 0, conn_protocol = RESP2, conn_username = None, conn_password = None\<rparr>"

datatype file_kind = Socket | NotSocket

record redis_pool =
  pool_id :: nat
  pool_info :: connection_info
  pool_max_size :: nat

datatype create_pool_error = PoolConfigError redis_error | PoolBuildError str

record 's redis_lib =
  url_info :: "str \<Rightarrow> (connection_info, redis_error) result" \<comment> \<open>\<^verbatim>\<open>String::into_connection_info\<close>\<close>
  addr_info :: "conn_addr \<Rightarrow> (connection_info, redis_error) result" \<comment> \<open>\<^verbatim>\<open>ConnectionAddr::into_connection_info\<close>\<close>
  client_open :: "connection_info \<Rightarrow> (unit, redis_error) result" \<comment> \<open>\<^verbatim>\<open>redis::Client::open\<close>\<close>
  file_metadata :: "str \<Rightarrow> (file_kind, str) result" \<comment> \<open>\<^verbatim>\<open>std::fs::metadata\<close>\<close>
  build_pool :: "connection_info \<Rightarrow> nat \<Rightarrow> (unit, str) result" \<comment> \<open>\<^verbatim>\<open>Pool::builder(..).build\<close>\<close>
  pool_error_text :: "create_pool_error \<Rightarrow> str" \<comment> \<open>its \<^verbatim>\<open>Display\<close>\<close>
  pool_get :: "'s \<Rightarrow> redis_pool \<Rightarrow> 's \<times> (unit, str) result" \<comment> \<open>\<^verbatim>\<open>Pool::get\<close>\<close>
  query :: "'s \<Rightarrow> connection_info \<Rightarrow> bytes list \<Rightarrow> 's \<times> (redis_value, str) result" \<comment> \<open>\<^verbatim>\<open>Cmd::query_async\<close>\<close>

section \<open>Connection settings\<close>

definition redis_username_password :: "config \<Rightarrow> str option \<times> str option" where
  "redis_username_password c =
     (case redis_auth c of
        None \<Rightarrow> (None, None)
      | Some (Legacy password) \<Rightarrow> (None, Some password)
      | Some (ACL creds) \<Rightarrow>
          if length creds = 2 then (Some (creds ! 0), Some (creds ! 1)) else (None, None))"

definition validate_unix_socket_path :: "'s redis_lib \<Rightarrow> str \<Rightarrow> (unit, redis_error) result" where
  "validate_unix_socket_path R path =
     (case file_metadata R path of
        Err e \<Rightarrow> Err (RedisError IoError ''redis_socket path is not accessible'' (path @ '': '' @ e))
      | Ok NotSocket \<Rightarrow>
          Err (RedisError InvalidClientConfig ''redis_socket is not a unix socket''
            (path @ '' is not a socket file''))
      | Ok Socket \<Rightarrow> Ok ())"

definition connection_info_for_unix_socket_redis ::
  "'s redis_lib \<Rightarrow> config \<Rightarrow> str \<Rightarrow> (connection_info, redis_error) result" where
  "connection_info_for_unix_socket_redis R c path =
     (case validate_unix_socket_path R path of
        Err e \<Rightarrow> Err e
      | Ok _ \<Rightarrow>
          (case redis_username_password c of (username, password) \<Rightarrow>
             let s0 = default_settings\<lparr>conn_db := uint (database c), conn_protocol := RESP2\<rparr>;
                 s1 = (case username of Some u \<Rightarrow> s0\<lparr>conn_username := Some u\<rparr> | None \<Rightarrow> s0);
                 s2 = (case password of Some p \<Rightarrow> s1\<lparr>conn_password := Some p\<rparr> | None \<Rightarrow> s1)
             in case addr_info R (Unix path) of
                  Err e \<Rightarrow> Err e
                | Ok info \<Rightarrow> Ok (info\<lparr>conn_settings := s2\<rparr>)))"

definition keepalive_time_and_interval :: "nat \<Rightarrow> nat \<times> nat" where
  "keepalive_time_and_interval keep_alive_secs =
     (keep_alive_secs, max 1 (keep_alive_secs div 3))"

definition maybe_apply_tcp_keepalive :: "config \<Rightarrow> connection_info \<Rightarrow> connection_info" where
  "maybe_apply_tcp_keepalive c info =
     (case (case hiredis c of None \<Rightarrow> None | Some h \<Rightarrow> keep_alive_sec h) of
        None \<Rightarrow> info
      | Some secs \<Rightarrow>
          if secs = 0 then info
          else (case conn_addr info of
              Tcp _ _ \<Rightarrow> info\<lparr>conn_keepalive := Some (keepalive_time_and_interval secs)\<rparr>
            | TcpTls _ _ \<Rightarrow> info\<lparr>conn_keepalive := Some (keepalive_time_and_interval secs)\<rparr>
            | Unix _ \<Rightarrow> info
            | OtherAddr \<Rightarrow> info))"

definition pool_connection_info ::
  "'s redis_lib \<Rightarrow> config \<Rightarrow> (connection_info, redis_error) result" where
  "pool_connection_info R c =
     (case redis_socket c of
        Some socket \<Rightarrow>
          if ssl_enabled c then
            Err (RedisError InvalidClientConfig ''ssl is not supported with redis_socket''
              ''Disable ssl.enabled or remove redis_socket. TLS does not apply to UNIX sockets.'')
          else connection_info_for_unix_socket_redis R c socket
      | None \<Rightarrow>
          (case url_info R (get_redis_url c) of
             Err e \<Rightarrow> Err e
           | Ok info \<Rightarrow>
               Ok (maybe_apply_tcp_keepalive c
                 (info\<lparr>conn_settings := (conn_settings info)\<lparr>conn_protocol := RESP2\<rparr>\<rparr>))))"

definition create_client :: "'s redis_lib \<Rightarrow> config \<Rightarrow> (connection_info, redis_error) result" where
  "create_client R c =
     (let open = (\<lambda>info. case client_open R info of Err e \<Rightarrow> Err e | Ok _ \<Rightarrow> Ok info) in
      case redis_socket c of
        Some socket \<Rightarrow>
          (case connection_info_for_unix_socket_redis R c socket of Err e \<Rightarrow> Err e | Ok info \<Rightarrow> open info)
      | None \<Rightarrow> (case pool_connection_info R c of Err e \<Rightarrow> Err e | Ok info \<Rightarrow> open info))"

definition create_pubsub_client ::
  "'s redis_lib \<Rightarrow> config \<Rightarrow> (connection_info, redis_error) result" where
  "create_pubsub_client R c =
     (let open = (\<lambda>info. case client_open R info of Err e \<Rightarrow> Err e | Ok _ \<Rightarrow> Ok info) in
      case redis_socket c of
        Some socket \<Rightarrow>
          (case connection_info_for_unix_socket_redis R c socket of Err e \<Rightarrow> Err e | Ok info \<Rightarrow> open info)
      | None \<Rightarrow> (case url_info R (get_redis_url c) of Err e \<Rightarrow> Err e | Ok info \<Rightarrow> open info))"

definition redis_endpoint_summary :: "config \<Rightarrow> str" where
  "redis_endpoint_summary c =
     (case redis_socket c of
        Some socket \<Rightarrow> ''unix:'' @ socket @ '' db='' @ dec (unat (database c))
      | None \<Rightarrow>
          ''tcp:'' @ redis_host c @ '':'' @ dec (unat (redis_port c)) @ '' db='' @
          dec (unat (database c)) @ '' tls='' @ (if ssl_enabled c then ''true'' else ''false''))"

section \<open>Pools\<close>

text \<open>The product of two \<^verbatim>\<open>usize\<close>, which wraps around in a release build.\<close>

definition pool_size :: "config \<Rightarrow> nat" where
  "pool_size c =
     ((case pool_size_per_thread c of Some n \<Rightarrow> n | None \<Rightarrow> DEFAULT_POOL_SIZE_PER_THREAD) *
      (case http_threads c of Some n \<Rightarrow> n | None \<Rightarrow> DEFAULT_HTTP_THREADS)) mod 2 ^ 64"

text \<open>
  The manager of a pool: how it is made, and its check before a connection is handed out again. \<open>pong\<close> is what
  the connection answers to PING, read as a string.
\<close>

definition manager_new :: "'s redis_lib \<Rightarrow> connection_info \<Rightarrow> (connection_info, redis_error) result" where
  "manager_new R info = (case client_open R info of Err e \<Rightarrow> Err e | Ok _ \<Rightarrow> Ok info)"

datatype recycle_error = Backend str | RecycleMessage str

definition recycle :: "(str, str) result \<Rightarrow> (unit, recycle_error) result" where
  "recycle pong =
     (case pong of
        Err e \<Rightarrow> Err (Backend e)
      | Ok text \<Rightarrow>
          if text = ''PONG'' then Ok ()
          else Err (RecycleMessage (''unexpected PING response from Redis: '' @ text)))"

lemma recycle_ok_iff: "recycle pong = Ok () \<longleftrightarrow> pong = Ok ''PONG''"
  by (cases pong) (auto simp: recycle_def)

text \<open>The identity of the new pool is the next free one.\<close>

definition create_pool ::
  "'s redis_lib \<Rightarrow> nat \<Rightarrow> config \<Rightarrow> nat \<times> (redis_pool, create_pool_error) result" where
  "create_pool R fresh c =
     (case pool_connection_info R c of
        Err e \<Rightarrow> (fresh, Err (PoolConfigError e))
      | Ok info \<Rightarrow>
          (case manager_new R info of
             Err e \<Rightarrow> (fresh, Err (PoolConfigError e))
           | Ok _ \<Rightarrow>
               (case build_pool R info (pool_size c) of
                  Err e \<Rightarrow> (fresh, Err (PoolBuildError e))
                | Ok _ \<Rightarrow>
                    (Suc fresh,
                     Ok \<lparr>pool_id = fresh, pool_info = info, pool_max_size = pool_size c\<rparr>))))"

definition create_pool_for_database ::
  "'s redis_lib \<Rightarrow> nat \<Rightarrow> config \<Rightarrow> u8 \<Rightarrow> nat \<times> (redis_pool, create_pool_error) result" where
  "create_pool_for_database R fresh c db = create_pool R fresh (c\<lparr>database := db\<rparr>)"

record database_pool_registry =
  base_config :: config
  default_database :: u8
  default_pool :: redis_pool
  pools_by_database :: "u8 \<rightharpoonup> redis_pool"
  next_pool_id :: nat

definition registry_new :: "config \<Rightarrow> redis_pool \<Rightarrow> nat \<Rightarrow> database_pool_registry" where
  "registry_new c pool fresh =
     \<lparr>base_config = c, default_database = database c, default_pool = pool,
      pools_by_database = Map.empty, next_pool_id = fresh\<rparr>"

text \<open>
  The three sections of \<^verbatim>\<open>pool_for_database\<close> between which another task may run: the lookup (under
  the read lock), the creation of a pool (under no lock) and the insertion (under the write lock).
\<close>

definition lookup_pool :: "database_pool_registry \<Rightarrow> u8 \<Rightarrow> redis_pool option" where
  "lookup_pool r db =
     (if db = default_database r then Some (default_pool r) else pools_by_database r db)"

definition new_pool_for ::
  "'s redis_lib \<Rightarrow> database_pool_registry \<Rightarrow> u8 \<Rightarrow>
   database_pool_registry \<times> (redis_pool, create_pool_error) result" where
  "new_pool_for R r db =
     (case create_pool_for_database R (next_pool_id r) (base_config r) db of
        (fresh, res) \<Rightarrow> (r\<lparr>next_pool_id := fresh\<rparr>, res))"

definition insert_pool ::
  "database_pool_registry \<Rightarrow> u8 \<Rightarrow> redis_pool \<Rightarrow> database_pool_registry \<times> redis_pool" where
  "insert_pool r db new_pool =
     (case pools_by_database r db of
        Some pool \<Rightarrow> (r, pool)
      | None \<Rightarrow> (r\<lparr>pools_by_database := (pools_by_database r)(db \<mapsto> new_pool)\<rparr>, new_pool))"

definition pool_for_database ::
  "'s redis_lib \<Rightarrow> database_pool_registry \<Rightarrow> u8 \<Rightarrow>
   database_pool_registry \<times> (redis_pool, create_pool_error) result" where
  "pool_for_database R r db =
     (case lookup_pool r db of
        Some pool \<Rightarrow> (r, Ok pool)
      | None \<Rightarrow>
          (case new_pool_for R r db of
             (r1, Err e) \<Rightarrow> (r1, Err e)
           | (r1, Ok new_pool) \<Rightarrow> (case insert_pool r1 db new_pool of (r2, pool) \<Rightarrow> (r2, Ok pool))))"

section \<open>The executor\<close>

text \<open>The executor's state is its registry and whatever the Redis servers keep.\<close>

definition redis_execute ::
  "'s redis_lib \<Rightarrow> (database_pool_registry \<times> 's) executor" where
  "redis_execute R st req =
     (case st of (r, srv) \<Rightarrow>
        (case pool_for_database R r (target_database req) of
           (r1, Err e) \<Rightarrow> ((r1, srv), Err (ServiceUnavailable (pool_error_text R e)))
         | (r1, Ok pool) \<Rightarrow>
             (case pool_get R srv pool of
                (srv1, Err e) \<Rightarrow> ((r1, srv1), Err (ServiceUnavailable e))
              | (srv1, Ok _) \<Rightarrow>
                  (case query R srv1 (pool_info pool) (command_name req # command_args req) of
                     (srv2, Err e) \<Rightarrow> ((r1, srv2), Err (ExecutionFailed e))
                   | (srv2, Ok v) \<Rightarrow> ((r1, srv2), Ok v)))))"

section \<open>Pools are bound to their database\<close>

text \<open>
  The documented URL format of the redis crate: the last path segment of
  \<^verbatim>\<open>redis://authority/db\<close> is the database. The authority must not itself contain a delimiter.
\<close>

definition authority :: "config \<Rightarrow> str" where
  "authority c = redis_auth_str (redis_auth c) @ redis_host c @ '':'' @ dec (unat (redis_port c))"

definition plain_authority :: "str \<Rightarrow> bool" where
  "plain_authority a \<longleftrightarrow> set a \<inter> {CHR ''/'', CHR ''?'', CHR ''#''} = {}"

definition url_database_law :: "'s redis_lib \<Rightarrow> bool" where
  "url_database_law R \<longleftrightarrow>
     (\<forall>scheme\<in>{''redis'', ''rediss''}. \<forall>a n info.
        plain_authority a \<longrightarrow> url_info R (scheme @ ''://'' @ a @ ''/'' @ dec n) = Ok info \<longrightarrow>
        conn_db (conn_settings info) = int n)"

text \<open>A pool made from the base configuration with only the database replaced.\<close>

definition pool_of_database :: "'s redis_lib \<Rightarrow> config \<Rightarrow> u8 \<Rightarrow> redis_pool \<Rightarrow> bool" where
  "pool_of_database R c db pool \<longleftrightarrow>
     pool_connection_info R (c\<lparr>database := db\<rparr>) = Ok (pool_info pool) \<and>
     pool_max_size pool = pool_size c"

definition registry_ok :: "'s redis_lib \<Rightarrow> config \<Rightarrow> database_pool_registry \<Rightarrow> bool" where
  "registry_ok R c r \<longleftrightarrow>
     base_config r = c \<and> default_database r = database c \<and>
     (\<forall>db pool. lookup_pool r db = Some pool \<longrightarrow> pool_of_database R c db pool)"

lemma get_redis_url_authority:
  "get_redis_url (c\<lparr>database := db\<rparr>) =
     (if ssl_enabled c then ''rediss'' else ''redis'') @ ''://'' @ authority c @ ''/'' @ dec (unat db)"
  by (simp add: get_redis_url_def authority_def ssl_enabled_def)

lemma keepalive_keeps_settings [simp]:
  "conn_settings (maybe_apply_tcp_keepalive c info) = conn_settings info"
  by (auto simp: maybe_apply_tcp_keepalive_def split: option.splits conn_addr.splits)

lemma unix_info_db:
  assumes "connection_info_for_unix_socket_redis R c path = Ok info"
  shows "conn_db (conn_settings info) = uint (database c)"
  using assms
  by (auto simp: connection_info_for_unix_socket_redis_def Let_def
      split: prod.splits option.splits sum.splits)

lemma pool_connection_info_db:
  assumes "url_database_law R" and "redis_socket c \<noteq> None \<or> plain_authority (authority c)"
    and "pool_connection_info R (c\<lparr>database := db\<rparr>) = Ok info"
  shows "conn_db (conn_settings info) = uint db"
proof (cases "redis_socket c")
  case None
  obtain i where i: "url_info R (get_redis_url (c\<lparr>database := db\<rparr>)) = Ok i"
    "conn_settings info = (conn_settings i)\<lparr>conn_protocol := RESP2\<rparr>"
    using assms(3) None by (auto simp: pool_connection_info_def split: sum.splits)
  have "conn_db (conn_settings i) = int (unat db)"
    using i(1) assms(1,2) None unfolding get_redis_url_authority url_database_law_def
    by (cases "ssl_enabled c") auto
  with i(2) show ?thesis
    by simp
next
  case (Some socket)
  with assms(3) show ?thesis
    by (auto simp: pool_connection_info_def split: if_splits dest!: unix_info_db)
qed

lemma pool_size_database [simp]: "pool_size (c\<lparr>database := db\<rparr>) = pool_size c"
  by (simp add: pool_size_def)

lemma create_pool_Ok:
  assumes "create_pool R n c = (n', Ok pool)"
  shows "pool_connection_info R c = Ok (pool_info pool) \<and> pool_max_size pool = pool_size c \<and>
    pool_id pool = n \<and> n' = Suc n"
  using assms by (auto simp: create_pool_def manager_new_def split: sum.splits)

lemma new_pool_for_keeps:
  assumes "new_pool_for R r db = (r', res)"
  shows "base_config r' = base_config r" "default_database r' = default_database r"
    "lookup_pool r' = lookup_pool r" "pools_by_database r' = pools_by_database r"
    "default_pool r' = default_pool r"
  using assms by (auto simp: new_pool_for_def lookup_pool_def fun_eq_iff split: prod.splits)

lemma new_pool_for_Ok:
  assumes "new_pool_for R r db = (r', Ok pool)"
  shows "pool_of_database R (base_config r) db pool"
  using assms
  by (auto simp: new_pool_for_def create_pool_for_database_def pool_of_database_def
      split: prod.splits dest!: create_pool_Ok)

lemma insert_pool_keeps:
  assumes "insert_pool r db new = (r', pool)"
  shows "base_config r' = base_config r" "default_database r' = default_database r"
    "default_pool r' = default_pool r"
  using assms by (auto simp: insert_pool_def split: option.splits)

lemma insert_pool_lookup:
  assumes "insert_pool r db new = (r', pool)" and "db \<noteq> default_database r"
  shows "lookup_pool r' db = Some pool"
    and "lookup_pool r d = Some p \<Longrightarrow> lookup_pool r' d = Some p"
    and "lookup_pool r' d = Some p \<Longrightarrow> lookup_pool r d = Some p \<or> d = db \<and> p = new"
    and "lookup_pool r db = None \<Longrightarrow> pool = new"
proof -
  have cases: "(pools_by_database r db = Some pool \<and> r' = r) \<or>
      (pools_by_database r db = None \<and> pool = new \<and>
       r' = r\<lparr>pools_by_database := (pools_by_database r)(db \<mapsto> new)\<rparr>)"
    using assms(1) by (cases "pools_by_database r db") (simp_all add: insert_pool_def eq_commute)
  show "lookup_pool r' db = Some pool"
    using cases assms(2) by (elim disjE) (simp_all add: lookup_pool_def)
  show "lookup_pool r d = Some p \<Longrightarrow> lookup_pool r' d = Some p"
    using cases by (elim disjE) (auto simp: lookup_pool_def)
  show "lookup_pool r' d = Some p \<Longrightarrow> lookup_pool r d = Some p \<or> d = db \<and> p = new"
    using cases by (elim disjE) (auto simp: lookup_pool_def split: if_splits)
  show "lookup_pool r db = None \<Longrightarrow> pool = new"
    using cases assms(2) by (elim disjE) (simp_all add: lookup_pool_def)
qed

lemma new_pool_for_ok [wf_intros]:
  "registry_ok R c r \<Longrightarrow> new_pool_for R r db = (r', res) \<Longrightarrow> registry_ok R c r'"
  by (auto simp: registry_ok_def dest: new_pool_for_keeps)

lemma insert_pool_ok [wf_intros]:
  assumes "registry_ok R c r" and "insert_pool r db new = (r', pool)"
    and "db \<noteq> default_database r" and "pool_of_database R c db new"
  shows "registry_ok R c r'"
  using assms(1,4) insert_pool_keeps(1,2) [OF assms(2)]
  by (auto simp: registry_ok_def dest!: insert_pool_lookup(3) [OF assms(2,3)])

lemma lookup_pool_None: "lookup_pool r db = None \<Longrightarrow> db \<noteq> default_database r"
  by (auto simp: lookup_pool_def)

text \<open>A call either finds the pool, or fails to make one, or registers a new one.\<close>

lemma pool_for_database_cases:
  obtains (hit) pool where "lookup_pool r db = Some pool" "pool_for_database R r db = (r, Ok pool)"
  | (failed) r1 e where "lookup_pool r db = None" "new_pool_for R r db = (r1, Err e)"
      "pool_for_database R r db = (r1, Err e)"
  | (made) r1 new r2 where "lookup_pool r db = None" "new_pool_for R r db = (r1, Ok new)"
      "insert_pool r1 db new = (r2, new)" "pool_for_database R r db = (r2, Ok new)"
proof (cases "lookup_pool r db")
  case None
  obtain r1 res where new: "new_pool_for R r db = (r1, res)"
    by fastforce
  show ?thesis
  proof (cases res)
    case (Inr p)
    obtain r2 q where ins: "insert_pool r1 db p = (r2, q)"
      by fastforce
    have "q = p"
      using insert_pool_lookup(4) [OF ins] new_pool_for_keeps [OF new] None lookup_pool_None [OF None]
      by metis
    with ins show ?thesis
      using made None new Inr by (simp add: pool_for_database_def)
  qed (use failed None new in \<open>simp add: pool_for_database_def\<close>)
qed (simp add: hit pool_for_database_def)

lemma pool_for_database_ok:
  assumes "registry_ok R c r" and "pool_for_database R r db = (r', res)"
  shows "registry_ok R c r'"
  using assms
proof (cases rule: pool_for_database_cases [of r db R])
  case (made r1 new r2)
  have "pool_of_database R c db new"
    using new_pool_for_Ok [OF made(2)] assms(1) by (simp add: registry_ok_def)
  moreover have "db \<noteq> default_database r1"
    using lookup_pool_None [OF made(1)] new_pool_for_keeps(2) [OF made(2)] by simp
  ultimately show ?thesis
    using insert_pool_ok [OF new_pool_for_ok [OF assms(1) made(2)] made(3)] made(4) assms(2) by simp
qed (auto intro: new_pool_for_ok)

lemma pool_for_database_registered:
  assumes "pool_for_database R r db = (r', Ok pool)"
  shows "lookup_pool r' db = Some pool"
  using assms
proof (cases rule: pool_for_database_cases [of r db R])
  case (made r1 new r2)
  then show ?thesis
    using insert_pool_lookup(1) [OF made(3)] lookup_pool_None [OF made(1)]
      new_pool_for_keeps(2) [OF made(2)] assms by simp
qed auto

section \<open>Concurrent callers\<close>

text \<open>
  Each task is one call of \<^verbatim>\<open>pool_for_database\<close>; the scheduler may run other tasks between its three
  sections.
\<close>

datatype pool_task =
    Calling u8
  | Missed u8
  | Created u8 redis_pool
  | Holds u8 redis_pool
  | Failed u8 create_pool_error

record pool_system =
  registry :: database_pool_registry
  tasks :: "nat \<rightharpoonup> pool_task"

inductive pool_step :: "'s redis_lib \<Rightarrow> pool_system \<Rightarrow> pool_system \<Rightarrow> bool" for R where
  call: "tasks s t = None \<Longrightarrow> pool_step R s (s\<lparr>tasks := (tasks s)(t \<mapsto> Calling db)\<rparr>)"
| lookup_hit:
    "tasks s t = Some (Calling db) \<Longrightarrow> lookup_pool (registry s) db = Some pool \<Longrightarrow>
       pool_step R s (s\<lparr>tasks := (tasks s)(t \<mapsto> Holds db pool)\<rparr>)"
| lookup_miss:
    "tasks s t = Some (Calling db) \<Longrightarrow> lookup_pool (registry s) db = None \<Longrightarrow>
       pool_step R s (s\<lparr>tasks := (tasks s)(t \<mapsto> Missed db)\<rparr>)"
| create_ok:
    "tasks s t = Some (Missed db) \<Longrightarrow> new_pool_for R (registry s) db = (r, Ok pool) \<Longrightarrow>
       pool_step R s \<lparr>registry = r, tasks = (tasks s)(t \<mapsto> Created db pool)\<rparr>"
| create_err:
    "tasks s t = Some (Missed db) \<Longrightarrow> new_pool_for R (registry s) db = (r, Err e) \<Longrightarrow>
       pool_step R s \<lparr>registry = r, tasks = (tasks s)(t \<mapsto> Failed db e)\<rparr>"
| insert_new:
    "tasks s t = Some (Created db new) \<Longrightarrow> insert_pool (registry s) db new = (r, pool) \<Longrightarrow>
       pool_step R s \<lparr>registry = r, tasks = (tasks s)(t \<mapsto> Holds db pool)\<rparr>"

definition pool_start :: "'s redis_lib \<Rightarrow> config \<Rightarrow> pool_system \<Rightarrow> bool" where
  "pool_start R c s \<longleftrightarrow>
     (\<exists>n pool n'. create_pool R n c = (n', Ok pool) \<and> registry s = registry_new c pool n') \<and>
     tasks s = Map.empty"

fun task_ok :: "'s redis_lib \<Rightarrow> config \<Rightarrow> database_pool_registry \<Rightarrow> pool_task \<Rightarrow> bool" where
  "task_ok R c r (Calling db) = True"
| "task_ok R c r (Missed db) = (db \<noteq> database c)"
| "task_ok R c r (Created db pool) = (db \<noteq> database c \<and> pool_of_database R c db pool)"
| "task_ok R c r (Holds db pool) = (lookup_pool r db = Some pool)"
| "task_ok R c r (Failed db e) = True"

definition pools_inv :: "'s redis_lib \<Rightarrow> config \<Rightarrow> pool_system \<Rightarrow> bool" where
  "pools_inv R c s \<longleftrightarrow>
     registry_ok R c (registry s) \<and> (\<forall>t k. tasks s t = Some k \<longrightarrow> task_ok R c (registry s) k)"

lemma task_ok_mono:
  "task_ok R c r k \<Longrightarrow> (\<And>d p. lookup_pool r d = Some p \<Longrightarrow> lookup_pool r' d = Some p) \<Longrightarrow>
     task_ok R c r' k"
  by (cases k) auto

lemma pools_inv_update:
  assumes "pools_inv R c s" and "registry_ok R c r" and "task_ok R c r k"
    and "\<And>d p. lookup_pool (registry s) d = Some p \<Longrightarrow> lookup_pool r d = Some p"
  shows "pools_inv R c \<lparr>registry = r, tasks = (tasks s)(t \<mapsto> k)\<rparr>"
proof -
  have "task_ok R c r k'" if "tasks s t' = Some k'" for t' k'
  proof (rule task_ok_mono)
    show "task_ok R c (registry s) k'"
      using assms(1) that by (simp add: pools_inv_def)
  qed (rule assms(4))
  with assms(2,3) show ?thesis
    by (auto simp: pools_inv_def)
qed

lemma pools_inv_task: "pools_inv R c s \<Longrightarrow> tasks s t = Some k \<Longrightarrow> task_ok R c (registry s) k"
  by (simp add: pools_inv_def)

lemma pool_system_eta:
  "s\<lparr>tasks := ts\<rparr> = \<lparr>registry = registry s, tasks = ts\<rparr>"
  by (cases s) simp

lemma registry_new_ok:
  assumes "create_pool R n c = (n', Ok pool)"
  shows "registry_ok R c (registry_new c pool n')"
  using create_pool_Ok [OF assms]
  by (auto simp: registry_ok_def registry_new_def lookup_pool_def pool_of_database_def split: if_splits)

lemma pools_inv_step:
  assumes "pools_inv R c s" and "pool_step R s s'"
  shows "pools_inv R c s'"
proof -
  have reg: "registry_ok R c (registry s)"
    using assms(1) by (simp add: pools_inv_def)
  from assms(2,1) show ?thesis
  proof cases
    case (create_ok t db r pool)
    have "task_ok R c (registry s) (Missed db)"
      using pools_inv_task [OF assms(1) create_ok(2)] .
    with reg have "task_ok R c r (Created db pool)"
      using new_pool_for_Ok [OF create_ok(3)] by (simp add: registry_ok_def)
    with create_ok reg assms(1) show ?thesis
      by (simp add: pools_inv_update new_pool_for_ok new_pool_for_keeps(3))
  next
    case (insert_new t db new r pool)
    have "task_ok R c (registry s) (Created db new)"
      using pools_inv_task [OF assms(1) insert_new(2)] .
    with reg have new: "db \<noteq> default_database (registry s)" "pool_of_database R c db new"
      by (auto simp: registry_ok_def)
    note look = insert_pool_lookup [OF insert_new(3) new(1)]
    show ?thesis
      unfolding insert_new(1)
      by (rule pools_inv_update [OF assms(1)])
        (use look(1,2) insert_pool_ok [OF reg insert_new(3) new] in auto)
  next
    case (create_err t db r e)
    then show ?thesis
      using assms(1) new_pool_for_keeps(3) [OF create_err(3)] new_pool_for_ok [OF reg create_err(3)]
      by (simp add: pools_inv_update)
  next
    case (lookup_miss t db)
    then show ?thesis
      using reg lookup_pool_None [OF lookup_miss(3)] unfolding lookup_miss(1) pool_system_eta
      by (intro pools_inv_update [OF assms(1)]) (auto simp: registry_ok_def)
  qed (use reg in \<open>simp_all add: pool_system_eta pools_inv_update\<close>)
qed

interpretation pool_system: invariant_system "pool_start R c" "pool_step R" "pools_inv R c"
  for R c
proof unfold_locales
  show "pool_start R c s \<Longrightarrow> pools_inv R c s" for s
    by (auto simp: pool_start_def pools_inv_def registry_new_ok)
qed (rule pools_inv_step)

text \<open>One call with no other task in between takes the steps of its task.\<close>

lemma pool_for_database_steps:
  assumes "pool_for_database R r db = (r', Ok pool)" and "ts t = None"
  shows "(pool_step R)\<^sup>*\<^sup>* \<lparr>registry = r, tasks = ts\<rparr> \<lparr>registry = r', tasks = ts(t \<mapsto> Holds db pool)\<rparr>"
proof -
  have start: "pool_step R \<lparr>registry = r, tasks = ts\<rparr> \<lparr>registry = r, tasks = ts(t \<mapsto> Calling db)\<rparr>"
    using pool_step.call [of "\<lparr>registry = r, tasks = ts\<rparr>" t] assms(2) by simp
  show ?thesis
  proof (cases rule: pool_for_database_cases [of r db R])
    case (hit p)
    then show ?thesis
      using assms(1) start
        pool_step.lookup_hit [of "\<lparr>registry = r, tasks = ts(t \<mapsto> Calling db)\<rparr>" t db p R]
      by (simp add: rtranclp.intros)
  next
    case (made r1 new r2)
    have "pool_step R \<lparr>registry = r, tasks = ts(t \<mapsto> Calling db)\<rparr>
        \<lparr>registry = r, tasks = ts(t \<mapsto> Missed db)\<rparr>"
      using pool_step.lookup_miss [of "\<lparr>registry = r, tasks = ts(t \<mapsto> Calling db)\<rparr>" t db R] made(1)
      by simp
    moreover have "pool_step R \<lparr>registry = r, tasks = ts(t \<mapsto> Missed db)\<rparr>
        \<lparr>registry = r1, tasks = ts(t \<mapsto> Created db new)\<rparr>"
      using pool_step.create_ok [of "\<lparr>registry = r, tasks = ts(t \<mapsto> Missed db)\<rparr>" t db R r1 new] made(2)
      by simp
    moreover have "pool_step R \<lparr>registry = r1, tasks = ts(t \<mapsto> Created db new)\<rparr>
        \<lparr>registry = r2, tasks = ts(t \<mapsto> Holds db new)\<rparr>"
      using pool_step.insert_new [of "\<lparr>registry = r1, tasks = ts(t \<mapsto> Created db new)\<rparr>" t db new r2 new R]
        made(3) by simp
    ultimately show ?thesis
      using start made(4) assms(1) by (auto intro: converse_rtranclp_into_rtranclp)
  qed (use assms in simp)
qed

section \<open>What the executor runs, and where\<close>

lemma redis_execute_registry_ok:
  assumes "registry_ok R c r" and "redis_execute R (r, srv) req = ((r', srv'), res)"
  shows "registry_ok R c r'"
proof -
  obtain r1 pres where p: "pool_for_database R r (target_database req) = (r1, pres)"
    by fastforce
  then have "r' = r1"
    using assms(2) by (auto simp: redis_execute_def split: prod.splits sum.splits)
  with pool_for_database_ok [OF assms(1) p] show ?thesis
    by simp
qed

lemma redis_execute_query:
  assumes "registry_ok R c r" and "url_database_law R"
    and "redis_socket c \<noteq> None \<or> plain_authority (authority c)"
    and "redis_execute R (r, srv) req = ((r', srv'), res)"
  shows "(\<exists>m. res = Err (ServiceUnavailable m)) \<or>
    (\<exists>info srv1 qres. conn_db (conn_settings info) = uint (target_database req) \<and>
       query R srv1 info (command_name req # command_args req) = (srv', qres) \<and>
       res = (case qres of Ok v \<Rightarrow> Ok v | Err e \<Rightarrow> Err (ExecutionFailed e)))"
proof -
  let ?db = "target_database req"
  obtain r1 pres where p: "pool_for_database R r ?db = (r1, pres)" by fastforce
  show ?thesis
  proof (cases pres)
    case (Inr pool)
    have "pool_of_database R c ?db pool"
      using pool_for_database_ok [OF assms(1) p] pool_for_database_registered [OF p [unfolded Inr]]
      by (auto simp: registry_ok_def)
    then have "conn_db (conn_settings (pool_info pool)) = uint ?db"
      using pool_connection_info_db [OF assms(2,3)] by (auto simp: pool_of_database_def)
    then show ?thesis
      using assms(4) p Inr by (fastforce simp: redis_execute_def split: prod.splits sum.splits)
  qed (use assms(4) p in \<open>auto simp: redis_execute_def\<close>)
qed

section \<open>A sample of the libraries\<close>

text \<open>
  An instance on which the hypotheses hold together: URLs are read back as the documented format
  says, every call succeeds, and the servers log the database and the command of each query.
\<close>

definition sample_info :: "int \<Rightarrow> connection_info" where
  "sample_info db =
     \<lparr>conn_addr = Tcp ''h'' 1, conn_settings = default_settings\<lparr>conn_db := db\<rparr>, conn_keepalive = None\<rparr>"

definition sample_redis :: "(int \<times> bytes list) list redis_lib" where
  "sample_redis =
     \<lparr>url_info = (\<lambda>u. Ok (sample_info (int (digits_val (last (split_on (CHR ''/'') u)))))),
      addr_info = (\<lambda>_. Ok (sample_info 0)), client_open = (\<lambda>_. Ok ()),
      file_metadata = (\<lambda>_. Ok Socket), build_pool = (\<lambda>_ _. Ok ()), pool_error_text = (\<lambda>_. []),
      pool_get = (\<lambda>s _. (s, Ok ())),
      query = (\<lambda>s info args. (s @ [(conn_db (conn_settings info), args)], Ok Okay))\<rparr>"

lemma sample_url_law: "url_database_law sample_redis"
proof -
  have "last (split_on (CHR ''/'') (s @ ''://'' @ a @ ''/'' @ dec n)) = dec n" for s a :: str and n
    using last_split_on [OF dec_no_slash, of "s @ ''://'' @ a" n] by simp
  then show ?thesis
    by (auto simp: url_database_law_def sample_redis_def sample_info_def)
qed

section \<open>What the pools guarantee\<close>

text \<open>C7. However concurrent calls interleave, all callers that hold a pool for a database hold the same one, and it
  was made from the base configuration for that database.\<close>

theorem concurrent_callers_share_pool:
  assumes "reachable (pool_start R c) (pool_step R) s"
    and "tasks s t = Some (Holds db p)" and "tasks s u = Some (Holds db q)"
  shows "p = q \<and> pool_of_database R c db p"
proof -
  have inv: "pools_inv R c s"
    by (rule pool_system.reachable_inv [OF assms(1)])
  have "lookup_pool (registry s) db = Some p" "lookup_pool (registry s) db = Some q"
    using pools_inv_task [OF inv assms(2)] pools_inv_task [OF inv assms(3)] by simp_all
  with inv show ?thesis
    by (auto simp: pools_inv_def registry_ok_def)
qed

text \<open>C6. A command is run with exactly its name and arguments, on a connection whose database is the one the command
  asks for; if it is not run, the answer is that the service is unavailable.\<close>

theorem executor_uses_requested_database:
  assumes "registry_ok R c r" and "url_database_law R"
    and "redis_socket c \<noteq> None \<or> plain_authority (authority c)"
    and "redis_execute R (r, srv) req = ((r', srv'), res)"
  shows "registry_ok R c r' \<and>
    ((\<exists>m. res = Err (ServiceUnavailable m)) \<or>
     (\<exists>info srv1 qres. conn_db (conn_settings info) = uint (target_database req) \<and>
        query R srv1 info (command_name req # command_args req) = (srv', qres) \<and>
        res = (case qres of Ok v \<Rightarrow> Ok v | Err e \<Rightarrow> Err (ExecutionFailed e))))"
  using redis_execute_registry_ok [OF assms(1,4)] redis_execute_query [OF assms] by simp

text \<open>The pool of the default configuration, and a registry with it.\<close>

definition sample_pool :: redis_pool where
  "sample_pool = \<lparr>pool_id = 0, pool_info = sample_info 0, pool_max_size = 40\<rparr>"

lemma sample_authority: "plain_authority (authority default_config)"
proof -
  have "authority default_config = ''127.0.0.1:'' @ dec 6379"
    by (simp add: authority_def default_config_def redis_auth_str_def default_redis_host_def
        default_redis_port_def)
  then show ?thesis
    using dec_digits [of 6379] by (auto simp: plain_authority_def list_all_iff is_ascii_digit_def)
qed

lemma sample_create_pool: "create_pool sample_redis 0 default_config = (1, Ok sample_pool)"
proof -
  have "last (split_on (CHR ''/'') (get_redis_url default_config)) = dec 0"
  proof -
    have "default_config\<lparr>database := 0\<rparr> = default_config" "\<not> ssl_enabled default_config"
      by (simp_all add: default_config_def DEFAULT_DATABASE_def ssl_enabled_def)
    then have "get_redis_url default_config = (''redis://'' @ authority default_config) @ CHR ''/'' # dec 0"
      using get_redis_url_authority [of 0 default_config] by simp
    then show ?thesis
      using last_split_on [OF dec_no_slash] by simp
  qed
  then show ?thesis
    by (simp add: create_pool_def manager_new_def pool_connection_info_def sample_redis_def sample_pool_def sample_info_def
        maybe_apply_tcp_keepalive_def pool_size_def default_config_def DEFAULT_POOL_SIZE_PER_THREAD_def
        DEFAULT_HTTP_THREADS_def default_settings_def)
qed

theorem concurrent_callers_share_pool_witness:
  "sample_pool = sample_pool \<and> pool_of_database sample_redis default_config 0 sample_pool"
proof -
  let ?reg = "registry_new default_config sample_pool 1"
  have start: "reachable (pool_start sample_redis default_config) (pool_step sample_redis)
      \<lparr>registry = ?reg, tasks = Map.empty\<rparr>"
    using sample_create_pool by (intro reach_start) (auto simp: pool_start_def)
  have hit: "pool_for_database sample_redis ?reg 0 = (?reg, Ok sample_pool)"
    by (simp add: pool_for_database_def lookup_pool_def registry_new_def default_config_def
        DEFAULT_DATABASE_def)
  have one: "(pool_step sample_redis)\<^sup>*\<^sup>* \<lparr>registry = ?reg, tasks = Map.empty\<rparr>
      \<lparr>registry = ?reg, tasks = [0 \<mapsto> Holds 0 sample_pool]\<rparr>"
    using pool_for_database_steps [OF hit, of Map.empty 0] by simp
  have two: "(pool_step sample_redis)\<^sup>*\<^sup>* \<lparr>registry = ?reg, tasks = [0 \<mapsto> Holds 0 sample_pool]\<rparr>
      \<lparr>registry = ?reg, tasks = [0 \<mapsto> Holds 0 sample_pool, 1 \<mapsto> Holds 0 sample_pool]\<rparr>"
    using pool_for_database_steps [OF hit, of "[0 \<mapsto> Holds 0 sample_pool]" 1] by simp
  have "reachable (pool_start sample_redis default_config) (pool_step sample_redis)
      \<lparr>registry = ?reg, tasks = [0 \<mapsto> Holds 0 sample_pool, 1 \<mapsto> Holds 0 sample_pool]\<rparr>"
    using pool_system.reachable_steps_inv [OF start rtranclp_trans [OF one two]] by simp
  from concurrent_callers_share_pool [OF this, of 0 0 sample_pool 1 sample_pool] show ?thesis
    by simp
qed

theorem executor_uses_requested_database_witness:
  "registry_ok sample_redis default_config (registry_new default_config sample_pool 1) \<and>
   (\<exists>r' srv' res. redis_execute sample_redis (registry_new default_config sample_pool 1, [])
      \<lparr>target_database = 3, command_name = ''PING'', command_args = []\<rparr> = ((r', srv'), res) \<and>
      registry_ok sample_redis default_config r')"
proof -
  let ?reg = "registry_new default_config sample_pool 1"
  let ?req = "\<lparr>target_database = 3, command_name = ''PING'', command_args = []\<rparr>"
  have ok: "registry_ok sample_redis default_config ?reg"
    by (rule registry_new_ok [OF sample_create_pool])
  obtain r' srv' res where ex: "redis_execute sample_redis (?reg, []) ?req = ((r', srv'), res)"
    by (metis surj_pair)
  from executor_uses_requested_database [OF ok sample_url_law _ ex] sample_authority ok ex show ?thesis
    by blast
qed

end
