(* ===== verification/Server.thy ===== *)
theory Server
  imports Compat_Ws Grpc Pools
begin

text \<open>
  \<^verbatim>\<open>crates/redis-web-runtime/src/server.rs\<close>: how the runtime is put together from a configuration, and the
  routes it serves. The route table is data here; matching a path against it is axum's.
\<close>

section \<open>Building the runtime\<close>

datatype server_build_error =
    RedisPoolFailed create_pool_error
  | PubSubFailed redis_error
  | CompatFailed redis_error

text \<open>The backend of the built state: the pool registry and the Redis servers.\<close>

type_synonym 's backend = "database_pool_registry \<times> 's"

record 's runtime_components =
  rt_app_state :: "'s backend app_state"
  rt_registry :: database_pool_registry
  rt_compat :: "compat_settings option"

definition build_runtime_with_dependencies ::
  "externals \<Rightarrow> config \<Rightarrow> (parse_request_input \<Rightarrow> (parsed_request, request_parse_error) result) \<Rightarrow>
   's backend executor \<Rightarrow> database_pool_registry \<Rightarrow> compat_settings option \<Rightarrow> 's runtime_components" where
  "build_runtime_with_dependencies X c parser exec reg sessions_api =
     \<lparr>rt_app_state =
        \<lparr>app_default_database = database c, request_parser = parser, command_executor = exec,
         app_acl = acl_new X (acl c)\<rparr>,
      rt_registry = reg, rt_compat = sessions_api\<rparr>"

definition compat_manager_new ::
  "'s redis_lib \<Rightarrow> config \<Rightarrow> (compat_settings, redis_error) result" where
  "compat_manager_new R c =
     (case create_client R c of
        Err e \<Rightarrow> Err e
      | Ok _ \<Rightarrow>
          (case create_pubsub_client R c of
             Err e \<Rightarrow> Err e
           | Ok _ \<Rightarrow> Ok (settings_from_config c)))"

definition wants_compat :: "config \<Rightarrow> bool" where
  "wants_compat c \<longleftrightarrow>
     transport_mode c = Rest \<and> (case compat_hiredis c of Some h \<Rightarrow> compat_enabled h | None \<Rightarrow> False)"

definition build_runtime ::
  "externals \<Rightarrow> 's redis_lib \<Rightarrow> nat \<Rightarrow> config \<Rightarrow> ('s runtime_components, server_build_error) result" where
  "build_runtime X R fresh c =
     (case create_pool R fresh c of
        (_, Err e) \<Rightarrow> Err (RedisPoolFailed e)
      | (fresh', Ok pool) \<Rightarrow>
          let reg = registry_new c pool fresh' in
          (case create_pubsub_client R c of
             Err e \<Rightarrow> Err (PubSubFailed e)
           | Ok _ \<Rightarrow>
               let build = build_runtime_with_dependencies X c parse_http_request (redis_execute R) reg in
               if wants_compat c then
                 (case compat_manager_new R c of
                    Err e \<Rightarrow> Err (CompatFailed e)
                  | Ok cfg \<Rightarrow> Ok (build (Some cfg)))
               else Ok (build None)))"

definition build_error_text ::
  "'s redis_lib \<Rightarrow> (redis_error \<Rightarrow> str) \<Rightarrow> server_build_error \<Rightarrow> str" where
  "build_error_text R show_error e =
     (case e of
        RedisPoolFailed err \<Rightarrow> ''failed to create Redis pool: '' @ pool_error_text R err
      | PubSubFailed err \<Rightarrow> ''failed to create Redis pub/sub client: '' @ show_error err
      | CompatFailed err \<Rightarrow> ''failed to create hiredis-compat session manager: '' @ show_error err)"

section \<open>Routes\<close>

datatype http_method = GET | POST | PUT | DELETE | OPTIONS

datatype endpoint =
    HandleGet | HandlePost | HandlePut | HandleOptions | HandleSubscribe | HandleDefaultRoot str
  | CreateSession | DeleteSession | CommandRaw | StreamRaw | WsRaw | WsJson | WsRawResp

type_synonym route = "str \<times> (http_method \<times> endpoint) list"

definition compat_routes :: "compat_settings option \<Rightarrow> route list" where
  "compat_routes sessions_api =
     (case sessions_api of
        None \<Rightarrow> []
      | Some cfg \<Rightarrow>
          let p = set_path_prefix cfg in
          [(p @ ''/session'', [(POST, CreateSession), (OPTIONS, HandleOptions)]),
           (p @ ''/session/{session_id}'', [(DELETE, DeleteSession)]),
           (p @ ''/cmd/{*session_id}'', [(POST, CommandRaw)]),
           (p @ ''/stream/{*session_id}'', [(GET, StreamRaw)]),
           (p @ ''/ws/{session_id}'', [(GET, WsRaw)])])"

definition build_routes :: "config \<Rightarrow> compat_settings option \<Rightarrow> route list" where
  "build_routes c sessions_api =
     [(''/{*command}'',
        [(GET, HandleGet), (POST, HandlePost), (PUT, HandlePut), (OPTIONS, HandleOptions)]),
      (''/SUBSCRIBE/{*channel}'', [(GET, HandleSubscribe)])] @
     compat_routes sessions_api @
     (case default_root c of
        Some root \<Rightarrow> [(''/'', [(GET, HandleDefaultRoot root), (OPTIONS, HandleOptions)])]
      | None \<Rightarrow> [(''/'', [(OPTIONS, HandleOptions)])]) @
     (if websockets c then [(''/.json'', [(GET, WsJson)]), (''/.raw'', [(GET, WsRawResp)])] else [])"

definition body_limit :: "config \<Rightarrow> nat" where
  "body_limit c = (case http_max_request_size c of Some n \<Rightarrow> n | None \<Rightarrow> DEFAULT_HTTP_MAX_REQUEST_SIZE)"

section \<open>A built runtime\<close>

lemma build_runtime_Ok:
  assumes "build_runtime X R fresh c = Ok rt"
  shows "\<exists>fresh' pool. create_pool R fresh c = (fresh', Ok pool) \<and> rt_registry rt = registry_new c pool fresh'"
    and "rt_app_state rt = \<lparr>app_default_database = database c, request_parser = parse_http_request,
      command_executor = redis_execute R, app_acl = acl_new X (acl c)\<rparr>"
    and "rt_compat rt = (if wants_compat c then Some (settings_from_config c) else None)"
  using assms
  by (auto simp: build_runtime_def build_runtime_with_dependencies_def compat_manager_new_def Let_def
      split: prod.splits sum.splits if_splits)

lemma build_runtime_registry_ok:
  assumes "build_runtime X R fresh c = Ok rt"
  shows "registry_ok R c (rt_registry rt)"
  using build_runtime_Ok(1) [OF assms] registry_new_ok by metis

end
