(* ===== verification/Cli.thy ===== *)
theory Cli
  imports Server
begin

text \<open>
  \<^verbatim>\<open>crates/redis-web-compat/src/lib.rs\<close> and \<^verbatim>\<open>crates/redis-web/src/lib.rs\<close>: which configuration file an
  invocation uses, the two commands that write one, and what an invocation ends up doing. The file
  system is a function from paths to contents; argument parsing is clap's, and starting the Tokio
  runtime and the listeners is outside the model.
\<close>

section \<open>Names\<close>

definition CANONICAL_CONFIG_NAME :: str where "CANONICAL_CONFIG_NAME = ''redis-web.json''"
definition CANONICAL_MINIMAL_CONFIG_NAME :: str where
  "CANONICAL_MINIMAL_CONFIG_NAME = ''redis-web.min.json''"
definition LEGACY_CONFIG_NAME :: str where "LEGACY_CONFIG_NAME = ''webdis.json''"
definition LEGACY_MINIMAL_CONFIG_NAME :: str where "LEGACY_MINIMAL_CONFIG_NAME = ''webdis.min.json''"
definition CANONICAL_SCHEMA_PATH :: str where "CANONICAL_SCHEMA_PATH = ''./redis-web.schema.json''"
definition LEGACY_SCHEMA_PATH :: str where "LEGACY_SCHEMA_PATH = ''./webdis.schema.json''"

datatype invocation_kind = Canonical | LegacyAlias

fun default_config_name :: "invocation_kind \<Rightarrow> str" where
  "default_config_name Canonical = CANONICAL_CONFIG_NAME"
| "default_config_name LegacyAlias = LEGACY_CONFIG_NAME"

fun default_minimal_config_name :: "invocation_kind \<Rightarrow> str" where
  "default_minimal_config_name Canonical = CANONICAL_MINIMAL_CONFIG_NAME"
| "default_minimal_config_name LegacyAlias = LEGACY_MINIMAL_CONFIG_NAME"

fun default_schema_path :: "invocation_kind \<Rightarrow> str" where
  "default_schema_path Canonical = CANONICAL_SCHEMA_PATH"
| "default_schema_path LegacyAlias = LEGACY_SCHEMA_PATH"

text \<open>The file system: the content of each existing path.\<close>

type_synonym files = "str \<rightharpoonup> bytes"

fun resolve_default_config :: "files \<Rightarrow> invocation_kind \<Rightarrow> str" where
  "resolve_default_config fs Canonical =
     (if fs CANONICAL_CONFIG_NAME \<noteq> None then CANONICAL_CONFIG_NAME
      else if fs CANONICAL_MINIMAL_CONFIG_NAME \<noteq> None then CANONICAL_MINIMAL_CONFIG_NAME
      else if fs LEGACY_CONFIG_NAME \<noteq> None then LEGACY_CONFIG_NAME
      else CANONICAL_CONFIG_NAME)"
| "resolve_default_config fs LegacyAlias = LEGACY_CONFIG_NAME"

section \<open>An invocation\<close>

record cli_args =
  arg_config :: "str option"
  arg_config_path :: "str option"
  arg_write_default :: bool
  arg_write_minimal :: bool

text \<open>
  What the program calls: serde's serialisation, the loader of \<^verbatim>\<open>Config::new\<close> (which sees the files),
  and whether the file system lets a file be written.
\<close>

record cli_lib =
  cli_to_value :: "config \<Rightarrow> json"
  cli_pretty :: "json \<Rightarrow> (str, str) result"
  cli_load :: "files \<Rightarrow> str \<Rightarrow> (config, str) result"
  cli_write_ok :: "str \<Rightarrow> (unit, str) result"

definition write_document ::
  "cli_lib \<Rightarrow> files \<Rightarrow> str \<Rightarrow> json \<Rightarrow> files \<times> (unit, str) result" where
  "write_document E fs path v =
     (if fs path \<noteq> None then (fs, Err (path @ '' already exists''))
      else (case cli_pretty E v of
          Err e \<Rightarrow> (fs, Err e)
        | Ok s \<Rightarrow>
            (case cli_write_ok E path of
               Err e \<Rightarrow> (fs, Err e)
             | Ok _ \<Rightarrow> (fs(path \<mapsto> s @ [CHR 0x0A]), Ok ()))))"

definition write_default_config ::
  "cli_lib \<Rightarrow> files \<Rightarrow> str \<Rightarrow> invocation_kind \<Rightarrow> files \<times> (unit, str) result" where
  "write_default_config E fs path kind =
     write_document E fs path (default_document (cli_to_value E) (default_schema_path kind))"

definition write_minimal_config ::
  "cli_lib \<Rightarrow> files \<Rightarrow> str \<Rightarrow> invocation_kind \<Rightarrow> files \<times> (unit, str) result" where
  "write_minimal_config E fs path kind =
     write_document E fs path (starter_document (default_schema_path kind))"

datatype cli_result = Exit nat | Loaded config str

definition config_path_of :: "files \<Rightarrow> invocation_kind \<Rightarrow> cli_args \<Rightarrow> str" where
  "config_path_of fs kind args =
     (case (case arg_config_path args of Some p \<Rightarrow> Some p | None \<Rightarrow> arg_config args) of
        Some p \<Rightarrow> p
      | None \<Rightarrow>
          if arg_write_minimal args then default_minimal_config_name kind
          else if arg_write_default args then default_config_name kind
          else resolve_default_config fs kind)"

definition exit_of :: "(unit, str) result \<Rightarrow> cli_result" where
  "exit_of res = (case res of Ok _ \<Rightarrow> Exit 0 | Err _ \<Rightarrow> Exit 1)"

definition load_config ::
  "cli_lib \<Rightarrow> files \<Rightarrow> invocation_kind \<Rightarrow> cli_args \<Rightarrow> files \<times> cli_result" where
  "load_config E fs kind args =
     (if arg_write_default args \<and> arg_write_minimal args then (fs, Exit 1)
      else let path = config_path_of fs kind args in
        if arg_write_default args then
          (case write_default_config E fs path kind of (fs', res) \<Rightarrow> (fs', exit_of res))
        else if arg_write_minimal args then
          (case write_minimal_config E fs path kind of (fs', res) \<Rightarrow> (fs', exit_of res))
        else (case cli_load E fs path of
            Ok c \<Rightarrow> (fs, Loaded c path)
          | Err _ \<Rightarrow> (fs, Exit 1)))"

datatype log_level = ERROR | WARN | INFO | DEBUG | TRACE

definition log_level_of :: "config \<Rightarrow> log_level" where
  "log_level_of c =
     (let v = (case verbosity c of Some n \<Rightarrow> n | None \<Rightarrow> DEFAULT_VERBOSITY) in
      if v = 0 then ERROR else if v = 1 then WARN else if v = 2 then INFO
      else if v = 3 then INFO else if v = 4 then DEBUG else TRACE)"

datatype start_result = Exited nat | StartHttp config | StartGrpc config

definition run :: "cli_lib \<Rightarrow> files \<Rightarrow> invocation_kind \<Rightarrow> cli_args \<Rightarrow> files \<times> start_result" where
  "run E fs kind args =
     (case load_config E fs kind args of
        (fs', Exit n) \<Rightarrow> (fs', Exited n)
      | (fs', Loaded c _) \<Rightarrow> (fs', if transport_mode c \<noteq> Rest then Exited 1 else StartHttp c))"

definition run_grpc :: "cli_lib \<Rightarrow> files \<Rightarrow> invocation_kind \<Rightarrow> cli_args \<Rightarrow> files \<times> start_result" where
  "run_grpc E fs kind args =
     (case load_config E fs kind args of
        (fs', Exit n) \<Rightarrow> (fs', Exited n)
      | (fs', Loaded c _) \<Rightarrow> (fs', if transport_mode c \<noteq> Grpc then Exited 1 else StartGrpc c))"

definition ignored_rest_settings :: "config \<Rightarrow> str list" where
  "ignored_rest_settings c =
     (if websockets c then [''websockets''] else []) @
     (if default_root c \<noteq> None then [''default_root''] else []) @
     (if (case compat_hiredis c of Some h \<Rightarrow> compat_enabled h | None \<Rightarrow> False)
      then [''compat_hiredis''] else []) @
     (if http_host c \<noteq> ''0.0.0.0'' \<or> http_port c \<noteq> 7379 then [''http_host/http_port''] else [])"

section \<open>Properties\<close>

lemma write_document_files:
  assumes "write_document E fs path v = (fs', res)"
  shows "fs \<subseteq>\<^sub>m fs' \<and> (fs' \<noteq> fs \<longrightarrow> res = Ok () \<and> fs path = None)"
  using assms by (auto simp: write_document_def map_le_def dom_def split: if_splits sum.splits)

lemma load_config_files:
  assumes "load_config E fs kind args = (fs', res)"
  shows "fs \<subseteq>\<^sub>m fs' \<and> (fs' \<noteq> fs \<longrightarrow> res = Exit 0)"
  using assms
  by (auto simp: load_config_def write_default_config_def write_minimal_config_def exit_of_def Let_def
      split: if_splits prod.splits sum.splits dest!: write_document_files)

text \<open>No invocation overwrites a file: every file that existed keeps its content, and a file is created only by an
  invocation that then exits successfully without starting a server.\<close>

theorem run_never_overwrites:
  assumes "run E fs kind args = (fs', res)"
  shows "fs \<subseteq>\<^sub>m fs' \<and> (fs' \<noteq> fs \<longrightarrow> res = Exited 0)"
  using assms load_config_files [of E fs kind args]
  by (auto simp: run_def split: prod.splits cli_result.splits)

text \<open>A library that accepts everything, and an empty directory.\<close>

definition sample_cli :: cli_lib where
  "sample_cli =
     \<lparr>cli_to_value = (\<lambda>_. JNull), cli_pretty = (\<lambda>_. Ok ''{}''), cli_load = (\<lambda>_ _. Ok default_config),
      cli_write_ok = (\<lambda>_. Ok ())\<rparr>"

theorem run_never_overwrites_witness:
  "\<exists>fs' res. run sample_cli Map.empty Canonical
      \<lparr>arg_config = None, arg_config_path = None, arg_write_default = False, arg_write_minimal = True\<rparr> = (fs', res) \<and>
    fs' \<noteq> Map.empty \<and> res = Exited 0"
proof -
  obtain fs' res where r: "run sample_cli Map.empty Canonical
      \<lparr>arg_config = None, arg_config_path = None, arg_write_default = False, arg_write_minimal = True\<rparr> = (fs', res)"
    by fastforce
  then have "fs' \<noteq> Map.empty"
    by (auto simp: run_def load_config_def write_minimal_config_def write_document_def sample_cli_def exit_of_def)
  with run_never_overwrites [OF r] r show ?thesis
    by blast
qed

end
