(* ===== verification/Startup.thy ===== *)
theory Startup
  imports Cli Server
begin

text \<open>
  Starting the server: \<^verbatim>\<open>start_http_runtime\<close>, \<^verbatim>\<open>start_grpc_runtime\<close> and the two \<^verbatim>\<open>async_main\<close> functions of
  \<^verbatim>\<open>crates/redis-web/src/lib.rs\<close>, and \<^verbatim>\<open>serve\<close> of \<^verbatim>\<open>server.rs\<close> and \<^verbatim>\<open>grpc.rs\<close>. The host must be an IP address:
  the standard library's parser for them comes first. Binding a socket is a parameter.
\<close>

section \<open>Addresses\<close>

text \<open>A reader takes what it recognises from the front of the text and leaves the rest.\<close>

type_synonym 'a reader = "str \<Rightarrow> ('a \<times> str) option"

definition read_char :: "byte \<Rightarrow> unit reader" where
  "read_char c s = (case s of x # r \<Rightarrow> if x = c then Some ((), r) else None | [] \<Rightarrow> None)"

definition digit_value :: "nat \<Rightarrow> byte \<Rightarrow> nat option" where
  "digit_value radix c = (case hex_digit c of Some d \<Rightarrow> if d < radix then Some d else None | None \<Rightarrow> None)"

text \<open>All the digits at the front: not more than \<open>max_digits\<close>, a value up to \<open>limit\<close>, a leading zero only if allowed.\<close>

definition read_number :: "nat \<Rightarrow> nat \<Rightarrow> bool \<Rightarrow> nat \<Rightarrow> nat reader" where
  "read_number radix max_digits allow_zero_prefix limit s =
     (let ds = takeWhile (\<lambda>c. digit_value radix c \<noteq> None) s;
          v = foldl (\<lambda>n c. n * radix + the (digit_value radix c)) 0 ds
      in if ds = [] \<or> max_digits < length ds \<or> limit < v \<or>
           (\<not> allow_zero_prefix \<and> hd ds = CHR ''0'' \<and> 1 < length ds)
         then None else Some (v, drop (length ds) s))"

text \<open>The \<open>i\<close>-th item of a list with separators: all but the first have one before them.\<close>

definition read_separated :: "byte \<Rightarrow> nat \<Rightarrow> 'a reader \<Rightarrow> 'a reader" where
  "read_separated sep i r s =
     (if i = 0 then r s else case read_char sep s of Some (_, s1) \<Rightarrow> r s1 | None \<Rightarrow> None)"

fun read_octets :: "nat \<Rightarrow> nat \<Rightarrow> nat list reader" where
  "read_octets i 0 s = Some ([], s)"
| "read_octets i (Suc n) s =
     (case read_separated (CHR ''.'') i (read_number 10 3 False 255) s of
        None \<Rightarrow> None
      | Some (a, s1) \<Rightarrow>
          (case read_octets (Suc i) n s1 of None \<Rightarrow> None | Some (as, s2) \<Rightarrow> Some (a # as, s2)))"

definition read_ipv4 :: "nat list reader" where
  "read_ipv4 s = read_octets 0 4 s"

text \<open>
  Up to \<open>n\<close> groups of an IPv6 address, starting with the \<open>i\<close>-th of a run; the last two of them may be
  written as an IPv4 address, which ends the run.
\<close>

fun read_groups :: "nat \<Rightarrow> nat \<Rightarrow> str \<Rightarrow> nat list \<times> bool \<times> str" where
  "read_groups i 0 s = ([], False, s)"
| "read_groups i (Suc n) s =
     (case (if 0 < n then read_separated (CHR '':'') i read_ipv4 s else None) of
        Some ([a, b, c, d], s1) \<Rightarrow> ([a * 256 + b, c * 256 + d], True, s1)
      | _ \<Rightarrow>
          (case read_separated (CHR '':'') i (read_number 16 4 True 65535) s of
             None \<Rightarrow> ([], False, s)
           | Some (g, s1) \<Rightarrow> (case read_groups (Suc i) n s1 of (gs, v4, s2) \<Rightarrow> (g # gs, v4, s2))))"

definition read_ipv6 :: "nat list reader" where
  "read_ipv6 s =
     (case read_groups 0 8 s of (head, head_v4, s1) \<Rightarrow>
        if length head = 8 then Some (head, s1)
        else if head_v4 then None
        else case read_char (CHR '':'') s1 of
            None \<Rightarrow> None
          | Some (_, s2) \<Rightarrow>
              (case read_char (CHR '':'') s2 of
                 None \<Rightarrow> None
               | Some (_, s3) \<Rightarrow>
                   (case read_groups 0 (8 - (length head + 1)) s3 of (tail, _, s4) \<Rightarrow>
                      Some (head @ replicate (8 - length head - length tail) 0 @ tail, s4))))"

definition number_of :: "'a :: len word \<Rightarrow> nat list \<Rightarrow> 'a word" where
  "number_of radix ds = foldl (\<lambda>n d. n * radix + of_nat d) 0 ds"

text \<open>\<^verbatim>\<open>str::parse::<IpAddr>\<close>: the whole text must be an address.\<close>

definition parse_ip_addr :: "str \<Rightarrow> ip_addr option" where
  "parse_ip_addr s =
     (case (case read_ipv4 s of
              Some (ds, r) \<Rightarrow> Some (V4 (number_of 256 ds), r)
            | None \<Rightarrow> map_option (\<lambda>(gs, r). (V6 (number_of 65536 gs), r)) (read_ipv6 s)) of
        Some (a, []) \<Rightarrow> Some a
      | _ \<Rightarrow> None)"

section \<open>Serving\<close>

text \<open>
  What the operating system and the libraries answer: binding a listener to an address and a port, whether axum
  accepts a route table (it panics on one whose paths conflict or do not start with a slash), and tonic's reflection
  service.
\<close>

record host_lib =
  lib_listen :: "ip_addr \<Rightarrow> u16 \<Rightarrow> (unit, str) result"
  lib_routes_ok :: "route list \<Rightarrow> bool"
  lib_reflection :: "(unit, str) result"

definition bind_listener :: "host_lib \<Rightarrow> str \<Rightarrow> str \<Rightarrow> u16 \<Rightarrow> (ip_addr \<times> u16, str) result" where
  "bind_listener L refusal host port =
     (case parse_ip_addr host of
        None \<Rightarrow> Err (refusal @ host)
      | Some ip \<Rightarrow> (case lib_listen L ip port of Err e \<Rightarrow> Err e | Ok _ \<Rightarrow> Ok (ip, port)))"

text \<open>What a server serves: a route table with the limit of a request body, or gRPC services with their message limits.\<close>

datatype 's app =
    HttpApp "route list" nat "'s runtime_components"
  | GrpcApp "grpc_service list" nat "nat option" "'s backend app_state"

definition build_router_from_components ::
  "host_lib \<Rightarrow> config \<Rightarrow> 's runtime_components \<Rightarrow> 's app outcome" where
  "build_router_from_components L c rt =
     (let routes = build_routes c (rt_compat rt) in
      if lib_routes_ok L routes then Return (HttpApp routes (body_limit c) rt) else Panic)"

definition build_router_with_dependencies ::
  "externals \<Rightarrow> host_lib \<Rightarrow> config \<Rightarrow> (parse_request_input \<Rightarrow> (parsed_request, request_parse_error) result) \<Rightarrow>
   's backend executor \<Rightarrow> database_pool_registry \<Rightarrow> compat_settings option \<Rightarrow> 's app outcome" where
  "build_router_with_dependencies X L c parser exec reg sessions_api =
     build_router_from_components L c (build_runtime_with_dependencies X c parser exec reg sessions_api)"

definition build_router ::
  "externals \<Rightarrow> 's redis_lib \<Rightarrow> nat \<Rightarrow> host_lib \<Rightarrow> config \<Rightarrow> ('s app, server_build_error) result outcome" where
  "build_router X R fresh L c =
     (case build_runtime X R fresh c of
        Err e \<Rightarrow> Return (Err e)
      | Ok rt \<Rightarrow> (case build_router_from_components L c rt of Panic \<Rightarrow> Panic | Return a \<Rightarrow> Return (Ok a)))"

definition serve_with_listener ::
  "host_lib \<Rightarrow> config \<Rightarrow> 's backend app_state \<Rightarrow> ('s app, str) result" where
  "serve_with_listener L c st =
     (let app = GrpcApp (grpc_services c) (decoding_limit c) (max_encoding_message_size (grpc c)) st in
      if enable_reflection (grpc c)
      then (case lib_reflection L of Err e \<Rightarrow> Err e | Ok _ \<Rightarrow> Ok app)
      else Ok app)"

text \<open>What a started process does: it has exited with a status, or listens and serves.\<close>

datatype 's process = ProcessExit nat | Listening ip_addr u16 "'s app"

definition http_serve :: "host_lib \<Rightarrow> config \<Rightarrow> 's app \<Rightarrow> ('s process, str) result" where
  "http_serve L c app =
     (case bind_listener L ''invalid HTTP host '' (http_host c) (http_port c) of
        Err e \<Rightarrow> Err e
      | Ok (ip, port) \<Rightarrow> Ok (Listening ip port app))"

definition grpc_serve :: "host_lib \<Rightarrow> config \<Rightarrow> 's backend app_state \<Rightarrow> ('s process, str) result" where
  "grpc_serve L c st =
     (case bind_listener L ''invalid gRPC host '' (grpc_host (grpc c)) (grpc_port (grpc c)) of
        Err e \<Rightarrow> Err e
      | Ok (ip, port) \<Rightarrow>
          (case serve_with_listener L c st of Err e \<Rightarrow> Err e | Ok app \<Rightarrow> Ok (Listening ip port app)))"

definition exit_on_error :: "('s process, str) result \<Rightarrow> 's process" where
  "exit_on_error res = (case res of Err _ \<Rightarrow> ProcessExit 1 | Ok p \<Rightarrow> p)"

definition async_main_http ::
  "externals \<Rightarrow> 's redis_lib \<Rightarrow> nat \<Rightarrow> host_lib \<Rightarrow> config \<Rightarrow> 's process outcome" where
  "async_main_http X R fresh L c =
     (case build_runtime X R fresh c of
        Err _ \<Rightarrow> Return (ProcessExit 1)
      | Ok rt \<Rightarrow>
          (case build_router_from_components L c rt of
             Panic \<Rightarrow> Panic
           | Return app \<Rightarrow> Return (exit_on_error (http_serve L c app))))"

definition async_main_grpc ::
  "externals \<Rightarrow> 's redis_lib \<Rightarrow> nat \<Rightarrow> host_lib \<Rightarrow> config \<Rightarrow> 's process outcome" where
  "async_main_grpc X R fresh L c =
     (case build_runtime X R fresh c of
        Err _ \<Rightarrow> Return (ProcessExit 1)
      | Ok rt \<Rightarrow> Return (exit_on_error (grpc_serve L c (rt_app_state rt))))"

text \<open>Tokio's builder refuses a runtime without worker threads by a panic.\<close>

definition start_runtime :: "config \<Rightarrow> 's process outcome \<Rightarrow> 's process outcome" where
  "start_runtime c main = (if runtime_worker_threads c = Some 0 then Panic else main)"

definition main_http ::
  "externals \<Rightarrow> 's redis_lib \<Rightarrow> nat \<Rightarrow> host_lib \<Rightarrow> cli_lib \<Rightarrow> files \<Rightarrow> invocation_kind \<Rightarrow> cli_args \<Rightarrow> 's process outcome" where
  "main_http X R fresh L E fs kind args =
     (case snd (run E fs kind args) of
        StartHttp c \<Rightarrow> start_runtime c (async_main_http X R fresh L c)
      | StartGrpc c \<Rightarrow> start_runtime c (async_main_grpc X R fresh L c)
      | Exited n \<Rightarrow> Return (ProcessExit n))"

definition main_grpc ::
  "externals \<Rightarrow> 's redis_lib \<Rightarrow> nat \<Rightarrow> host_lib \<Rightarrow> cli_lib \<Rightarrow> files \<Rightarrow> invocation_kind \<Rightarrow> cli_args \<Rightarrow> 's process outcome" where
  "main_grpc X R fresh L E fs kind args =
     (case snd (run_grpc E fs kind args) of
        StartHttp c \<Rightarrow> start_runtime c (async_main_http X R fresh L c)
      | StartGrpc c \<Rightarrow> start_runtime c (async_main_grpc X R fresh L c)
      | Exited n \<Rightarrow> Return (ProcessExit n))"

section \<open>What counts as an address\<close>

definition addr_char :: "byte \<Rightarrow> bool" where
  "addr_char c \<longleftrightarrow> hex_digit c \<noteq> None \<or> c \<in> {CHR ''.'', CHR '':''}"

text \<open>A reader takes only characters of addresses from the front.\<close>

definition taken :: "str \<Rightarrow> str \<Rightarrow> bool" where
  "taken s rest \<longleftrightarrow> (\<exists>p. s = p @ rest \<and> list_all addr_char p)"

lemma taken_refl [simp]: "taken s s"
  by (simp add: taken_def)

lemma taken_trans: "taken s t \<Longrightarrow> taken t u \<Longrightarrow> taken s u"
  unfolding taken_def by (metis append.assoc list_all_append)

lemma taken_all: "taken s [] \<longleftrightarrow> list_all addr_char s"
  by (simp add: taken_def)

lemma separators [simp]: "addr_char (CHR ''.'')" "addr_char (CHR '':'')"
  by (simp_all add: addr_char_def)

lemma read_char_taken: "read_char c s = Some (u, rest) \<Longrightarrow> addr_char c \<Longrightarrow> taken s rest"
  by (auto simp: taken_def read_char_def split: list.splits if_splits)

lemma read_number_taken:
  assumes "read_number radix m z limit s = Some (v, rest)"
  shows "taken s rest"
proof -
  let ?ds = "takeWhile (\<lambda>c. digit_value radix c \<noteq> None) s"
  have "rest = drop (length ?ds) s"
    using assms by (auto simp: read_number_def Let_def split: if_splits)
  then have "s = ?ds @ rest"
    by (metis dropWhile_eq_drop takeWhile_dropWhile_id)
  moreover have "list_all addr_char ?ds"
    by (auto simp: list_all_iff digit_value_def addr_char_def split: option.splits dest!: set_takeWhileD)
  ultimately show ?thesis
    unfolding taken_def by blast
qed

lemma read_separated_taken:
  assumes "read_separated sep i r s = Some (v, rest)" and "addr_char sep"
    and "\<And>s v rest. r s = Some (v, rest) \<Longrightarrow> taken s rest"
  shows "taken s rest"
proof (cases "i = 0")
  case True
  with assms show ?thesis by (simp add: read_separated_def)
next
  case False
  then obtain u s1 where "read_char sep s = Some (u, s1)" "r s1 = Some (v, rest)"
    using assms(1) by (auto simp: read_separated_def split: option.splits)
  then show ?thesis
    using taken_trans [OF read_char_taken [OF _ assms(2)] assms(3)] by blast
qed

lemma read_octets_taken: "read_octets i n s = Some (v, rest) \<Longrightarrow> taken s rest"
proof (induction n arbitrary: i s v)
  case (Suc n)
  obtain a s1 as where s1: "read_separated (CHR ''.'') i (read_number 10 3 False 255) s = Some (a, s1)"
    and rest: "read_octets (Suc i) n s1 = Some (as, rest)"
    using Suc.prems by (auto split: option.splits)
  have "taken s s1"
    by (rule read_separated_taken [OF s1]) (simp_all add: read_number_taken)
  then show ?case
    by (rule taken_trans) (rule Suc.IH [OF rest])
qed simp

lemma read_ipv4_taken: "read_ipv4 s = Some (v, rest) \<Longrightarrow> taken s rest"
  unfolding read_ipv4_def by (rule read_octets_taken)

lemma read_groups_taken: "read_groups i n s = (gs, v4, rest) \<Longrightarrow> taken s rest"
proof (induction n arbitrary: i s gs)
  case (Suc n)
  let ?four = "if 0 < n then read_separated (CHR '':'') i read_ipv4 s else None"
  let ?group = "read_separated (CHR '':'') i (read_number 16 4 True 65535) s"
  consider (four) ds where "0 < n" "read_separated (CHR '':'') i read_ipv4 s = Some (ds, rest)" | (none) "rest = s"
    | (some) g s1 gs' where "?group = Some (g, s1)" "read_groups (Suc i) n s1 = (gs', v4, rest)"
    using Suc.prems by (auto split: option.splits prod.splits list.splits if_splits)
  then show ?case
  proof cases
    case four
    show ?thesis
      by (rule read_separated_taken [OF four(2)]) (simp_all add: read_ipv4_taken)
  next
    case none
    then show ?thesis by simp
  next
    case some
    have "taken s s1"
      by (rule read_separated_taken [OF some(1)]) (simp_all add: read_number_taken)
    then show ?thesis
      by (rule taken_trans) (rule Suc.IH [OF some(2)])
  qed
qed simp

lemma read_ipv6_taken:
  assumes "read_ipv6 s = Some (gs, rest)"
  shows "taken s rest"
proof -
  obtain head v4 s1 where head: "read_groups 0 8 s = (head, v4, s1)"
    by (metis prod_cases3)
  note first = read_groups_taken [OF head]
  show ?thesis
  proof (cases "length head = 8")
    case True
    with assms head first show ?thesis by (simp add: read_ipv6_def)
  next
    case False
    then obtain s2 s3 tail v4' s4 where "read_char (CHR '':'') s1 = Some ((), s2)" "read_char (CHR '':'') s2 = Some ((), s3)"
        "read_groups 0 (8 - (length head + 1)) s3 = (tail, v4', s4)" "rest = s4"
      using assms head by (auto simp: read_ipv6_def split: if_splits option.splits prod.splits)
    then have "taken s1 s2" "taken s2 s3" "taken s3 rest"
      by (auto intro: read_char_taken read_groups_taken)
    with first show ?thesis
      by (blast intro: taken_trans)
  qed
qed

lemma parse_ip_addr_chars:
  assumes "parse_ip_addr s = Some a"
  shows "list_all addr_char s"
proof -
  have "taken s []"
    using assms read_ipv4_taken [of s] read_ipv6_taken [of s]
    by (auto simp: parse_ip_addr_def split: option.splits list.splits prod.splits)
  then show ?thesis by (simp add: taken_all)
qed

text \<open>Four octets in decimal are an address.\<close>

lemma dec_octet: "a \<le> 255 \<Longrightarrow> length (dec a) \<le> 3 \<and> (1 < length (dec a) \<longrightarrow> hd (dec a) \<noteq> CHR ''0'')"
proof -
  assume a: "a \<le> 255"
  have "dec a = (if a < 10 then [digit_byte a]
      else if a < 100 then [digit_byte (a div 10), digit_byte (a mod 10)]
      else [digit_byte (a div 100), digit_byte (a div 10 mod 10), digit_byte (a mod 10)])"
    using a by (auto simp: dec.simps [of a] dec.simps [of "a div 10"] dec.simps [of "a div 100"] div_mult2_eq [symmetric])
  moreover have "digit_byte n \<noteq> CHR ''0''" if "0 < n" "n < 10" for n
    using bv_digit_byte [OF that(2)] that(1) by auto
  ultimately show ?thesis using a by auto
qed

lemma digit_value_10: "digit_value 10 c = (if is_ascii_digit c then Some (bv c - 48) else None)"
  by (auto simp: digit_value_def hex_digit_def is_ascii_digit_def)

lemma read_number_dec:
  assumes "a \<le> 255" and "r = [] \<or> hd r = CHR ''.''"
  shows "read_number 10 3 False 255 (dec a @ r) = Some (a, r)"
proof -
  have digits: "\<forall>c \<in> set (dec a). is_ascii_digit c"
    using dec_digits [of a] by (simp add: list_all_iff)
  have "takeWhile (\<lambda>c. digit_value 10 c \<noteq> None) (dec a @ r) = dec a"
    using digits assms(2) by (cases r) (auto simp: digit_value_10 is_ascii_digit_def takeWhile_tail)
  moreover have "foldl (\<lambda>n c. n * 10 + the (digit_value 10 c)) 0 (dec a) = digits_val (dec a)"
    unfolding digits_val_def using digits by (intro foldl_cong) (auto simp: digit_value_10)
  ultimately show ?thesis
    using dec_octet [OF assms(1)] assms(1) by (auto simp: read_number_def Let_def)
qed

lemma parse_dotted:
  assumes "a \<le> 255" and "b \<le> 255" and "c \<le> 255" and "d \<le> 255"
  shows "parse_ip_addr (intercalate ''.'' (map dec [a, b, c, d])) = Some (V4 (number_of 256 [a, b, c, d]))"
proof -
  have four: "read_ipv4 s = read_octets 0 (Suc (Suc (Suc (Suc 0)))) s" for s
    by (simp add: read_ipv4_def numeral_eq_Suc)
  have "read_ipv4 (dec a @ CHR ''.'' # dec b @ CHR ''.'' # dec c @ CHR ''.'' # dec d @ []) = Some ([a, b, c, d], [])"
    using assms by (simp add: four read_separated_def read_char_def read_number_dec del: append_Nil2)
  then show ?thesis
    by (simp add: parse_ip_addr_def)
qed

section \<open>Starting\<close>

lemma http_listening_iff:
  "main_http X R fresh L E fs kind args = Return (Listening ip port app) \<longleftrightarrow>
    (\<exists>c path rt. snd (load_config E fs kind args) = Loaded c path \<and> transport_mode c = Rest \<and>
       runtime_worker_threads c \<noteq> Some 0 \<and> build_runtime X R fresh c = Ok rt \<and>
       lib_routes_ok L (build_routes c (rt_compat rt)) \<and>
       parse_ip_addr (http_host c) = Some ip \<and> port = http_port c \<and> lib_listen L ip port = Ok () \<and>
       app = HttpApp (build_routes c (rt_compat rt)) (body_limit c) rt)"
  by (auto simp: main_http_def run_def start_runtime_def async_main_http_def http_serve_def bind_listener_def
      build_router_from_components_def exit_on_error_def Let_def
      split: prod.splits cli_result.splits sum.splits option.splits if_splits)


text \<open>A gRPC server likewise.\<close>

theorem grpc_server_listens_iff:
  "main_grpc X R fresh L E fs kind args = Return (Listening ip port app) \<longleftrightarrow>
    (\<exists>c path rt. snd (load_config E fs kind args) = Loaded c path \<and> transport_mode c = Grpc \<and>
       runtime_worker_threads c \<noteq> Some 0 \<and> build_runtime X R fresh c = Ok rt \<and>
       (enable_reflection (grpc c) \<longrightarrow> lib_reflection L = Ok ()) \<and>
       parse_ip_addr (grpc_host (grpc c)) = Some ip \<and> port = grpc_port (grpc c) \<and> lib_listen L ip port = Ok () \<and>
       app = GrpcApp (grpc_services c) (decoding_limit c) (max_encoding_message_size (grpc c)) (rt_app_state rt))"
  by (auto simp: main_grpc_def run_grpc_def start_runtime_def async_main_grpc_def grpc_serve_def bind_listener_def
      serve_with_listener_def exit_on_error_def Let_def
      split: prod.splits cli_result.splits sum.splits option.splits if_splits)

text \<open>A host name is not an address: a server whose host has a character other than hexadecimal digits, dots and colons
  never listens.\<close>

theorem host_name_refused:
  assumes "snd (load_config E fs kind args) = Loaded c path" and "ch \<in> set (http_host c)" and "\<not> addr_char ch"
  shows "main_http X R fresh L E fs kind args \<in> {Return (ProcessExit 1), Panic}"
proof -
  have "parse_ip_addr (http_host c) = None"
    using assms(2,3) parse_ip_addr_chars [of "http_host c"] by (cases "parse_ip_addr (http_host c)") (auto simp: list_all_iff)
  with assms(1) show ?thesis
    by (auto simp: main_http_def run_def start_runtime_def async_main_http_def http_serve_def bind_listener_def
        exit_on_error_def split: prod.splits sum.splits outcome.splits)
qed

text \<open>The exact behaviour at the boundary of the setting: zero worker threads make both programs panic.\<close>

theorem zero_workers_panic:
  assumes "snd (load_config E fs kind args) = Loaded c path" and "runtime_worker_threads c = Some 0"
  shows "transport_mode c = Rest \<Longrightarrow> main_http X R fresh L E fs kind args = Panic"
    and "transport_mode c = Grpc \<Longrightarrow> main_grpc X R fresh L E fs kind args = Panic"
  using assms
  by (auto simp: main_http_def main_grpc_def run_def run_grpc_def start_runtime_def split: prod.splits)

text \<open>The default configuration listens on every interface.\<close>

lemma default_http_host_parses: "parse_ip_addr default_http_host = Some (V4 0)"
proof -
  have "char_of (48 :: nat) = CHR ''0''" by code_simp
  then show ?thesis
    using parse_dotted [of 0 0 0 0] by (simp add: default_http_host_def number_of_def dec.simps digit_byte_def)
qed

end
