(* ===== verification/Gateway.thy ===== *)
theory Gateway
  imports Server
begin

text \<open>
  The ways to run a command side by side: HTTP GET, POST, PUT and the default root (\<^verbatim>\<open>handler.rs\<close>), unary and
  streaming gRPC (\<^verbatim>\<open>grpc.rs\<close>), and both WebSockets (\<^verbatim>\<open>websocket.rs\<close>). Each handler awaits the shared executor once:
  the code before it decides what to run, the code after it makes the answer. Requests interleave at this point.
  A command takes effect in one step here; how callers interleave inside the executor is the subject of \<open>Pools\<close>.
\<close>

section \<open>A handler cut at its await\<close>

text \<open>What the code before the await comes to: an answer, or a command and the rest of the handler.\<close>

datatype 'a plan =
    Answer 'a
  | RunCommand executable_command "(redis_value, command_execution_error) result \<Rightarrow> 'a"

fun run_plan :: "'b executor \<Rightarrow> 'b \<Rightarrow> 'a plan \<Rightarrow> 'b \<times> 'a" where
  "run_plan exec b (Answer a) = (b, a)"
| "run_plan exec b (RunCommand cmd rest) = (case exec b cmd of (b', res) \<Rightarrow> (b', rest res))"

fun planned_command :: "'a plan \<Rightarrow> executable_command option" where
  "planned_command (Answer _) = None"
| "planned_command (RunCommand cmd _) = Some cmd"

text \<open>Requests handled one after the other.\<close>

fun serve_all :: "('b \<Rightarrow> 'r \<Rightarrow> 'b \<times> 'a) \<Rightarrow> 'b \<Rightarrow> 'r list \<Rightarrow> 'b \<times> 'a list" where
  "serve_all serve b [] = (b, [])"
| "serve_all serve b (r # rs) =
     (case serve b r of (b1, a) \<Rightarrow> (case serve_all serve b1 rs of (b2, as) \<Rightarrow> (b2, a # as)))"

lemma serve_all_append:
  "serve_all serve b (rs @ qs) =
     (case serve_all serve b rs of (b1, as) \<Rightarrow> (case serve_all serve b1 qs of (b2, bs) \<Rightarrow> (b2, as @ bs)))"
  by (induction rs arbitrary: b) (auto split: prod.splits)

lemma serve_all_length: "serve_all serve b rs = (b', as) \<Longrightarrow> length as = length rs"
  by (induction rs arbitrary: b b' as) (auto split: prod.splits)

section \<open>Requests that interleave\<close>

text \<open>A call waits for its command, has its reply, has been answered, or was dropped when its client left.\<close>

datatype ('r, 'a) call =
    Awaiting (call_request: 'r) executable_command "(redis_value, command_execution_error) result \<Rightarrow> 'a"
  | Replied (call_request: 'r) 'a
  | Answered (call_request: 'r) 'a
  | Dropped (call_request: 'r)

record ('b, 'r, 'a) gateway =
  gw_backend :: 'b
  gw_calls :: "('r, 'a) call list"

fun new_call :: "'r \<Rightarrow> 'a plan \<Rightarrow> ('r, 'a) call" where
  "new_call r (Answer a) = Answered r a"
| "new_call r (RunCommand cmd rest) = Awaiting r cmd rest"

definition set_call :: "nat \<Rightarrow> ('r, 'a) call \<Rightarrow> ('b, 'r, 'a) gateway \<Rightarrow> ('b, 'r, 'a) gateway" where
  "set_call i c g = g\<lparr>gw_calls := (gw_calls g)[i := c]\<rparr>"

inductive gateway_step ::
  "'b executor \<Rightarrow> ('r \<Rightarrow> 'a plan) \<Rightarrow> ('b, 'r, 'a) gateway \<Rightarrow> ('b, 'r, 'a) gateway \<Rightarrow> bool"
  for exec plan where
  arrive: "gateway_step exec plan g (g\<lparr>gw_calls := gw_calls g @ [new_call r (plan r)]\<rparr>)"
| execute: "i < length (gw_calls g) \<Longrightarrow> gw_calls g ! i = Awaiting r cmd rest \<Longrightarrow> exec (gw_backend g) cmd = (b', res) \<Longrightarrow>
    gateway_step exec plan g ((set_call i (Replied r (rest res)) g)\<lparr>gw_backend := b'\<rparr>)"
| answer: "i < length (gw_calls g) \<Longrightarrow> gw_calls g ! i = Replied r a \<Longrightarrow>
    gateway_step exec plan g (set_call i (Answered r a) g)"
| disconnect: "i < length (gw_calls g) \<Longrightarrow> gw_calls g ! i = c \<Longrightarrow> (\<And>r a. c \<noteq> Answered r a) \<Longrightarrow>
    gateway_step exec plan g (set_call i (Dropped (call_request c)) g)"

definition gateway_start :: "'b \<Rightarrow> ('b, 'r, 'a) gateway \<Rightarrow> bool" where
  "gateway_start b g \<longleftrightarrow> g = \<lparr>gw_backend = b, gw_calls = []\<rparr>"

text \<open>The requests of some calls, by their number.\<close>

definition requests_at :: "('b, 'r, 'a) gateway \<Rightarrow> nat list \<Rightarrow> 'r list" where
  "requests_at g order = map (\<lambda>i. call_request (gw_calls g ! i)) order"

text \<open>The answer a call has got or will get, once its command has run.\<close>

fun settled_answer :: "('r, 'a) call \<Rightarrow> 'a option" where
  "settled_answer (Replied r a) = Some a"
| "settled_answer (Answered r a) = Some a"
| "settled_answer _ = None"

text \<open>
  Handling some of the calls in the given order, one at a time, has led to the same backend and the same
  answers; they are the calls whose command has run.
\<close>

definition explains ::
  "('b \<Rightarrow> 'r \<Rightarrow> 'b \<times> 'a) \<Rightarrow> 'b \<Rightarrow> ('b, 'r, 'a) gateway \<Rightarrow> nat list \<Rightarrow> 'a list \<Rightarrow> bool" where
  "explains serve b g order as \<longleftrightarrow>
     distinct order \<and> set order \<subseteq> {..<length (gw_calls g)} \<and>
     serve_all serve b (requests_at g order) = (gw_backend g, as) \<and>
     (\<forall>i < length (gw_calls g). \<forall>a. settled_answer (gw_calls g ! i) = Some a \<longrightarrow> (i, a) \<in> set (zip order as))"

definition awaiting_ok :: "('r \<Rightarrow> 'a plan) \<Rightarrow> ('b, 'r, 'a) gateway \<Rightarrow> nat list \<Rightarrow> bool" where
  "awaiting_ok plan g order \<longleftrightarrow>
     (\<forall>i < length (gw_calls g). \<forall>r cmd rest. gw_calls g ! i = Awaiting r cmd rest \<longrightarrow>
        plan r = RunCommand cmd rest \<and> i \<notin> set order)"

lemma set_call_simps [simp]:
  "gw_backend (set_call i c g) = gw_backend g"
  "gw_calls (set_call i c g) = (gw_calls g)[i := c]"
  by (simp_all add: set_call_def)

lemma requests_at_simps [simp]:
  "requests_at (g\<lparr>gw_backend := b\<rparr>) order = requests_at g order"
  "requests_at g (order @ later) = requests_at g order @ requests_at g later"
  "requests_at g [] = []"
  "requests_at g (i # order) = call_request (gw_calls g ! i) # requests_at g order"
  by (simp_all add: requests_at_def)

lemma requests_at_set_call:
  "call_request c = call_request (gw_calls g ! i) \<Longrightarrow> requests_at (set_call i c g) order = requests_at g order"
  by (cases "i < length (gw_calls g)") (auto simp: requests_at_def nth_list_update list_update_beyond)

lemma requests_at_new:
  "set order \<subseteq> {..<length (gw_calls g)} \<Longrightarrow>
     requests_at (g\<lparr>gw_calls := gw_calls g @ cs\<rparr>) order = requests_at g order"
  by (auto simp: requests_at_def nth_append)

lemma explains_length: "explains serve b g order as \<Longrightarrow> length as = length order"
  by (auto simp: explains_def requests_at_def dest!: serve_all_length)

text \<open>A change that keeps the answer and the request of a call keeps its explanation.\<close>

lemma explains_set_call:
  assumes "explains serve b g order as" and "i < length (gw_calls g)"
    and "call_request c = call_request (gw_calls g ! i)"
    and "settled_answer c = settled_answer (gw_calls g ! i) \<or> settled_answer c = None"
  shows "explains serve b (set_call i c g) order as"
  using assms by (auto simp: explains_def requests_at_set_call nth_list_update)

lemma awaiting_ok_set_call:
  assumes "awaiting_ok plan g order" and "i < length (gw_calls g)" and "\<And>r cmd rest. c \<noteq> Awaiting r cmd rest"
  shows "awaiting_ok plan (set_call i c g) order"
  using assms by (auto simp: awaiting_ok_def nth_list_update)

section \<open>The interface of a transport\<close>

text \<open>A handler that decides, runs at most one command on the executor, and answers.\<close>

locale transport =
  fixes exec :: "'b executor"
    and serve :: "'b \<Rightarrow> 'r \<Rightarrow> 'b \<times> 'a"
    and plan :: "'r \<Rightarrow> 'a plan"
  assumes serve_plan: "serve b r = run_plan exec b (plan r)"
begin

lemma serve_refused: "planned_command (plan r) = None \<Longrightarrow> \<exists>a. \<forall>b. serve b r = (b, a)"
  by (cases "plan r") (simp_all add: serve_plan)

lemma serve_admitted: "planned_command (plan r) = Some cmd \<Longrightarrow> fst (serve b r) = fst (exec b cmd)"
  by (cases "plan r") (simp_all add: serve_plan split: prod.splits)

text \<open>What a history of requests leaves behind is what the commands it was granted leave behind.\<close>

lemma history_effect:
  "fst (serve_all serve b rs) =
     fold (\<lambda>cmd b. fst (exec b cmd)) (List.map_filter (\<lambda>r. planned_command (plan r)) rs) b"
proof (induction rs arbitrary: b)
  case (Cons r rs)
  show ?case
  proof (cases "planned_command (plan r)")
    case None
    with serve_refused [OF None] Cons [of b] show ?thesis
      by (auto simp: List.map_filter_simps split: prod.splits)
  next
    case (Some cmd)
    with Cons [of "fst (serve b r)"] serve_admitted [OF Some, of b] show ?thesis
      by (auto simp: List.map_filter_simps split: prod.splits)
  qed
qed (simp add: List.map_filter_simps)

text \<open>The requests that were refused can be taken out of a history: nobody else's answer changes.\<close>

lemma purge_refused:
  defines "granted \<equiv> \<lambda>r. planned_command (plan r) \<noteq> None"
  assumes "serve_all serve b rs = (b', as)"
  shows "serve_all serve b (filter granted rs) = (b', map snd (filter (\<lambda>(r, a). granted r) (zip rs as)))"
  using assms(2)
proof (induction rs arbitrary: b as)
  case (Cons r rs)
  obtain b1 a as1 where r: "serve b r = (b1, a)" and rest: "serve_all serve b1 rs = (b', as1)" and as: "as = a # as1"
    using Cons.prems by (auto split: prod.splits)
  show ?case
  proof (cases "granted r")
    case True
    with r Cons.IH [OF rest] as show ?thesis by simp
  next
    case False
    with serve_refused [of r] r have "b1 = b" by (auto simp: granted_def)
    with False Cons.IH [OF rest] as show ?thesis by simp
  qed
qed simp

text \<open>Every step keeps the order in which the commands have run so far and may add one call at its end.\<close>

lemma step_explained:
  assumes "explains serve b g order as" and "awaiting_ok plan g order" and "gateway_step exec plan g h"
  shows "\<exists>later bs. explains serve b h (order @ later) (as @ bs) \<and> awaiting_ok plan h (order @ later)"
  using assms(3)
proof cases
  case (arrive r)
  note old = requests_at_new [of order g "[new_call r (plan r)]"]
  show ?thesis
  proof (cases "plan r")
    case (Answer a)
    let ?n = "length (gw_calls g)"
    have "explains serve b h (order @ [?n]) (as @ [a])"
      using assms(1) explains_length [OF assms(1)] old Answer
      by (auto simp: explains_def arrive serve_all_append serve_plan nth_append less_Suc_eq)
    moreover have "awaiting_ok plan h (order @ [?n])"
      using assms(2) Answer by (auto simp: awaiting_ok_def arrive nth_append less_Suc_eq)
    ultimately show ?thesis by blast
  next
    case (RunCommand cmd rest)
    have "explains serve b h (order @ []) (as @ [])"
      using assms(1) old RunCommand by (auto simp: explains_def arrive nth_append less_Suc_eq)
    moreover have "awaiting_ok plan h (order @ [])"
      using assms(1,2) RunCommand by (auto simp: awaiting_ok_def explains_def arrive nth_append less_Suc_eq)
    ultimately show ?thesis by blast
  qed
next
  case (execute i r cmd rest b' res)
  have plan: "plan r = RunCommand cmd rest" "i \<notin> set order"
    using assms(2) execute by (auto simp: awaiting_ok_def)
  have "explains serve b h (order @ [i]) (as @ [rest res])"
    using assms(1) explains_length [OF assms(1)] execute plan requests_at_set_call [of "Replied r (rest res)" g i]
    by (auto simp: explains_def serve_all_append serve_plan nth_list_update)
  moreover have "awaiting_ok plan h (order @ [i])"
    using assms(2) execute by (auto simp: awaiting_ok_def nth_list_update)
  ultimately show ?thesis by blast
next
  case (answer i r a)
  have "explains serve b h (order @ []) (as @ [])" "awaiting_ok plan h (order @ [])"
    using explains_set_call [OF assms(1), of i "Answered r a"] awaiting_ok_set_call [OF assms(2), of i "Answered r a"] answer
    by simp_all
  then show ?thesis by blast
next
  case (disconnect i c)
  have "explains serve b h (order @ []) (as @ [])" "awaiting_ok plan h (order @ [])"
    using explains_set_call [OF assms(1), of i "Dropped (call_request c)"]
      awaiting_ok_set_call [OF assms(2), of i "Dropped (call_request c)"] disconnect
    by simp_all
  then show ?thesis by blast
qed

lemma steps_explained:
  assumes "(gateway_step exec plan)\<^sup>*\<^sup>* g h" and "explains serve b g order as" and "awaiting_ok plan g order"
  shows "\<exists>later bs. explains serve b h (order @ later) (as @ bs) \<and> awaiting_ok plan h (order @ later)"
  using assms(1)
proof (induction rule: rtranclp_induct)
  case base
  show ?case using assms(2,3) by (metis append_Nil2)
next
  case (step h k)
  then obtain later bs where "explains serve b h (order @ later) (as @ bs)" "awaiting_ok plan h (order @ later)" by blast
  from step_explained [OF this step(2)] show ?case by (metis append_assoc)
qed

lemma start_explained: "gateway_start b g \<Longrightarrow> explains serve b g [] [] \<and> awaiting_ok plan g []"
  by (simp add: gateway_start_def explains_def awaiting_ok_def requests_at_def)

lemma linearizable:
  assumes "gateway_start b g0" and "(gateway_step exec plan)\<^sup>*\<^sup>* g0 g" and "(gateway_step exec plan)\<^sup>*\<^sup>* g h"
  shows "\<exists>order later as bs. explains serve b g order as \<and> explains serve b h (order @ later) (as @ bs)"
proof -
  obtain order as where "explains serve b g order as" "awaiting_ok plan g order"
    using steps_explained [OF assms(2)] start_explained [OF assms(1)] by fastforce
  with steps_explained [OF assms(3)] show ?thesis by blast
qed

end

section \<open>The requests of the gateway\<close>

text \<open>\<^verbatim>\<open>process_request\<close> up to its await, and what it does with the reply.\<close>

definition http_plan ::
  "externals \<Rightarrow> 'b app_state \<Rightarrow> str \<Rightarrow> params \<Rightarrow> bytes option \<Rightarrow> ip_addr \<Rightarrow> str option \<Rightarrow>
   (str \<rightharpoonup> bytes) \<Rightarrow> response outcome plan" where
  "http_plan X st cmd_path ps body addr auth_header hs =
     (case request_parser st (parse_input st cmd_path ps body) of
        Err e \<Rightarrow>
          Answer (Return (json_value_response X 400 (error_object (request_parse_error_message e))
                (select_jsonp_callback ps)))
      | Ok p \<Rightarrow>
          if \<not> check_auth X (app_acl st) \<lparr>client_ip = addr, authorization = auth_header\<rparr> (command_name (command p))
          then Answer (Return (json_value_response X 403 (error_object ''Forbidden'') (jsonp_callback p)))
          else RunCommand (command p) (deliver X p (header_text X hs ''if-none-match'')))"

definition handler_plan ::
  "externals \<Rightarrow> 'b app_state \<Rightarrow> http_request \<Rightarrow> bytes option \<Rightarrow> response outcome plan" where
  "handler_plan X st req body =
     http_plan X st (trim_start_matches (CHR ''/'') (uri_path req)) (query_params req) body
       (client_addr req) (header_text X (request_headers req) ''authorization'') (request_headers req)"

definition unary_plan ::
  "externals \<Rightarrow> 'b app_state \<Rightarrow> metadata \<Rightarrow> command_request \<Rightarrow> (proto_value, grpc_status) result plan" where
  "unary_plan X st md req =
     (case command_from_proto (app_default_database st) req of
        Err e \<Rightarrow> Answer (Err e)
      | Ok cmd \<Rightarrow>
          (case authorize X st (grpc_auth_context X md) (command_name cmd) of
             Err e \<Rightarrow> Answer (Err e)
           | Ok _ \<Rightarrow>
               RunCommand cmd (\<lambda>res. case res of Err e \<Rightarrow> Err (command_error_to_status e) | Ok v \<Rightarrow> redis_value_to_proto v)))"

definition item_plan ::
  "externals \<Rightarrow> 'b app_state \<Rightarrow> auth_context \<Rightarrow> command_request option \<Rightarrow> (proto_value, command_error) result plan" where
  "item_plan X st auth item =
     (case item of
        None \<Rightarrow> Answer (Err (status_to_stream_error (Status InvalidArgument ''stream request is missing command'')))
      | Some req \<Rightarrow>
          (case command_from_proto (app_default_database st) req of
             Err e \<Rightarrow> Answer (Err (status_to_stream_error e))
           | Ok cmd \<Rightarrow>
               (case authorize X st auth (command_name cmd) of
                  Err e \<Rightarrow> Answer (Err (status_to_stream_error e))
                | Ok _ \<Rightarrow>
                    RunCommand cmd (\<lambda>res. case res of
                        Err e \<Rightarrow> Err (command_error_to_stream_error e)
                      | Ok v \<Rightarrow> (case redis_value_to_proto v of Ok p \<Rightarrow> Ok p | Err e \<Rightarrow> Err (status_to_stream_error e))))))"

text \<open>What a text message of the JSON socket adds: messages for the client and subscriptions.\<close>

type_synonym json_answer = "ws_message list \<times> str list"

definition json_plan :: "externals \<Rightarrow> (str \<Rightarrow> str list option) \<Rightarrow> 'b app_state \<Rightarrow> str \<Rightarrow> json_answer plan" where
  "json_plan X parse st text =
     (case parse text of
        None \<Rightarrow> Answer ([], [])
      | Some [] \<Rightarrow> Answer ([], [])
      | Some (cmd_name # args) \<Rightarrow>
          if eq_ignore_ascii_case cmd_name ''SUBSCRIBE'' then Answer ([], take 1 args)
          else RunCommand
              \<lparr>target_database = app_default_database st, command_name = cmd_name, command_args = args\<rparr>
              (\<lambda>res. ([WText (json_to_string X (case res of
                   Ok v \<Rightarrow> JObject [(cmd_name, redis_value_to_json v)]
                 | Err e \<Rightarrow> error_object (error_text e)))], [])))"

definition raw_plan :: "'b app_state \<Rightarrow> bytes list \<Rightarrow> ws_message list plan" where
  "raw_plan st args =
     (if args = [] then Answer [] else RunCommand (raw_command st args) (\<lambda>res. [WBinary (raw_reply res)]))"

datatype gateway_request =
    GetRequest http_request | PostRequest http_request | PutRequest http_request | RootRequest str http_request
  | UnaryRequest metadata command_request | StreamItem auth_context "command_request option"
  | JsonRequest str | RawRequest "bytes list"

datatype gateway_answer =
    HttpAnswer "response outcome" | UnaryAnswer "(proto_value, grpc_status) result"
  | ItemAnswer "(proto_value, command_error) result" | JsonAnswer json_answer | RawAnswer "ws_message list"

text \<open>A request handled alone, by the handlers of the code.\<close>

fun serve_request ::
  "externals \<Rightarrow> (str \<Rightarrow> str list option) \<Rightarrow> 'b app_state \<Rightarrow> 'b \<Rightarrow> gateway_request \<Rightarrow> 'b \<times> gateway_answer" where
  "serve_request X parse st b (GetRequest req) = map_prod id HttpAnswer (handle_get X st b req)"
| "serve_request X parse st b (PostRequest req) = map_prod id HttpAnswer (handle_post X st b req)"
| "serve_request X parse st b (PutRequest req) = map_prod id HttpAnswer (handle_put X st b req)"
| "serve_request X parse st b (RootRequest root req) = map_prod id HttpAnswer (handle_default_root X st b req root)"
| "serve_request X parse st b (UnaryRequest md req) = map_prod id UnaryAnswer (grpc_execute X st b md req)"
| "serve_request X parse st b (StreamItem auth item) = map_prod id ItemAnswer (stream_result X st b auth item)"
| "serve_request X parse st b (JsonRequest text) =
     (let s = handle_socket X parse st \<lparr>json_backend = b, json_sent = [], json_subscriptions = []\<rparr>
                [Received (Inr (WText text))]
      in (json_backend s, JsonAnswer (json_sent s, json_subscriptions s)))"
| "serve_request X parse st b (RawRequest args) =
     (let s = raw_advance st args \<lparr>raw_backend = b, raw_sent = []\<rparr> in (raw_backend s, RawAnswer (raw_sent s)))"

text \<open>\<open>map_plan f\<close> is the datatype's own map: it applies \<open>f\<close> to the answer.\<close>

fun request_plan ::
  "externals \<Rightarrow> (str \<Rightarrow> str list option) \<Rightarrow> 'b app_state \<Rightarrow> gateway_request \<Rightarrow> gateway_answer plan" where
  "request_plan X parse st (GetRequest req) = map_plan HttpAnswer (handler_plan X st req None)"
| "request_plan X parse st (PostRequest req) = map_plan HttpAnswer (handler_plan X st req (Some (request_body req)))"
| "request_plan X parse st (PutRequest req) = map_plan HttpAnswer (handler_plan X st req (Some (request_body req)))"
| "request_plan X parse st (RootRequest root req) =
     map_plan HttpAnswer (http_plan X st root (query_params req) None (client_addr req)
       (header_text X (request_headers req) ''authorization'') (request_headers req))"
| "request_plan X parse st (UnaryRequest md req) = map_plan UnaryAnswer (unary_plan X st md req)"
| "request_plan X parse st (StreamItem auth item) = map_plan ItemAnswer (item_plan X st auth item)"
| "request_plan X parse st (JsonRequest text) = map_plan JsonAnswer (json_plan X parse st text)"
| "request_plan X parse st (RawRequest args) = map_plan RawAnswer (raw_plan st args)"

lemma run_plan_map: "run_plan exec b (map_plan f p) = map_prod id f (run_plan exec b p)"
  by (cases p) (auto split: prod.splits)

lemma process_request_plan:
  "process_request X st b cmd_path ps body addr auth_header hs =
     run_plan (command_executor st) b (http_plan X st cmd_path ps body addr auth_header hs)"
  by (auto simp: process_request_def http_plan_def parse_input_def deliver_def split: sum.splits prod.splits)

lemma grpc_execute_plan: "grpc_execute X st b md req = run_plan (command_executor st) b (unary_plan X st md req)"
  by (auto simp: grpc_execute_def unary_plan_def Let_def split: sum.splits prod.splits)

lemma stream_result_plan: "stream_result X st b auth item = run_plan (command_executor st) b (item_plan X st auth item)"
  by (auto simp: stream_result_def item_plan_def split: option.splits sum.splits prod.splits)

lemma json_text_plan:
  "serve_request X parse st b (JsonRequest text) =
     map_prod id JsonAnswer (run_plan (command_executor st) b (json_plan X parse st text))"
  by (auto simp: json_plan_def json_command_def json_send_def Let_def split: option.splits list.splits sum.splits prod.splits)

lemma raw_command_plan:
  "serve_request X parse st b (RawRequest args) =
     map_prod id RawAnswer (run_plan (command_executor st) b (raw_plan st args))"
  by (auto simp: raw_plan_def raw_advance_def Let_def split: prod.splits)

interpretation gateway: transport "command_executor st" "serve_request X parse st" "request_plan X parse st"
  for X parse st
proof unfold_locales
  show "serve_request X parse st b r = run_plan (command_executor st) b (request_plan X parse st r)" for b r
    by (cases r) (simp_all add: run_plan_map handler_plan_def handle_get_def handle_post_def handle_put_def
        handle_with_body_def handle_default_root_def process_request_plan grpc_execute_plan stream_result_plan
        json_text_plan raw_command_plan del: serve_request.simps(7,8))
qed

section \<open>Every interleaving is a sequence\<close>

text \<open>C8. However requests of all transports interleave, and whoever disconnects, the backend and the answers are those
  of the handlers run one request at a time in some order without repetition; what happens later only adds requests
  at the end of this order, so a request that was answered comes before every request that arrived afterwards.\<close>

theorem gateway_linearizable:
  assumes "gateway_start b g0"
    and "(gateway_step (command_executor st) (request_plan X parse st))\<^sup>*\<^sup>* g0 g"
    and "(gateway_step (command_executor st) (request_plan X parse st))\<^sup>*\<^sup>* g h"
  shows "\<exists>order later as bs. explains (serve_request X parse st) b g order as \<and>
    explains (serve_request X parse st) b h (order @ later) (as @ bs)"
  using assms by (rule gateway.linearizable)

text \<open>Two clients: the one that came second is served first, and the other leaves.\<close>

theorem gateway_linearizable_witness:
  "\<exists>g h order later as bs. explains (serve_request sample_externals (\<lambda>_. None) sample_app) 0 g order as \<and>
     explains (serve_request sample_externals (\<lambda>_. None) sample_app) 0 h (order @ later) (as @ bs) \<and>
     gw_backend h = 1 \<and> length (gw_calls h) = 2"
proof -
  let ?plan = "request_plan sample_externals (\<lambda>_. None) sample_app"
  let ?step = "gateway_step (command_executor sample_app) ?plan"
  let ?get = "RawRequest [''GET'', ''a'']" and ?ping = "RawRequest [''PING'']"
  define g0 :: "(nat, gateway_request, gateway_answer) gateway" where "g0 = \<lparr>gw_backend = 0, gw_calls = []\<rparr>"
  define g1 where "g1 = g0\<lparr>gw_calls := gw_calls g0 @ [new_call ?get (?plan ?get)]\<rparr>"
  define g2 where "g2 = g1\<lparr>gw_calls := gw_calls g1 @ [new_call ?ping (?plan ?ping)]\<rparr>"
  have "?step g0 g1" "?step g1 g2"
    unfolding g1_def g2_def by (rule gateway_step.arrive)+
  then have run1: "?step\<^sup>*\<^sup>* g0 g2" by simp
  have calls: "\<exists>c d k. gw_calls g2 = [c, Awaiting ?ping d k] \<and> (\<forall>r a. c \<noteq> Answered r a)"
    by (auto simp: g2_def g1_def g0_def raw_plan_def)
  then obtain c d k where c: "gw_calls g2 = [c, Awaiting ?ping d k]" "\<And>r a. c \<noteq> Answered r a" by blast
  define g3 where "g3 = (set_call 1 (Replied ?ping (k (Ok (BulkString ''v'')))) g2)\<lparr>gw_backend := 1\<rparr>"
  have backend: "gw_backend g2 = 0" by (simp add: g2_def g1_def g0_def)
  have "?step g2 g3"
    unfolding g3_def by (rule gateway_step.execute [where cmd = d]) (simp_all add: c backend sample_app_def)
  moreover define h where "h = set_call 0 (Dropped (call_request c)) g3"
  have "?step g3 h"
    unfolding h_def by (rule gateway_step.disconnect) (simp_all add: g3_def c)
  ultimately have "?step\<^sup>*\<^sup>* g2 h" by simp
  moreover have "gw_backend h = 1" "length (gw_calls h) = 2"
    by (simp_all add: h_def g3_def c)
  moreover have "gateway_start 0 g0" by (simp add: gateway_start_def g0_def)
  ultimately show ?thesis
    using gateway_linearizable [OF _ run1] by blast
qed

text \<open>C13. What a history of requests leaves in the backend is what the commands it was granted leave there, in order,
  and without the refused requests all other requests get the same answers.\<close>

theorem refused_requests_invisible:
  assumes "serve_all (serve_request X parse st) b rs = (b', as)"
  defines "granted \<equiv> \<lambda>r. planned_command (request_plan X parse st r)"
  shows "b' = fold (\<lambda>cmd b. fst (command_executor st b cmd)) (List.map_filter granted rs) b \<and>
    serve_all (serve_request X parse st) b (filter (\<lambda>r. granted r \<noteq> None) rs) =
      (b', map snd (filter (\<lambda>(r, a). granted r \<noteq> None) (zip rs as)))"
  using gateway.history_effect [of X parse st b rs] gateway.purge_refused [OF assms(1)] assms(1)
  by (simp add: granted_def)

theorem refused_requests_invisible_witness:
  "\<exists>b' as. serve_all (serve_request sample_externals (\<lambda>_. None) sample_app) 0
      [RawRequest [''PING''], UnaryRequest \<lparr>remote_ip = None, md_authorization = None\<rparr>
         \<lparr>req_command = [], req_database = None, req_args = []\<rparr>, RawRequest [''PING'']] = (b', as) \<and>
    b' = fold (\<lambda>cmd b. Suc b) [raw_command sample_app [''PING''], raw_command sample_app [''PING'']] 0"
proof -
  let ?rs = "[RawRequest [''PING''], UnaryRequest \<lparr>remote_ip = None, md_authorization = None\<rparr>
      \<lparr>req_command = [], req_database = None, req_args = []\<rparr>, RawRequest [''PING'']]"
  obtain b' as where "serve_all (serve_request sample_externals (\<lambda>_. None) sample_app) 0 ?rs = (b', as)"
    by (metis surj_pair)
  from this refused_requests_invisible [OF this] show ?thesis
    by (simp add: List.map_filter_simps raw_plan_def unary_plan_def command_from_proto_eq sample_app_def)
qed

end
