(* ===== verification/Compat_Race.thy ===== *)
theory Compat_Race
  imports Compat_Api
begin

text \<open>
  \<^verbatim>\<open>CompatSessionManager::create_session\<close> checks the limit under the read lock, then connects to Redis
  with no lock held, then inserts under the write lock. This theory lets a fixed number of
  requests interleave between those sections and proves how far the table can exceed its limit.
\<close>

record create_system =
  pending :: "bool list" \<comment> \<open>per request handler: it has passed the check and not inserted yet\<close>
  table :: sessions

inductive create_step :: "compat_settings \<Rightarrow> create_system \<Rightarrow> create_system \<Rightarrow> bool" for cfg where
  check: "i < length (pending s) \<Longrightarrow> \<not> pending s ! i \<Longrightarrow> \<not> limit_reached cfg (table s) \<Longrightarrow>
    create_step cfg s (s\<lparr>pending := (pending s)[i := True]\<rparr>)"
| insert: "i < length (pending s) \<Longrightarrow> pending s ! i \<Longrightarrow>
    create_step cfg s \<lparr>pending = (pending s)[i := False], table = AList.update (sess_id x) x (table s)\<rparr>"
| unavailable: "i < length (pending s) \<Longrightarrow> pending s ! i \<Longrightarrow>
    create_step cfg s (s\<lparr>pending := (pending s)[i := False]\<rparr>)"
| remove: "create_step cfg s (s\<lparr>table := AList.delete k (table s)\<rparr>)"
| sweep: "create_step cfg s (s\<lparr>table := filter P (table s)\<rparr>)"

definition create_start :: "nat \<Rightarrow> create_system \<Rightarrow> bool" where
  "create_start n s \<longleftrightarrow> pending s = replicate n False \<and> table s = []"

definition create_inv :: "compat_settings \<Rightarrow> nat \<Rightarrow> create_system \<Rightarrow> bool" where
  "create_inv cfg n s \<longleftrightarrow>
     length (pending s) = n \<and>
     length (table s) + length (filter id (pending s)) \<le> set_max_sessions cfg - 1 + n"

lemma filter_id_update:
  assumes "i < length bs"
  shows "length (filter id (bs[i := b])) + (if bs ! i then 1 else 0) =
    length (filter id bs) + (if b then 1 else 0)"
  using assms
proof (induction bs arbitrary: i)
  case (Cons c bs)
  show ?case
  proof (cases i)
    case (Suc j)
    with Cons.IH [of j] Cons.prems show ?thesis by (auto split: if_splits)
  qed simp
qed simp

lemma create_inv_step:
  assumes "create_inv cfg n s" and "create_step cfg s t"
  shows "create_inv cfg n t"
  using assms(2,1)
proof cases
  case (check i)
  have "length (filter id ((pending s)[i := True])) \<le> length (pending s)"
    by (metis length_filter_le length_list_update)
  with check assms(1) show ?thesis
    by (auto simp: create_inv_def limit_reached_def)
next
  case (insert i x)
  with assms(1) filter_id_update [OF insert(2), of False] show ?thesis
    by (auto simp: create_inv_def length_alist_update)
next
  case (unavailable i)
  with assms(1) filter_id_update [OF unavailable(2), of False] show ?thesis
    by (auto simp: create_inv_def)
next
  case (remove k)
  with assms(1) length_delete_le [of k "table s"] show ?thesis
    by (auto simp: create_inv_def)
next
  case (sweep P)
  with assms(1) length_filter_le [of P "table s"] show ?thesis
    by (auto simp: create_inv_def simp del: length_filter_le)
qed

interpretation create_race: invariant_system "create_start n" "create_step cfg" "create_inv cfg n"
  for n cfg
proof unfold_locales
  show "create_start n s \<Longrightarrow> create_inv cfg n s" for s
    by (simp add: create_start_def create_inv_def)
qed (rule create_inv_step)

text \<open>C35. With n requests in flight the table never exceeds its limit by more than n - 1 sessions.\<close>

theorem session_limit_bound:
  assumes "reachable (create_start n) (create_step cfg) s"
  shows "length (table s) \<le> set_max_sessions cfg - 1 + n"
  using create_race.reachable_inv [OF assms] by (simp add: create_inv_def)

theorem session_limit_bound_witness:
  "\<exists>s. reachable (create_start 3) (create_step \<lparr>set_enabled = True, set_path_prefix = ''/c'', set_session_ttl = 300,
      set_max_sessions = 1, set_max_pipeline = 256\<rparr>) s \<and> length (table s) \<le> 3"
proof -
  let ?cfg = "\<lparr>set_enabled = True, set_path_prefix = ''/c'', set_session_ttl = 300, set_max_sessions = 1,
    set_max_pipeline = 256\<rparr>"
  have r: "reachable (create_start 3) (create_step ?cfg) \<lparr>pending = replicate 3 False, table = []\<rparr>"
    by (rule reach_start) (simp add: create_start_def)
  with session_limit_bound [OF r] show ?thesis
    by auto
qed

text \<open>The limit is exceeded: two requests that both pass the check of a limit of one session leave a table of
  two.\<close>

theorem session_limit_exceeded:
  "\<exists>s. reachable (create_start 2)
      (create_step \<lparr>set_enabled = True, set_path_prefix = ''/__compat'', set_session_ttl = 300,
         set_max_sessions = 1, set_max_pipeline = 256\<rparr>) s \<and> length (table s) = 2"
proof -
  let ?cfg = "\<lparr>set_enabled = True, set_path_prefix = ''/__compat'', set_session_ttl = 300,
    set_max_sessions = 1, set_max_pipeline = 256\<rparr>"
  let ?a = "session_new ''a'' 1 0" and ?b = "session_new ''b'' 2 0"
  have "create_step ?cfg \<lparr>pending = [False, False], table = []\<rparr> \<lparr>pending = [True, False], table = []\<rparr>"
    using create_step.check [of 0 "\<lparr>pending = [False, False], table = []\<rparr>" ?cfg]
    by (simp add: limit_reached_def)
  moreover have "create_step ?cfg \<lparr>pending = [True, False], table = []\<rparr> \<lparr>pending = [True, True], table = []\<rparr>"
    using create_step.check [of 1 "\<lparr>pending = [True, False], table = []\<rparr>" ?cfg]
    by (simp add: limit_reached_def)
  moreover have "create_step ?cfg \<lparr>pending = [True, True], table = []\<rparr>
      \<lparr>pending = [False, True], table = [(''a'', ?a)]\<rparr>"
    using create_step.insert [of 0 "\<lparr>pending = [True, True], table = []\<rparr>" ?cfg ?a]
    by (simp add: session_new_def)
  moreover have "create_step ?cfg \<lparr>pending = [False, True], table = [(''a'', ?a)]\<rparr>
      \<lparr>pending = [False, False], table = [(''a'', ?a), (''b'', ?b)]\<rparr>"
    using create_step.insert [of 1 "\<lparr>pending = [False, True], table = [(''a'', ?a)]\<rparr>" ?cfg ?b]
    by (simp add: session_new_def)
  moreover have "reachable (create_start 2) (create_step ?cfg) \<lparr>pending = [False, False], table = []\<rparr>"
    by (rule reach_start) (simp add: create_start_def numeral_2_eq_2)
  ultimately have "reachable (create_start 2) (create_step ?cfg)
      \<lparr>pending = [False, False], table = [(''a'', ?a), (''b'', ?b)]\<rparr>"
    by (meson reach_step)
  then show ?thesis
    by (intro exI [of _ "\<lparr>pending = [False, False], table = [(''a'', ?a), (''b'', ?b)]\<rparr>"] conjI) simp_all
qed

end
