(* ===== verification/F64.thy ===== *)
theory F64
  imports Rust_Str Complex_Main
begin

text \<open>
  The \<^verbatim>\<open>f64\<close> arithmetic the benchmark runner uses. A finite double is the rational number it stands
  for, and an operation is the exact result rounded to 53 significant bits, ties to even (IEEE 754).
  The runner computes with counts, durations and their quotients, which are zero or lie between
  \<open>10\<^sup>-\<^sup>1\<^sup>0\<close> and \<open>10\<^sup>3\<^sup>0\<close>: subnormal numbers, infinities and signed zeros do not occur.
\<close>

type_synonym f64 = rat

section \<open>Rounding\<close>

text \<open>The exponent of a positive number: \<open>2\<^sup>e \<le> x < 2\<^sup>e\<^sup>+\<^sup>1\<close>.\<close>

function scale_up :: "rat \<Rightarrow> int" where
  "scale_up x = (if x < 2 then 0 else scale_up (x / 2) + 1)"
  by pat_completeness auto
termination
proof (relation "measure (\<lambda>x. nat \<lfloor>x\<rfloor>)")
  fix x :: rat
  assume "\<not> x < 2"
  then have "\<lfloor>x / 2\<rfloor> < \<lfloor>x\<rfloor>" "0 < \<lfloor>x\<rfloor>"
    by linarith+
  then show "(x / 2, x) \<in> measure (\<lambda>x. nat \<lfloor>x\<rfloor>)"
    by simp
qed simp

function scale_down :: "rat \<Rightarrow> int" where
  "scale_down x = (if x \<le> 0 \<or> 1 \<le> x then 0 else scale_down (2 * x) - 1)"
  by pat_completeness auto
termination
proof (relation "measure (\<lambda>x. nat \<lfloor>1 / x\<rfloor>)")
  fix x :: rat
  assume x: "\<not> (x \<le> 0 \<or> 1 \<le> x)"
  define y where "y = 1 / x"
  have "1 < y" and half: "1 / (2 * x) = y / 2"
    using x by (simp_all add: y_def field_simps)
  have pos: "0 < \<lfloor>y\<rfloor>"
    using \<open>1 < y\<close> by linarith
  then have "1 \<le> rat_of_int \<lfloor>y\<rfloor>"
    by simp
  moreover have "y - 1 < rat_of_int \<lfloor>y\<rfloor>"
    by linarith
  ultimately have "\<lfloor>y / 2\<rfloor> < \<lfloor>y\<rfloor>"
    unfolding floor_less_iff by linarith
  moreover note pos
  ultimately show "(2 * x, x) \<in> measure (\<lambda>x. nat \<lfloor>1 / x\<rfloor>)"
    by (simp add: half flip: y_def)
qed simp

declare scale_up.simps [simp del] scale_down.simps [simp del]

definition exponent :: "rat \<Rightarrow> int" where
  "exponent x = (if 1 \<le> x then scale_up x else scale_down x)"

definition round_even :: "rat \<Rightarrow> int" where
  "round_even x =
     (let n = \<lfloor>x\<rfloor>; d = x - of_int n in
      if d < 1 / 2 then n else if 1 / 2 < d then n + 1 else if even n then n else n + 1)"

definition fl_pos :: "rat \<Rightarrow> f64" where
  "fl_pos x = (let u = 2 powi (exponent x - 52) in of_int (round_even (x / u)) * u)"

definition fl :: "rat \<Rightarrow> f64" where
  "fl x = (if x = 0 then 0 else if 0 < x then fl_pos x else - fl_pos (- x))"

lemma scale_up_bounds: "1 \<le> x \<Longrightarrow> 0 \<le> scale_up x \<and> 2 powi scale_up x \<le> x \<and> x < 2 powi (scale_up x + 1)"
proof (induction x rule: scale_up.induct)
  case (1 x)
  show ?case
  proof (cases "x < 2")
    case True
    with 1 show ?thesis by (simp add: scale_up.simps)
  next
    case False
    then have "0 \<le> scale_up (x / 2)" "2 powi scale_up (x / 2) \<le> x / 2" "x / 2 < 2 powi (scale_up (x / 2) + 1)"
      using 1 by auto
    then show ?thesis
      using False by (subst (1 2 3) scale_up.simps) (simp add: power_int_add)
  qed
qed

lemma scale_down_bounds:
  "0 < x \<Longrightarrow> x < 1 \<Longrightarrow> scale_down x < 0 \<and> 2 powi scale_down x \<le> x \<and> x < 2 powi (scale_down x + 1)"
proof (induction x rule: scale_down.induct)
  case (1 x)
  have eq: "scale_down x = scale_down (2 * x) - 1"
    using "1.prems" by (subst scale_down.simps) simp
  show ?case
  proof (cases "2 * x < 1")
    case True
    then have "scale_down (2 * x) < 0" "2 powi scale_down (2 * x) \<le> 2 * x" "2 * x < 2 powi (scale_down (2 * x) + 1)"
      using 1 by auto
    then show ?thesis
      unfolding eq by (simp add: power_int_diff power_int_add)
  next
    case False
    then have "scale_down (2 * x) = 0"
      by (subst scale_down.simps) simp
    with eq False "1.prems" show ?thesis
      by (simp add: power_int_minus)
  qed
qed

lemma exponent_bounds: "0 < x \<Longrightarrow> 2 powi exponent x \<le> x \<and> x < 2 powi (exponent x + 1)"
  using scale_up_bounds [of x] scale_down_bounds [of x] by (auto simp: exponent_def)

lemma powi_strict: "a < b \<longleftrightarrow> (2 :: rat) powi a < 2 powi b"
  by (meson linorder_not_less one_less_numeral_iff power_int_increasing power_int_strict_increasing
      semiring_norm(76) less_imp_le)

lemma powi_pos [simp]: "0 < (2 :: rat) powi a"
  by simp

lemma exponent_mono:
  assumes "0 < x" and "x \<le> y"
  shows "exponent x \<le> exponent y"
proof -
  have "2 powi exponent x < (2 :: rat) powi (exponent y + 1)"
    using exponent_bounds [of x] exponent_bounds [of y] assms by linarith
  then show ?thesis
    by (simp flip: powi_strict)
qed

lemma round_even_mono: "x \<le> y \<Longrightarrow> round_even x \<le> round_even y"
proof -
  assume "x \<le> y"
  then consider "\<lfloor>x\<rfloor> = \<lfloor>y\<rfloor>" | "\<lfloor>x\<rfloor> + 1 \<le> \<lfloor>y\<rfloor>"
    using floor_mono [of x y] by linarith
  then show ?thesis
    using \<open>x \<le> y\<close> by cases (auto simp: round_even_def Let_def)
qed

lemma round_even_of_int [simp]: "round_even (of_int n) = n"
  by (simp add: round_even_def)

lemma round_even_bounds: "of_int n \<le> x \<Longrightarrow> n \<le> round_even x" "x \<le> of_int n \<Longrightarrow> round_even x \<le> n"
  using round_even_mono [of "of_int n" x] round_even_mono [of x "of_int n"] by simp_all

text \<open>Rounding moves no number past a power of two or an integer below \<open>2\<^sup>5\<^sup>3\<close>, and is monotone.\<close>

lemma fl_pos_bounds:
  assumes "0 < x"
  shows "2 powi exponent x \<le> fl_pos x \<and> fl_pos x \<le> 2 powi (exponent x + 1)"
proof -
  let ?u = "(2 :: rat) powi (exponent x - 52)"
  have "of_int (2 ^ 52) \<le> x / ?u" "x / ?u \<le> of_int (2 ^ 53)"
    using exponent_bounds [OF assms] by (simp_all add: field_simps power_int_add power_int_diff)
  then have r: "2 ^ 52 \<le> round_even (x / ?u)" "round_even (x / ?u) \<le> 2 ^ 53"
    by (auto intro: round_even_bounds)
  have "(2 :: rat) powi exponent x = of_int (2 ^ 52) * ?u" "(2 :: rat) powi (exponent x + 1) = of_int (2 ^ 53) * ?u"
    by (simp_all add: power_int_add power_int_diff field_simps)
  with r show ?thesis
    unfolding fl_pos_def Let_def by (metis mult_right_mono of_int_le_iff less_imp_le powi_pos)
qed

lemma fl_pos_mono:
  assumes "0 < x" and "x \<le> y"
  shows "fl_pos x \<le> fl_pos y"
proof (cases "exponent x = exponent y")
  case True
  then show ?thesis
    using assms by (auto simp: fl_pos_def Let_def intro!: mult_right_mono round_even_mono divide_right_mono)
next
  case False
  then have "exponent x + 1 \<le> exponent y"
    using exponent_mono [OF assms] by simp
  then have "(2 :: rat) powi (exponent x + 1) \<le> 2 powi exponent y"
    by (intro power_int_increasing) auto
  with fl_pos_bounds [of x] fl_pos_bounds [of y] assms show ?thesis
    by linarith
qed

lemma fl_pos_positive: "0 < x \<Longrightarrow> 0 < fl_pos x"
  using fl_pos_bounds [of x] powi_pos [of "exponent x"] by linarith

lemma fl_mono: "x \<le> y \<Longrightarrow> fl x \<le> fl y"
  using fl_pos_mono [of x y] fl_pos_mono [of "- y" "- x"] fl_pos_positive [of y] fl_pos_positive [of "- x"]
  by (auto simp: fl_def)

lemma fl_0 [simp]: "fl 0 = 0"
  by (simp add: fl_def)

lemma fl_nonneg: "0 \<le> x \<Longrightarrow> 0 \<le> fl x"
  using fl_mono [of 0 x] by simp

lemma fl_of_nat:
  assumes "n \<le> 2 ^ 53"
  shows "fl (of_nat n) = of_nat n"
proof (cases "n = 0")
  case False
  let ?x = "of_nat n :: rat"
  let ?e = "exponent ?x"
  have x: "0 < ?x" using False by simp
  have "?e < 54"
  proof (rule ccontr)
    assume "\<not> ?e < 54"
    then have "(2 :: rat) powi 54 \<le> 2 powi ?e"
      by (intro power_int_increasing) auto
    also have "\<dots> \<le> of_nat (2 ^ 53)"
      using exponent_bounds [OF x] assms by (metis order_trans of_nat_le_iff)
    finally show False by simp
  qed
  show ?thesis
  proof (cases "?e = 53")
    case True
    then have "(2 :: rat) ^ 53 \<le> ?x"
      using exponent_bounds [OF x] by simp
    then have "n = 2 ^ 53"
      using assms by (metis le_antisym of_nat_le_iff of_nat_numeral of_nat_power)
    then show ?thesis
      using True round_even_of_int [of "2 ^ 52"] by (simp add: fl_def fl_pos_def)
  next
    case False
    with \<open>?e < 54\<close> have "?e - 52 \<le> 0" by simp
    then obtain k where k: "?e - 52 = - int k"
      by (metis nonpos_int_cases)
    have "?x / 2 powi (?e - 52) = of_int (int n * 2 ^ k)"
      unfolding k by (simp add: power_int_minus field_simps)
    then show ?thesis
      using x round_even_of_int [of "int n * 2 ^ k"] by (simp add: fl_def fl_pos_def Let_def k power_int_minus)
  qed
qed simp

section \<open>Conversions\<close>

text \<open>\<^verbatim>\<open>f64::round\<close> on a non-negative number: halves are rounded away from zero.\<close>

definition round_half_up :: "f64 \<Rightarrow> nat" where
  "round_half_up x = nat \<lfloor>x + 1 / 2\<rfloor>"

lemma round_half_up_mono: "x \<le> y \<Longrightarrow> round_half_up x \<le> round_half_up y"
  by (simp add: round_half_up_def floor_mono nat_mono)

lemma round_half_up_le: "x \<le> of_nat n \<Longrightarrow> round_half_up x \<le> n"
  unfolding round_half_up_def by linarith

text \<open>\<^verbatim>\<open>{:.2}\<close>: the exact value rounded to hundredths, ties to even.\<close>

definition fmt_hundredths :: "nat \<Rightarrow> str" where
  "fmt_hundredths n = dec (n div 100) @ ''.'' @ dec (n mod 100 div 10) @ dec (n mod 10)"

definition fmt2 :: "f64 \<Rightarrow> str" where
  "fmt2 x = (if x < 0 then ''-'' else []) @ fmt_hundredths (nat (round_even (\<bar>x\<bar> * 100)))"

text \<open>\<^verbatim>\<open>{:+.2}\<close>: always with a sign.\<close>

definition fmt2_signed :: "f64 \<Rightarrow> str" where
  "fmt2_signed x = (if x < 0 then ''-'' else ''+'') @ fmt_hundredths (nat (round_even (\<bar>x\<bar> * 100)))"

end
