(* ===== verification/Bench_Measure.thy ===== *)
theory Bench_Measure
  imports F64 "HOL-Library.Multiset"
begin

text \<open>
  \<^verbatim>\<open>crates/redis-web-bench/src/model.rs\<close> and the measuring half of \<^verbatim>\<open>suites.rs\<close>: the result types, how
  a workload's operations are shared among concurrent workers, and how the latencies become a summary.
  The seven \<^verbatim>\<open>measure_*_parallel\<close> functions and \<^verbatim>\<open>websocket_roundtrip_workload\<close> differ only in the operation
  and in whether a worker first opens a connection. A duration is a number of nanoseconds.
\<close>

section \<open>Results\<close>

type_synonym duration = nat

record command_suite_config =
  warmup_ops :: nat
  measured_ops :: nat
  concurrency :: nat

record web_socket_suite_config =
  ws_warmup_ops :: nat
  ws_measured_ops :: nat
  persistent_connections :: nat

record streaming_suite_config =
  startup_warmup_ops :: nat
  startup_measured_ops :: nat
  warmup_messages :: nat
  measured_messages :: nat

record suite_registry =
  common_commands :: command_suite_config
  read_heavy_cache :: command_suite_config
  websocket_commands :: web_socket_suite_config
  streaming :: streaming_suite_config

definition default_v1 :: suite_registry where
  "default_v1 =
     \<lparr>common_commands = \<lparr>warmup_ops = 500, measured_ops = 10000, concurrency = 32\<rparr>,
      read_heavy_cache = \<lparr>warmup_ops = 500, measured_ops = 10000, concurrency = 32\<rparr>,
      websocket_commands = \<lparr>ws_warmup_ops = 500, ws_measured_ops = 10000, persistent_connections = 8\<rparr>,
      streaming = \<lparr>startup_warmup_ops = 25, startup_measured_ops = 100, warmup_messages = 100,
        measured_messages = 5000\<rparr>\<rparr>"

definition smoke :: suite_registry where
  "smoke =
     \<lparr>common_commands = \<lparr>warmup_ops = 5, measured_ops = 20, concurrency = 4\<rparr>,
      read_heavy_cache = \<lparr>warmup_ops = 5, measured_ops = 20, concurrency = 4\<rparr>,
      websocket_commands = \<lparr>ws_warmup_ops = 3, ws_measured_ops = 12, persistent_connections = 2\<rparr>,
      streaming = \<lparr>startup_warmup_ops = 1, startup_measured_ops = 3, warmup_messages = 2,
        measured_messages = 8\<rparr>\<rparr>"

record metric_summary =
  attempted_ops :: nat
  success_count :: nat
  error_count :: nat
  p50_ms :: "f64 option"
  p95_ms :: "f64 option"
  p99_ms :: "f64 option"
  throughput_per_sec :: f64

record workload_result =
  workload_name :: str
  workload_metrics :: "metric_summary option"
  workload_notes :: "str option"

datatype suite_status = Completed | Skipped str

record suite_result =
  suite_name :: str
  suite_state :: suite_status
  suite_workloads :: "workload_result list"

definition completed_workload :: "str \<Rightarrow> metric_summary \<Rightarrow> workload_result" where
  "completed_workload name metrics =
     \<lparr>workload_name = name, workload_metrics = Some metrics, workload_notes = None\<rparr>"

definition skipped_suite :: "str \<Rightarrow> str \<Rightarrow> suite_result" where
  "skipped_suite name reason =
     \<lparr>suite_name = name, suite_state = Skipped reason, suite_workloads = []\<rparr>"

section \<open>Summaries\<close>

text \<open>\<^verbatim>\<open>Duration::as_secs_f64\<close>\<close>

definition as_secs_f64 :: "duration \<Rightarrow> f64" where
  "as_secs_f64 d = fl (fl (of_nat (d div 10 ^ 9)) + fl (of_nat (d mod 10 ^ 9) / 10 ^ 9))"

definition as_ms :: "duration \<Rightarrow> f64" where
  "as_ms d = fl (as_secs_f64 d * 1000)"

text \<open>The rank of a percentile in a non-empty sorted list; indexing past its end panics.\<close>

definition percentile_index :: "nat \<Rightarrow> f64 \<Rightarrow> nat" where
  "percentile_index n percentile = round_half_up (fl (fl (fl (of_nat n) - 1) * percentile))"

definition percentile_ms :: "duration list \<Rightarrow> f64 \<Rightarrow> f64 option outcome" where
  "percentile_ms latencies percentile =
     (if latencies = [] then Return None
      else let idx = percentile_index (length latencies) percentile in
        if idx < length latencies then Return (Some (as_ms (latencies ! idx))) else Panic)"

definition summarize_metrics ::
  "duration list \<Rightarrow> duration \<Rightarrow> nat \<Rightarrow> nat \<Rightarrow> metric_summary outcome" where
  "summarize_metrics latencies elapsed attempted errors =
     (let sorted_latencies = sort latencies; success = length latencies in
      bind_outcome (percentile_ms sorted_latencies (fl (50 / 100))) (\<lambda>p50.
      bind_outcome (percentile_ms sorted_latencies (fl (95 / 100))) (\<lambda>p95.
      bind_outcome (percentile_ms sorted_latencies (fl (99 / 100))) (\<lambda>p99.
        Return \<lparr>attempted_ops = attempted, success_count = success, error_count = errors,
          p50_ms = p50, p95_ms = p95, p99_ms = p99,
          throughput_per_sec = (if elapsed = 0 then 0 else fl (fl (of_nat success) / as_secs_f64 elapsed))\<rparr>))))"

section \<open>Workers\<close>

datatype worker = Connecting | Idle | Running nat | Finished | ConnectFailed

text \<open>
  The shared counter, the latencies, the error count, the workers, and the operations issued so far,
  as pairs of worker and index.
\<close>

record measurement =
  m_counter :: nat
  m_latencies :: "duration list"
  m_errors :: nat
  m_workers :: "worker list"
  m_issued :: "(nat \<times> nat) list"

definition set_worker :: "nat \<Rightarrow> worker \<Rightarrow> measurement \<Rightarrow> measurement" where
  "set_worker w p s = s\<lparr>m_workers := (m_workers s)[w := p]\<rparr>"

text \<open>
  What a worker does up to its next \<^verbatim>\<open>await\<close>: connect, take the next index from the counter and start
  its operation, or record how the operation ended (its latency, or \<open>None\<close> for an error).
\<close>

definition worker_turn :: "nat \<Rightarrow> nat \<Rightarrow> duration option \<Rightarrow> measurement \<Rightarrow> measurement option" where
  "worker_turn measured w outcome s =
     (case m_workers s ! w of
        Connecting \<Rightarrow> Some (set_worker w (if outcome = None then ConnectFailed else Idle) s)
      | Idle \<Rightarrow>
          let idx = m_counter s; s1 = s\<lparr>m_counter := Suc idx\<rparr> in
          Some (if measured \<le> idx then set_worker w Finished s1
                else set_worker w (Running idx) (s1\<lparr>m_issued := m_issued s @ [(w, idx)]\<rparr>))
      | Running idx \<Rightarrow>
          Some (set_worker w Idle
            (case outcome of
               Some latency \<Rightarrow> s\<lparr>m_latencies := m_latencies s @ [latency]\<rparr>
             | None \<Rightarrow> s\<lparr>m_errors := Suc (m_errors s)\<rparr>))
      | Finished \<Rightarrow> None
      | ConnectFailed \<Rightarrow> None)"

inductive worker_step :: "nat \<Rightarrow> measurement \<Rightarrow> measurement \<Rightarrow> bool" for measured where
  turn: "w < length (m_workers s) \<Longrightarrow> worker_turn measured w outcome s = Some t \<Longrightarrow> worker_step measured s t"

inductive_cases worker_stepE: "worker_step measured s t"

definition measure_start :: "bool \<Rightarrow> nat \<Rightarrow> measurement \<Rightarrow> bool" where
  "measure_start connects n s \<longleftrightarrow>
     s = \<lparr>m_counter = 0, m_latencies = [], m_errors = 0,
          m_workers = replicate n (if connects then Connecting else Idle), m_issued = []\<rparr>"

text \<open>
  Joining the workers: the first that could not connect ends the measurement with its error; when
  all have finished, the summary.
\<close>

definition join_workers :: "nat \<Rightarrow> duration \<Rightarrow> measurement \<Rightarrow> (metric_summary, unit) result outcome option" where
  "join_workers measured elapsed s =
     (if ConnectFailed \<in> set (m_workers s) then Some (Return (Err ()))
      else if list_all (\<lambda>p. p = Finished) (m_workers s) then
        Some (bind_outcome (summarize_metrics (m_latencies s) elapsed measured (m_errors s)) (\<lambda>m. Return (Ok m)))
      else None)"

section \<open>Percentiles\<close>

lemma percentile_index_less:
  assumes "0 < n" and "n \<le> 2 ^ 53" and "percentile \<le> 1"
  shows "percentile_index n percentile < n"
proof -
  have n: "fl (fl (of_nat n) - 1) = of_nat (n - 1)"
    using assms(1,2) fl_of_nat [of n] fl_of_nat [of "n - 1"] by (simp add: of_nat_diff)
  have "fl (of_nat (n - 1) * percentile) \<le> fl (of_nat (n - 1))"
    using assms(3) by (intro fl_mono) (simp add: mult_left_le)
  also have "\<dots> = of_nat (n - 1)"
    using assms(2) by (simp add: fl_of_nat)
  finally have "percentile_index n percentile \<le> n - 1"
    unfolding percentile_index_def n by (rule round_half_up_le)
  with assms(1) show ?thesis by simp
qed

lemma percentile_index_mono:
  assumes "0 < n" and "n \<le> 2 ^ 53" and "p \<le> q"
  shows "percentile_index n p \<le> percentile_index n q"
proof -
  have "0 \<le> fl (fl (of_nat n) - 1)"
    using assms(1,2) by (intro fl_nonneg) (simp add: fl_of_nat)
  then show ?thesis
    unfolding percentile_index_def using assms(3) by (intro round_half_up_mono fl_mono mult_left_mono)
qed

lemma fl_1: "fl 1 = 1"
  using fl_of_nat [of 1] by simp

lemma percentiles_in_order:
  "fl (50 / 100) \<le> fl (95 / 100)" "fl (95 / 100) \<le> fl (99 / 100)" "fl (99 / 100) \<le> 1"
  using fl_mono [of "99 / 100" 1] by (auto intro: fl_mono simp: fl_1)

lemma as_secs_f64_mono:
  assumes "d \<le> d'" and "d' < 2 ^ 53 * 10 ^ 9"
  shows "as_secs_f64 d \<le> as_secs_f64 d'"
proof -
  have small: "d div 10 ^ 9 \<le> 2 ^ 53" "d' div 10 ^ 9 \<le> 2 ^ 53"
    using assms by (simp_all add: div_le_mono order.trans less_imp_le div_less_iff_less_mult)
  have "of_nat (d div 10 ^ 9) + fl (of_nat (d mod 10 ^ 9) / 10 ^ 9) \<le>
      of_nat (d' div 10 ^ 9) + fl (of_nat (d' mod 10 ^ 9) / 10 ^ 9)"
  proof (cases "d div 10 ^ 9 = d' div 10 ^ 9")
    case True
    then have "d mod 10 ^ 9 \<le> d' mod 10 ^ 9"
      using assms(1) by (metis add_le_cancel_left mult_div_mod_eq)
    then show ?thesis
      using True by (simp add: fl_mono divide_right_mono)
  next
    case False
    then have "d div 10 ^ 9 + 1 \<le> d' div 10 ^ 9"
      using div_le_mono [OF assms(1), of "10 ^ 9"] by linarith
    then have "of_nat (d div 10 ^ 9 + 1) \<le> (of_nat (d' div 10 ^ 9) :: rat)"
      by (simp only: of_nat_le_iff)
    then have "of_nat (d div 10 ^ 9) + 1 \<le> (of_nat (d' div 10 ^ 9) :: rat)"
      by simp
    moreover have "fl (of_nat (d mod 10 ^ 9) / 10 ^ 9) \<le> 1"
      using fl_mono [of "of_nat (d mod 10 ^ 9) / 10 ^ 9" 1] by (simp add: fl_1)
    moreover have "0 \<le> fl (of_nat (d' mod 10 ^ 9) / 10 ^ 9)"
      by (simp add: fl_nonneg)
    ultimately show ?thesis
      by linarith
  qed
  then show ?thesis
    using small by (simp add: as_secs_f64_def fl_of_nat fl_mono)
qed

lemma as_ms_mono: "d \<le> d' \<Longrightarrow> d' < 2 ^ 53 * 10 ^ 9 \<Longrightarrow> as_ms d \<le> as_ms d'"
  by (simp add: as_ms_def fl_mono as_secs_f64_mono)

lemma percentile_bounds:
  assumes "0 < n" and "n \<le> 2 ^ 53"
  shows "percentile_index n (fl (50 / 100)) \<le> percentile_index n (fl (95 / 100))"
    and "percentile_index n (fl (95 / 100)) \<le> percentile_index n (fl (99 / 100))"
    and "percentile_index n (fl (99 / 100)) < n"
  using percentile_index_mono percentile_index_less percentiles_in_order assms by auto

lemma summarize_metrics_eq:
  assumes "latencies \<noteq> []" and "length latencies \<le> 2 ^ 53"
  shows "summarize_metrics latencies elapsed attempted errors = Return
    (let pick = (\<lambda>q. Some (as_ms (sort latencies ! percentile_index (length latencies) q))) in
     \<lparr>attempted_ops = attempted, success_count = length latencies, error_count = errors,
      p50_ms = pick (fl (50 / 100)), p95_ms = pick (fl (95 / 100)), p99_ms = pick (fl (99 / 100)),
      throughput_per_sec = (if elapsed = 0 then 0 else fl (fl (of_nat (length latencies)) / as_secs_f64 elapsed))\<rparr>)"
proof -
  have nonempty: "sort latencies \<noteq> []"
    using assms(1) by (metis length_0_conv length_sort)
  have "percentile_ms (sort latencies) q = Return (Some (as_ms (sort latencies ! percentile_index (length latencies) q)))"
    if "percentile_index (length latencies) q < length latencies" for q
    using that nonempty by (simp add: percentile_ms_def)
  then show ?thesis
    using percentile_bounds [of "length latencies"] assms by (simp add: summarize_metrics_def Let_def)
qed

lemma summarize_metrics_counts:
  assumes "length latencies \<le> 2 ^ 53"
  shows "\<exists>m. summarize_metrics latencies elapsed attempted errors = Return m \<and>
    attempted_ops m = attempted \<and> success_count m = length latencies \<and> error_count m = errors"
  using assms summarize_metrics_eq [of latencies elapsed attempted errors]
  by (cases "latencies = []") (auto simp: summarize_metrics_def percentile_ms_def Let_def)

text \<open>C39. A summary is always produced: no percentile is looked up out of range. Its percentiles are
  latencies that were measured, in milliseconds, and they are in order.\<close>

theorem percentiles_ordered:
  assumes "length latencies \<le> 2 ^ 53" and "\<forall>d \<in> set latencies. d < 2 ^ 53 * 10 ^ 9"
  shows "\<exists>m. summarize_metrics latencies elapsed attempted errors = Return m \<and>
    attempted_ops m = attempted \<and> success_count m = length latencies \<and> error_count m = errors \<and>
    (if latencies = [] then p50_ms m = None \<and> p95_ms m = None \<and> p99_ms m = None
     else \<exists>a b c. {a, b, c} \<subseteq> set latencies \<and> a \<le> b \<and> b \<le> c \<and>
       p50_ms m = Some (as_ms a) \<and> p95_ms m = Some (as_ms b) \<and> p99_ms m = Some (as_ms c) \<and>
       as_ms a \<le> as_ms b \<and> as_ms b \<le> as_ms c)"
proof (cases "latencies = []")
  case False
  let ?s = "sort latencies" and ?n = "length latencies"
  let ?i = "percentile_index ?n"
  note bounds = percentile_bounds [of ?n, OF _ assms(1)]
  have "?s ! i \<in> set latencies" if "i < ?n" for i
    using that nth_mem [of i ?s] by simp
  then have mem: "{?s ! ?i (fl (50 / 100)), ?s ! ?i (fl (95 / 100)), ?s ! ?i (fl (99 / 100))} \<subseteq> set latencies"
    using bounds False by simp
  have ord: "?s ! ?i (fl (50 / 100)) \<le> ?s ! ?i (fl (95 / 100))" "?s ! ?i (fl (95 / 100)) \<le> ?s ! ?i (fl (99 / 100))"
    using bounds False by (auto intro!: sorted_nth_mono)
  then have ms: "as_ms (?s ! ?i (fl (50 / 100))) \<le> as_ms (?s ! ?i (fl (95 / 100)))"
    "as_ms (?s ! ?i (fl (95 / 100))) \<le> as_ms (?s ! ?i (fl (99 / 100)))"
    using assms(2) mem by (auto intro!: as_ms_mono)
  have "\<exists>a b c. {a, b, c} \<subseteq> set latencies \<and> a \<le> b \<and> b \<le> c \<and>
      as_ms (?s ! ?i (fl (50 / 100))) = as_ms a \<and> as_ms (?s ! ?i (fl (95 / 100))) = as_ms b \<and>
      as_ms (?s ! ?i (fl (99 / 100))) = as_ms c \<and> as_ms a \<le> as_ms b \<and> as_ms b \<le> as_ms c"
    using mem ord ms by blast
  then show ?thesis
    using False by (simp add: summarize_metrics_eq [OF False assms(1)] Let_def)
qed (simp add: summarize_metrics_def percentile_ms_def)

theorem percentiles_ordered_witness:
  "\<exists>m. summarize_metrics [3, 1, 2] 10 3 0 = Return m \<and> success_count m = 3"
  using percentiles_ordered [of "[3, 1, 2]" 10 3 0] by auto

section \<open>Every operation is run once\<close>

fun is_running :: "worker \<Rightarrow> bool" where
  "is_running (Running idx) \<longleftrightarrow> True"
| "is_running _ \<longleftrightarrow> False"

definition running :: "measurement \<Rightarrow> nat" where
  "running s = length (filter is_running (m_workers s))"

definition finished :: "measurement \<Rightarrow> nat" where
  "finished s = length (filter (\<lambda>p. p = Finished) (m_workers s))"

text \<open>
  The indices below the counter are issued, each once; each issued operation is running or recorded;
  past the last index the counter only counts finished workers.
\<close>

definition measure_inv :: "nat \<Rightarrow> measurement \<Rightarrow> bool" where
  "measure_inv measured s \<longleftrightarrow>
     map snd (m_issued s) = [0..<min (m_counter s) measured] \<and>
     length (m_latencies s) + m_errors s + running s = min (m_counter s) measured \<and>
     m_counter s \<le> measured + finished s \<and>
     (0 < finished s \<longrightarrow> measured \<le> m_counter s)"

lemma set_worker_counts:
  assumes "w < length (m_workers s)"
  shows "running (set_worker w p s) + of_bool (is_running (m_workers s ! w)) = running s + of_bool (is_running p)"
    and "finished (set_worker w p s) + of_bool (m_workers s ! w = Finished) = finished s + of_bool (p = Finished)"
  using length_filter_update [OF assms, of is_running p] length_filter_update [OF assms, of "\<lambda>q. q = Finished" p]
  by (simp_all add: running_def finished_def set_worker_def)

lemma set_worker_simps [simp]:
  "m_counter (set_worker w p s) = m_counter s" "m_latencies (set_worker w p s) = m_latencies s"
  "m_errors (set_worker w p s) = m_errors s" "m_issued (set_worker w p s) = m_issued s"
  "m_workers (set_worker w p s) = (m_workers s)[w := p]"
  by (simp_all add: set_worker_def)

lemma counts_other_fields [simp]:
  "running (s\<lparr>m_counter := x\<rparr>) = running s" "finished (s\<lparr>m_counter := x\<rparr>) = finished s"
  "running (s\<lparr>m_latencies := l\<rparr>) = running s" "finished (s\<lparr>m_latencies := l\<rparr>) = finished s"
  "running (s\<lparr>m_errors := x\<rparr>) = running s" "finished (s\<lparr>m_errors := x\<rparr>) = finished s"
  "running (s\<lparr>m_issued := i\<rparr>) = running s" "finished (s\<lparr>m_issued := i\<rparr>) = finished s"
  by (simp_all add: running_def finished_def)

lemma worker_turn_inv:
  assumes "measure_inv measured s" and "w < length (m_workers s)" and "worker_turn measured w outcome s = Some t"
  shows "measure_inv measured t"
proof (cases "m_workers s ! w")
  case Idle
  let ?s1 = "s\<lparr>m_counter := Suc (m_counter s)\<rparr>"
  show ?thesis
    using assms Idle set_worker_counts [of w ?s1 Finished]
      set_worker_counts [of w "?s1\<lparr>m_issued := m_issued s @ [(w, m_counter s)]\<rparr>" "Running (m_counter s)"]
    by (auto simp: worker_turn_def measure_inv_def Let_def min_def split: if_splits)
next
  case (Running idx)
  show ?thesis
    using assms Running set_worker_counts [of w "s\<lparr>m_errors := Suc (m_errors s)\<rparr>" Idle]
      set_worker_counts [of w "s\<lparr>m_latencies := m_latencies s @ [the outcome]\<rparr>" Idle]
    by (auto simp: worker_turn_def measure_inv_def split: option.splits)
qed (use assms set_worker_counts [of w s] in \<open>auto simp: worker_turn_def measure_inv_def split: if_splits\<close>)

interpretation measuring: invariant_system "measure_start connects n" "worker_step measured" "measure_inv measured"
  for connects n measured
proof
  show "measure_inv measured s" if "measure_start connects n s" for s
    using that by (auto simp: measure_start_def measure_inv_def running_def finished_def)
  show "measure_inv measured t" if "measure_inv measured s" "worker_step measured s t" for s t
    using that worker_turn_inv by (auto elim: worker_stepE)
qed

lemma worker_count: "worker_step measured s t \<Longrightarrow> length (m_workers t) = length (m_workers s)"
  by (auto elim!: worker_stepE simp: worker_turn_def Let_def split: worker.splits option.splits if_splits)

lemma reachable_worker_count:
  "reachable (measure_start connects n) (worker_step measured) s \<Longrightarrow> length (m_workers s) = n"
  by (induction rule: reachable.induct) (auto simp: measure_start_def worker_count)

lemma measured_exactly_once_counts:
  assumes "reachable (measure_start connects n) (worker_step measured) s" and "0 < n"
    and "join_workers measured elapsed s = Some (Return (Ok m))"
  shows "map snd (m_issued s) = [0..<measured] \<and> attempted_ops m = measured \<and>
    success_count m + error_count m = attempted_ops m"
proof -
  have all: "list_all (\<lambda>p. p = Finished) (m_workers s)"
    and sum: "summarize_metrics (m_latencies s) elapsed measured (m_errors s) = Return m"
    using assms(3) by (auto simp: join_workers_def bind_outcome_Return_iff split: if_splits)
  have "running s = 0" "finished s = n"
    using all reachable_worker_count [OF assms(1)]
    by (auto simp: running_def finished_def list_all_iff filter_id_conv filter_empty_conv)
  moreover have "attempted_ops m = measured" "success_count m = length (m_latencies s)" "error_count m = m_errors s"
    using sum by (auto simp: summarize_metrics_def Let_def bind_outcome_Return_iff)
  moreover have "measure_inv measured s"
    using measuring.reachable_inv assms(1) by blast
  ultimately show ?thesis
    using assms(2) by (auto simp: measure_inv_def min_def)
qed

text \<open>When a measurement yields a summary, every index below the number of operations was given to
  exactly one worker, and every operation is counted as a success or as an error.\<close>

theorem measured_exactly_once:
  assumes "reachable (measure_start connects n) (worker_step measured) s" and "0 < n"
    and "join_workers measured elapsed s = Some (Return (Ok m))"
  shows "map snd (m_issued s) = [0..<measured] \<and> attempted_ops m = measured \<and>
    success_count m + error_count m = attempted_ops m"
  by (rule measured_exactly_once_counts [OF assms])

text \<open>A run of one worker and one operation.\<close>

lemma sample_measurement:
  "reachable (measure_start False 1) (worker_step 1)
     \<lparr>m_counter = 2, m_latencies = [5], m_errors = 0, m_workers = [Finished], m_issued = [(0, 0)]\<rparr>"
proof -
  let ?s = "\<lambda>c l p i. \<lparr>m_counter = c, m_latencies = l, m_errors = 0, m_workers = [p], m_issued = i\<rparr>"
  have "reachable (measure_start False 1) (worker_step 1) (?s 0 [] Idle [])"
    by (rule reach_start) (simp add: measure_start_def)
  moreover have "worker_step 1 (?s 0 [] Idle []) (?s 1 [] (Running 0) [(0, 0)])"
    by (rule worker_step.turn [of 0 _ _ None]) (simp_all add: worker_turn_def set_worker_def)
  moreover have "worker_step 1 (?s 1 [] (Running 0) [(0, 0)]) (?s 1 [5] Idle [(0, 0)])"
    by (rule worker_step.turn [of 0 _ _ "Some 5"]) (simp_all add: worker_turn_def set_worker_def)
  moreover have "worker_step 1 (?s 1 [5] Idle [(0, 0)]) (?s 2 [5] Finished [(0, 0)])"
    by (rule worker_step.turn [of 0 _ _ None]) (simp_all add: worker_turn_def set_worker_def)
  ultimately show ?thesis
    by (meson reach_step)
qed

theorem measured_exactly_once_witness:
  "\<exists>m. summarize_metrics [5] 9 1 0 = Return m \<and> success_count m + error_count m = attempted_ops m"
proof -
  obtain m where "summarize_metrics [5] 9 1 0 = Return m"
    using percentile_index_less [of 1] percentiles_in_order
    by (auto simp: summarize_metrics_def percentile_ms_def Let_def)
  then show ?thesis
    using measured_exactly_once [OF sample_measurement, of 9 m] by (simp add: join_workers_def)
qed

section \<open>Measurements end\<close>

fun weight :: "worker \<Rightarrow> nat" where
  "weight Connecting = 2"
| "weight Idle = 1"
| "weight (Running idx) = 2"
| "weight Finished = 0"
| "weight ConnectFailed = 0"

definition work_left :: "nat \<Rightarrow> measurement \<Rightarrow> nat" where
  "work_left measured s = 2 * (measured - m_counter s) + sum_list (map weight (m_workers s))"

lemma weight_update:
  "w < length xs \<Longrightarrow> sum_list (map weight (xs[w := p])) + weight (xs ! w) = sum_list (map weight xs) + weight p"
proof (induction xs arbitrary: w)
  case (Cons y xs)
  then show ?case by (cases w) auto
qed simp

interpretation measuring_ends: terminating_system "worker_step measured" "work_left measured" for measured
proof
  fix s t assume "worker_step measured s t"
  then obtain w outcome where w: "w < length (m_workers s)" "worker_turn measured w outcome s = Some t"
    by (auto elim: worker_stepE)
  then show "work_left measured t < work_left measured s"
    using weight_update [OF w(1), of Idle] weight_update [OF w(1), of Finished]
      weight_update [OF w(1), of ConnectFailed] weight_update [OF w(1), of "Running (m_counter s)"]
    by (auto simp: worker_turn_def work_left_def Let_def split: worker.splits option.splits if_splits)
qed

lemma worker_stuck:
  "(\<nexists>t. worker_step measured s t) \<longleftrightarrow> set (m_workers s) \<subseteq> {Finished, ConnectFailed}"
proof
  assume stuck: "\<nexists>t. worker_step measured s t"
  show "set (m_workers s) \<subseteq> {Finished, ConnectFailed}"
  proof
    fix p assume "p \<in> set (m_workers s)"
    then obtain w where w: "w < length (m_workers s)" "m_workers s ! w = p"
      by (auto simp: in_set_conv_nth)
    with stuck have "worker_turn measured w None s = None"
      by (metis not_None_eq worker_step.turn)
    with w show "p \<in> {Finished, ConnectFailed}"
      by (auto simp: worker_turn_def Let_def split: worker.splits)
  qed
next
  assume "set (m_workers s) \<subseteq> {Finished, ConnectFailed}"
  then show "\<nexists>t. worker_step measured s t"
    by (fastforce elim!: worker_stepE simp: worker_turn_def Let_def dest: nth_mem split: worker.splits)
qed

text \<open>However the workers interleave and their operations end, a measurement takes at most two turns
  per operation and two per worker, and when no turn is left every worker has returned, so that
  joining them yields a result.\<close>

theorem measurement_ends:
  assumes "measure_start connects n s" and "(worker_step measured ^^ i) s t"
  shows "i \<le> 2 * measured + 2 * n \<and>
    ((\<nexists>u. worker_step measured t u) \<longrightarrow> join_workers measured elapsed t \<noteq> None) \<and>
    (\<exists>u. (worker_step measured)\<^sup>*\<^sup>* t u \<and> join_workers measured elapsed u \<noteq> None)"
proof -
  have "i + work_left measured t \<le> work_left measured s"
    by (rule measuring_ends.run_bounded [OF assms(2)])
  moreover have "work_left measured s \<le> 2 * measured + 2 * n"
    using assms(1) by (simp add: measure_start_def work_left_def sum_list_replicate)
  moreover have joined: "join_workers measured elapsed u \<noteq> None" if "\<nexists>v. worker_step measured u v" for u
    using that unfolding worker_stuck by (auto simp: join_workers_def list_all_iff)
  ultimately show ?thesis
    using measuring_ends.run_ends [of measured t] by force
qed

theorem measurement_ends_witness:
  "\<exists>u. (worker_step 7)\<^sup>*\<^sup>* \<lparr>m_counter = 0, m_latencies = [], m_errors = 0, m_workers = [Idle, Idle], m_issued = []\<rparr> u \<and>
     join_workers 7 9 u \<noteq> None"
proof -
  let ?s = "\<lparr>m_counter = 0, m_latencies = [], m_errors = 0, m_workers = [Idle, Idle], m_issued = []\<rparr>"
  have "measure_start False 2 ?s" and "(worker_step 7 ^^ 0) ?s ?s"
    by (simp_all add: measure_start_def numeral_2_eq_2)
  from measurement_ends [OF this, of 9] show ?thesis by blast
qed

end
