(* ===== verification/Bench_Stream.thy ===== *)
theory Bench_Stream
  imports Bench_Measure Utf8
begin

text \<open>
  The streaming half of \<^verbatim>\<open>crates/redis-web-bench/src/suites.rs\<close>: reading server-sent events and gRPC
  events, waiting until a subscription is live, the startup workloads, and the delivery workloads, in
  which a publisher task runs ahead of the reader by a bounded number of messages.
\<close>

definition STREAM_PUBLISH_YIELD_INTERVAL :: nat where "STREAM_PUBLISH_YIELD_INTERVAL = 16"
definition STREAM_MAX_IN_FLIGHT_MESSAGES :: nat where "STREAM_MAX_IN_FLIGHT_MESSAGES = 32"
definition STREAM_READY_SENTINEL :: str where "STREAM_READY_SENTINEL = ''__redis_web_bench_ready__''"
definition STREAM_READY_ATTEMPTS :: nat where "STREAM_READY_ATTEMPTS = 50"

section \<open>Reading a payload\<close>

text \<open>
  The lines completed in the buffer, up to the first non-empty \<^verbatim>\<open>data:\<close> field: its payload, if there
  is one, and what is left of the buffer.
\<close>

function sse_scan :: "str \<Rightarrow> str option \<times> str" where
  "sse_scan buffer =
     (case split_once (CHR 0x0A) buffer of
        None \<Rightarrow> (None, buffer)
      | Some (line, rest) \<Rightarrow>
          (case strip_prefix ''data:'' (strip_cr line) of
             Some payload \<Rightarrow> if trim_start payload \<noteq> [] then (Some (trim_start payload), rest) else sse_scan rest
           | None \<Rightarrow> sse_scan rest))"
  by pat_completeness auto

lemma split_once_Some: "split_once c s = Some (a, b) \<Longrightarrow> s = a @ c # b"
  by (induction s arbitrary: a) (auto split: if_splits option.splits)

lemma split_once_append [simp]: "c \<notin> set a \<Longrightarrow> split_once c (a @ c # b) = Some (a, b)"
  by (induction a) auto

lemma split_once_None: "split_once c s = None \<longleftrightarrow> c \<notin> set s"
  by (induction s) (auto split: option.splits)

termination sse_scan
  by (relation "measure length") (auto dest!: split_once_Some)

declare sse_scan.simps [simp del]

text \<open>How waiting for the next chunk of the body can end.\<close>

datatype chunk_poll = ChunkData bytes | ChunkTimeout | ChunkFailed str | ChunkEnd

text \<open>
  One call of the reader, with the chunks that arrive: the result, and the chunks it leaves to the
  next call. The buffer is local to the call. The result is \<open>None\<close> while more chunks are awaited.
\<close>

fun read_next_sse_payload :: "str \<Rightarrow> chunk_poll list \<Rightarrow> (str, str) result option \<times> chunk_poll list" where
  "read_next_sse_payload buffer [] = (None, [])"
| "read_next_sse_payload buffer (ChunkData chunk # polls) =
     (case sse_scan (buffer @ from_utf8_lossy chunk) of
        (Some payload, _) \<Rightarrow> (Some (Ok payload), polls)
      | (None, rest) \<Rightarrow> read_next_sse_payload rest polls)"
| "read_next_sse_payload buffer (ChunkTimeout # polls) =
     (Some (Err ''timed out waiting for SSE chunk''), polls)"
| "read_next_sse_payload buffer (ChunkFailed e # polls) = (Some (Err e), polls)"
| "read_next_sse_payload buffer (ChunkEnd # polls) =
     (Some (Err ''SSE stream ended unexpectedly''), polls)"

datatype event_poll = EventPayload bytes | EventTimeout | EventFailed str | EventEnd

fun next_grpc_payload :: "event_poll \<Rightarrow> (str, str) result" where
  "next_grpc_payload (EventPayload payload) =
     (if utf8_valid payload then Ok payload else Err ''gRPC payload was not UTF-8'')"
| "next_grpc_payload EventTimeout = Err ''timed out waiting for gRPC subscribe event''"
| "next_grpc_payload (EventFailed e) = Err e"
| "next_grpc_payload EventEnd = Err ''gRPC subscribe stream ended unexpectedly''"

section \<open>Waiting for a subscription\<close>

text \<open>
  An attempt publishes a payload and reads the next one: whether publishing worked, and what was
  read. The loop stops at the first attempt that reads the payload it published; a failed publish
  ends it, a wrong or missing payload only costs an attempt.
\<close>

fun await_payload :: "str \<Rightarrow> str \<Rightarrow> nat \<Rightarrow> (bool \<times> (str, str) result) list \<Rightarrow> (unit, str) result option" where
  "await_payload message want 0 attempts = Some (Err message)"
| "await_payload message want (Suc n) [] = None"
| "await_payload message want (Suc n) ((published, received) # attempts) =
     (if \<not> published then Some (Err ''failed to publish Redis message'')
      else if received = Ok want then Some (Ok ())
      else await_payload message want n attempts)"

definition wait_for_sse_subscription_ready ::
  "str \<Rightarrow> (bool \<times> (str, str) result) list \<Rightarrow> (unit, str) result option" where
  "wait_for_sse_subscription_ready channel attempts =
     await_payload (''timed out waiting for SSE subscription readiness on channel `'' @ channel @ ''`'')
       STREAM_READY_SENTINEL STREAM_READY_ATTEMPTS attempts"

definition wait_for_grpc_subscription_ready ::
  "str \<Rightarrow> (bool \<times> (str, str) result) list \<Rightarrow> (unit, str) result option" where
  "wait_for_grpc_subscription_ready channel attempts =
     await_payload (''timed out waiting for gRPC subscription readiness on channel `'' @ channel @ ''`'')
       STREAM_READY_SENTINEL STREAM_READY_ATTEMPTS attempts"

text \<open>
  One startup measurement: subscribe, wait until the subscription is live, then publish the payload
  until it comes back. The time is the one since the start.
\<close>

definition startup_once ::
  "str \<Rightarrow> (unit, str) result \<Rightarrow> (unit, str) result option \<Rightarrow> str \<Rightarrow> (bool \<times> (str, str) result) list \<Rightarrow>
   duration \<Rightarrow> (duration, str) result option" where
  "startup_once message subscribed ready payload attempts elapsed =
     (case subscribed of
        Err e \<Rightarrow> Some (Err e)
      | Ok _ \<Rightarrow>
          (case ready of
             None \<Rightarrow> None
           | Some (Err e) \<Rightarrow> Some (Err e)
           | Some (Ok _) \<Rightarrow>
               (case await_payload message payload STREAM_READY_ATTEMPTS attempts of
                  None \<Rightarrow> None
                | Some (Err e) \<Rightarrow> Some (Err e)
                | Some (Ok _) \<Rightarrow> Some (Ok elapsed))))"

definition measure_sse_startup_once ::
  "(unit, str) result \<Rightarrow> (bool \<times> (str, str) result) list \<Rightarrow> str \<Rightarrow> str \<Rightarrow> (bool \<times> (str, str) result) list \<Rightarrow>
   duration \<Rightarrow> (duration, str) result option" where
  "measure_sse_startup_once subscribed ready channel payload attempts elapsed =
     startup_once (''timed out waiting for SSE startup payload `'' @ payload @ ''`'') subscribed
       (wait_for_sse_subscription_ready channel ready) payload attempts elapsed"

definition measure_grpc_startup_once ::
  "(unit, str) result \<Rightarrow> (bool \<times> (str, str) result) list \<Rightarrow> str \<Rightarrow> str \<Rightarrow> (bool \<times> (str, str) result) list \<Rightarrow>
   duration \<Rightarrow> (duration, str) result option" where
  "measure_grpc_startup_once subscribed ready channel payload attempts elapsed =
     startup_once (''timed out waiting for gRPC startup payload `'' @ payload @ ''`'') subscribed
       (wait_for_grpc_subscription_ready channel ready) payload attempts elapsed"

text \<open>
  A startup workload: the first warm-up that fails ends it; a measured run that fails is counted.
  The runs are given by their channel and payload.
\<close>

fun first_error :: "(duration, str) result list \<Rightarrow> str option" where
  "first_error [] = None"
| "first_error (Err e # rs) = Some e"
| "first_error (Ok d # rs) = first_error rs"

definition startup_workload ::
  "str \<Rightarrow> str \<Rightarrow> streaming_suite_config \<Rightarrow> (str \<Rightarrow> str \<Rightarrow> (duration, str) result) \<Rightarrow> duration \<Rightarrow>
   (metric_summary, str) result outcome" where
  "startup_workload variant_name kind suite once elapsed =
     (let channel = ''redis-web-bench:'' @ variant_name @ '':'' @ kind;
          warm = map (\<lambda>i. once (channel @ '':warmup:'' @ dec i) (''warmup-'' @ dec i)) [0..<startup_warmup_ops suite];
          runs = map (\<lambda>i. once (channel @ '':'' @ dec i) (''measured-'' @ dec i)) [0..<startup_measured_ops suite]
      in case first_error warm of
           Some e \<Rightarrow> Return (Err e)
         | None \<Rightarrow>
             bind_outcome
               (summarize_metrics (concat (map (\<lambda>r. case r of Ok d \<Rightarrow> [d] | Err _ \<Rightarrow> []) runs)) elapsed
                 (startup_measured_ops suite) (length (filter (\<lambda>r. case r of Err _ \<Rightarrow> True | Ok _ \<Rightarrow> False) runs)))
               (\<lambda>m. Return (Ok m)))"

definition sse_startup_workload where
  "sse_startup_workload variant_name suite once elapsed = startup_workload variant_name ''sse-startup'' suite once elapsed"

definition grpc_startup_workload where
  "grpc_startup_workload variant_name suite once elapsed = startup_workload variant_name ''grpc-startup'' suite once elapsed"

section \<open>The delivery workload\<close>

datatype publisher = Publishing | PublishFailed

datatype delivery_phase = Reading | Delivered | Aborted

text \<open>
  The state the reader and the publisher task share: the next index to publish, the send times (the
  indices in flight), the reads done, the latencies recorded and the errors.
\<close>

record delivery =
  d_publisher :: publisher
  d_next :: nat
  d_send_times :: "nat list"
  d_reads :: nat
  d_latencies :: "duration list"
  d_errors :: nat
  d_phase :: delivery_phase

text \<open>
  The publisher publishes the next message when fewer than the limit are in flight, and spins
  otherwise.
\<close>

definition can_publish :: "nat \<Rightarrow> delivery \<Rightarrow> bool" where
  "can_publish measured s \<longleftrightarrow>
     d_publisher s = Publishing \<and> d_next s < measured \<and> length (d_send_times s) < STREAM_MAX_IN_FLIGHT_MESSAGES"

definition publish_next :: "bool \<Rightarrow> delivery \<Rightarrow> delivery" where
  "publish_next sent s =
     (let s1 = s\<lparr>d_send_times := List.insert (d_next s) (d_send_times s)\<rparr> in
      if sent then s1\<lparr>d_next := Suc (d_next s)\<rparr> else s1\<lparr>d_publisher := PublishFailed\<rparr>)"

text \<open>A read that fails is counted; a payload that is not an index in flight ends the workload.\<close>

definition take_delivery :: "(str, str) result \<Rightarrow> duration \<Rightarrow> delivery \<Rightarrow> delivery" where
  "take_delivery received latency s =
     (case received of
        Err _ \<Rightarrow> s\<lparr>d_errors := Suc (d_errors s), d_reads := Suc (d_reads s)\<rparr>
      | Ok payload \<Rightarrow>
          (case parse_unsigned (2 ^ 64 - 1) payload of
             None \<Rightarrow> s\<lparr>d_phase := Aborted\<rparr>
           | Some idx \<Rightarrow>
               if idx \<in> set (d_send_times s)
               then s\<lparr>d_send_times := removeAll idx (d_send_times s), d_latencies := d_latencies s @ [latency],
                      d_reads := Suc (d_reads s)\<rparr>
               else s\<lparr>d_phase := Aborted\<rparr>))"

inductive delivery_step :: "nat \<Rightarrow> delivery \<Rightarrow> delivery \<Rightarrow> bool" for measured where
  publish: "d_phase s = Reading \<Longrightarrow> can_publish measured s \<Longrightarrow> delivery_step measured s (publish_next sent s)"
| read: "d_phase s = Reading \<Longrightarrow> d_reads s < measured \<Longrightarrow> delivery_step measured s (take_delivery received latency s)"
| join_ok: "d_phase s = Reading \<Longrightarrow> d_reads s = measured \<Longrightarrow> d_publisher s = Publishing \<Longrightarrow> d_next s = measured \<Longrightarrow>
    delivery_step measured s (s\<lparr>d_phase := Delivered\<rparr>)"
| join_failed: "d_phase s = Reading \<Longrightarrow> d_reads s = measured \<Longrightarrow> d_publisher s = PublishFailed \<Longrightarrow>
    delivery_step measured s (s\<lparr>d_phase := Aborted\<rparr>)"

inductive_cases delivery_stepE: "delivery_step measured s t"

definition delivery_start :: "delivery \<Rightarrow> bool" where
  "delivery_start s \<longleftrightarrow>
     s = \<lparr>d_publisher = Publishing, d_next = 0, d_send_times = [], d_reads = 0, d_latencies = [], d_errors = 0,
          d_phase = Reading\<rparr>"

text \<open>
  Before the measurement, warm-up messages are published and read back one by one, whatever is read;
  the first failure ends the workload.
\<close>

fun warm_up :: "nat \<Rightarrow> (bool \<times> (str, str) result) list \<Rightarrow> (unit, str) result option" where
  "warm_up 0 rounds = Some (Ok ())"
| "warm_up (Suc n) [] = None"
| "warm_up (Suc n) ((published, received) # rounds) =
     (if \<not> published then Some (Err ''failed to publish Redis message'')
      else case received of Err e \<Rightarrow> Some (Err e) | Ok _ \<Rightarrow> warm_up n rounds)"

text \<open>
  The workload, from the result of subscribing, of the wait and of the warm-up, and from the state in
  which the measurement is: without a result while it is still reading. The text of an error of the
  measurement is not modelled.
\<close>

definition delivery_workload ::
  "(unit, str) result \<Rightarrow> (unit, str) result option \<Rightarrow> (unit, str) result option \<Rightarrow> nat \<Rightarrow> duration \<Rightarrow> delivery \<Rightarrow>
   (metric_summary, str) result outcome option" where
  "delivery_workload subscribed ready warm measured elapsed s =
     (case subscribed of
        Err e \<Rightarrow> Some (Return (Err e))
      | Ok _ \<Rightarrow>
          (case ready of
             None \<Rightarrow> None
           | Some (Err e) \<Rightarrow> Some (Return (Err e))
           | Some (Ok _) \<Rightarrow>
               (case warm of
                  None \<Rightarrow> None
                | Some (Err e) \<Rightarrow> Some (Return (Err e))
                | Some (Ok _) \<Rightarrow>
                    (case d_phase s of
                       Reading \<Rightarrow> None
                     | Aborted \<Rightarrow> Some (Return (Err ''delivery failed''))
                     | Delivered \<Rightarrow>
                         Some (bind_outcome (summarize_metrics (d_latencies s) elapsed measured (d_errors s))
                           (\<lambda>m. Return (Ok m)))))))"

definition sse_delivery_workload ::
  "str \<Rightarrow> streaming_suite_config \<Rightarrow> (unit, str) result \<Rightarrow> (bool \<times> (str, str) result) list \<Rightarrow>
   (bool \<times> (str, str) result) list \<Rightarrow> duration \<Rightarrow> delivery \<Rightarrow> (metric_summary, str) result outcome option" where
  "sse_delivery_workload variant_name suite subscribed attempts rounds elapsed s =
     delivery_workload subscribed
       (wait_for_sse_subscription_ready (''redis-web-bench:'' @ variant_name @ '':sse-stream'') attempts)
       (warm_up (warmup_messages suite) rounds) (measured_messages suite) elapsed s"

definition grpc_delivery_workload ::
  "str \<Rightarrow> streaming_suite_config \<Rightarrow> (unit, str) result \<Rightarrow> (bool \<times> (str, str) result) list \<Rightarrow>
   (bool \<times> (str, str) result) list \<Rightarrow> duration \<Rightarrow> delivery \<Rightarrow> (metric_summary, str) result outcome option" where
  "grpc_delivery_workload variant_name suite subscribed attempts rounds elapsed s =
     delivery_workload subscribed
       (wait_for_grpc_subscription_ready (''redis-web-bench:'' @ variant_name @ '':grpc-stream'') attempts)
       (warm_up (warmup_messages suite) rounds) (measured_messages suite) elapsed s"

section \<open>Server-sent events\<close>

text \<open>The field that carries a payload, as it is sent; an event ends with an empty line after it.\<close>

definition sse_data :: "str \<Rightarrow> bytes" where
  "sse_data payload = ''data: '' @ payload @ [CHR 0x0A]"

definition plain_payload :: "str \<Rightarrow> bool" where
  "plain_payload a \<longleftrightarrow> a \<noteq> [] \<and> solid_byte (hd a) \<and> CHR 0x0A \<notin> set a \<and> CHR 0x0D \<notin> set a"

lemma trim_start_space: "trim_start (CHR 0x20 # s) = trim_start s"
  unfolding trim_start_def by (subst strip_ws.simps) (simp add: ws_chars_def)

lemma sse_scan_data:
  assumes "plain_payload a"
  shows "sse_scan (sse_data a @ rest) = (Some a, rest)"
proof -
  obtain x xs where a: "a = x # xs" "solid_byte x"
    using assms by (cases a) (auto simp: plain_payload_def)
  have "split_once (CHR 0x0A) ((''data: '' @ a) @ CHR 0x0A # rest) = Some (''data: '' @ a, rest)"
    using assms by (intro split_once_append) (auto simp: plain_payload_def)
  moreover have "strip_cr (''data: '' @ a) = ''data: '' @ a"
    using assms last_in_set [of a] by (cases "last a = CHR 0x0D") (simp_all add: plain_payload_def)
  moreover have "trim_start (CHR 0x20 # a) = a"
    by (simp add: trim_start_space trim_start_solid a)
  ultimately show ?thesis
    using a by (subst sse_scan.simps) (simp add: sse_data_def strip_prefix_def)
qed

lemma sse_scan_wait: "CHR 0x0A \<notin> set s \<Longrightarrow> sse_scan s = (None, s)"
  using split_once_None [of "CHR 0x0A" s] by (subst sse_scan.simps) simp

lemma read_sse_quiet_chunks:
  assumes "list_all utf8_valid cs" and "CHR 0x0A \<notin> set (buffer @ concat cs)"
  shows "read_next_sse_payload buffer (map ChunkData cs @ polls) =
    read_next_sse_payload (buffer @ concat cs) polls"
  using assms by (induction cs arbitrary: buffer) (simp_all add: sse_scan_wait)

text \<open>An event that arrives in any number of chunks is read, but whatever follows it in its last chunk,
  the next events included, is thrown away with the reader's buffer.\<close>

theorem sse_reader_drops_rest:
  assumes "plain_payload a" and "list_all utf8_valid cs" and "utf8_valid (c @ rest)" and "c \<noteq> []"
    and "concat cs @ c = sse_data a"
  shows "read_next_sse_payload [] (map ChunkData cs @ ChunkData (c @ rest) # polls) = (Some (Ok a), polls)"
proof -
  have "concat cs @ butlast c = ''data: '' @ a"
    using arg_cong [OF assms(5), of butlast] assms(4) by (simp add: sse_data_def butlast_append)
  then have "set (concat cs) \<subseteq> set (''data: '' @ a)"
    by (metis Un_upper1 set_append)
  then have "CHR 0x0A \<notin> set (concat cs)"
    using assms(1) by (auto simp: plain_payload_def)
  then have "read_next_sse_payload [] (map ChunkData cs @ ChunkData (c @ rest) # polls) =
      read_next_sse_payload (concat cs) (ChunkData (c @ rest) # polls)"
    using read_sse_quiet_chunks [OF assms(2), of "[]"] by simp
  also have "sse_scan (concat cs @ c @ rest) = (Some a, rest)"
    using sse_scan_data [OF assms(1)] assms(5) by (metis append_assoc)
  then have "read_next_sse_payload (concat cs) (ChunkData (c @ rest) # polls) = (Some (Ok a), polls)"
    using assms(3) by simp
  finally show ?thesis .
qed

theorem sse_reader_drops_rest_witness:
  "read_next_sse_payload [] [ChunkData ''data'', ChunkData ('': 1'' @ [CHR 0x0A] @ sse_data ''2''), ChunkTimeout] =
     (Some (Ok ''1''), [ChunkTimeout])"
  using sse_reader_drops_rest [of "''1''" "[''data'']" "'': 1'' @ [CHR 0x0A]" "sse_data ''2''" "[ChunkTimeout]"]
  by (simp add: plain_payload_def sse_data_def solid_byte_def utf8_valid_ascii)

section \<open>The window of the delivery workload\<close>

definition delivery_inv :: "nat \<Rightarrow> delivery \<Rightarrow> bool" where
  "delivery_inv measured s \<longleftrightarrow>
     distinct (d_send_times s) \<and> set (d_send_times s) \<subseteq> {..d_next s} \<and>
     (d_publisher s = Publishing \<longrightarrow> set (d_send_times s) \<subseteq> {..<d_next s} \<and>
        d_next s = length (d_send_times s) + length (d_latencies s)) \<and>
     length (d_send_times s) \<le> STREAM_MAX_IN_FLIGHT_MESSAGES \<and>
     d_next s \<le> measured \<and> d_reads s = length (d_latencies s) + d_errors s \<and> d_reads s \<le> measured \<and>
     (d_phase s = Delivered \<longrightarrow> d_reads s = measured)"

lemma publish_next_inv:
  assumes "delivery_inv measured s" and "can_publish measured s"
  shows "delivery_inv measured (publish_next sent s)"
proof -
  have "d_next s \<notin> set (d_send_times s)"
    using assms by (auto simp: delivery_inv_def can_publish_def)
  with assms show ?thesis
    by (auto simp: delivery_inv_def can_publish_def publish_next_def Let_def)
qed

lemma length_removeAll_distinct: "distinct xs \<Longrightarrow> x \<in> set xs \<Longrightarrow> length xs = Suc (length (removeAll x xs))"
  using length_pos_if_in_set [of x xs]
  by (simp add: length_remove1 flip: distinct_remove1_removeAll)

lemma take_delivery_inv:
  assumes "delivery_inv measured s" and "d_reads s < measured"
  shows "delivery_inv measured (take_delivery received latency s)"
proof (cases received)
  case (Inl e)
  with assms show ?thesis by (auto simp: delivery_inv_def take_delivery_def)
next
  case (Inr payload)
  show ?thesis
  proof (cases "parse_unsigned (2 ^ 64 - 1) payload")
    case None
    with assms Inr show ?thesis by (auto simp: delivery_inv_def take_delivery_def)
  next
    case (Some idx)
    with assms Inr length_removeAll_distinct [of "d_send_times s" idx] show ?thesis
      by (auto simp: delivery_inv_def take_delivery_def distinct_removeAll)
  qed
qed

interpretation delivering: invariant_system delivery_start "delivery_step measured" "delivery_inv measured"
  for measured
proof
  show "delivery_inv measured s" if "delivery_start s" for s
    using that by (simp add: delivery_start_def delivery_inv_def)
  show "delivery_inv measured t" if "delivery_inv measured s" "delivery_step measured s t" for s t
    using that(2,1)
    by (elim delivery_stepE) (auto simp: publish_next_inv take_delivery_inv, auto simp: delivery_inv_def)
qed

text \<open>The workload waits for ever: all reads are used up and the publisher waits for a place in the window.\<close>

definition window_stuck :: "nat \<Rightarrow> delivery \<Rightarrow> bool" where
  "window_stuck measured s \<longleftrightarrow>
     d_phase s = Reading \<and> d_reads s = measured \<and> d_publisher s = Publishing \<and> d_next s < measured \<and>
     length (d_send_times s) = STREAM_MAX_IN_FLIGHT_MESSAGES"

lemma delivery_no_step:
  assumes "delivery_inv measured s"
  shows "(\<nexists>t. delivery_step measured s t) \<longleftrightarrow> d_phase s \<noteq> Reading \<or> window_stuck measured s"
proof
  assume stuck: "\<nexists>t. delivery_step measured s t"
  show "d_phase s \<noteq> Reading \<or> window_stuck measured s"
  proof (cases "d_phase s = Reading")
    case True
    have "d_reads s = measured"
      using stuck True delivery_step.read assms by (metis delivery_inv_def le_neq_implies_less)
    moreover have "d_publisher s = Publishing"
      using stuck True calculation delivery_step.join_failed by (metis publisher.exhaust)
    moreover have "d_next s < measured"
      using stuck True calculation delivery_step.join_ok assms by (metis delivery_inv_def le_neq_implies_less)
    moreover have "\<not> can_publish measured s"
      using stuck True delivery_step.publish by blast
    ultimately show ?thesis
      using assms True by (auto simp: window_stuck_def can_publish_def delivery_inv_def)
  qed simp
next
  assume "d_phase s \<noteq> Reading \<or> window_stuck measured s"
  then show "\<nexists>t. delivery_step measured s t"
    by (auto elim!: delivery_stepE simp: window_stuck_def can_publish_def)
qed

lemma published_window:
  assumes "n \<le> STREAM_MAX_IN_FLIGHT_MESSAGES" and "n \<le> measured"
  shows "reachable delivery_start (delivery_step measured)
    \<lparr>d_publisher = Publishing, d_next = n, d_send_times = rev [0..<n], d_reads = 0, d_latencies = [], d_errors = 0,
     d_phase = Reading\<rparr>"
  using assms
proof (induction n)
  case 0
  show ?case by (rule reach_start) (simp add: delivery_start_def)
next
  case (Suc n)
  let ?s = "\<lparr>d_publisher = Publishing, d_next = n, d_send_times = rev [0..<n], d_reads = 0, d_latencies = [],
    d_errors = 0, d_phase = Reading\<rparr>"
  have "delivery_step measured ?s (publish_next True ?s)"
    using Suc.prems by (intro delivery_step.publish) (simp_all add: can_publish_def)
  moreover have "publish_next True ?s = ?s\<lparr>d_next := Suc n, d_send_times := rev [0..<Suc n]\<rparr>"
    by (simp add: publish_next_def)
  ultimately show ?case
    using Suc reach_step [of delivery_start "delivery_step measured" ?s] by simp
qed

lemma all_reads_fail:
  assumes "n = STREAM_MAX_IN_FLIGHT_MESSAGES" and "n \<le> measured" and "k \<le> measured"
  shows "reachable delivery_start (delivery_step measured)
    \<lparr>d_publisher = Publishing, d_next = n, d_send_times = rev [0..<n], d_reads = k, d_latencies = [], d_errors = k,
     d_phase = Reading\<rparr>"
  using assms(3)
proof (induction k)
  case 0
  show ?case using published_window [of n measured] assms by simp
next
  case (Suc k)
  let ?s = "\<lparr>d_publisher = Publishing, d_next = n, d_send_times = rev [0..<n], d_reads = k, d_latencies = [],
    d_errors = k, d_phase = Reading\<rparr>"
  have "delivery_step measured ?s (take_delivery (Err []) 0 ?s)"
    using Suc.prems by (intro delivery_step.read) simp_all
  then show ?case
    using Suc reach_step [of delivery_start "delivery_step measured" ?s] by (simp add: take_delivery_def)
qed

text \<open>C38. At most the allowed number of messages is in flight, and the delivery workload can only hang after
  more reads have failed than the window has places; but then it does: when all the messages of a full window
  are lost, the reader waits for a publisher that waits for the reader.\<close>

theorem delivery_window:
  "(\<forall>s. reachable delivery_start (delivery_step measured) s \<longrightarrow>
      length (d_send_times s) \<le> STREAM_MAX_IN_FLIGHT_MESSAGES \<and>
      (d_phase s = Reading \<and> (\<nexists>t. delivery_step measured s t) \<longrightarrow> STREAM_MAX_IN_FLIGHT_MESSAGES < d_errors s)) \<and>
   (STREAM_MAX_IN_FLIGHT_MESSAGES < measured \<longrightarrow>
      (\<exists>s. reachable delivery_start (delivery_step measured) s \<and> d_phase s = Reading \<and>
        (\<nexists>t. delivery_step measured s t)))"
proof (intro conjI allI impI)
  fix s assume "reachable delivery_start (delivery_step measured) s"
  then have inv: "delivery_inv measured s"
    by (rule delivering.reachable_inv)
  then show "length (d_send_times s) \<le> STREAM_MAX_IN_FLIGHT_MESSAGES"
    by (simp add: delivery_inv_def)
  show "STREAM_MAX_IN_FLIGHT_MESSAGES < d_errors s"
    if "d_phase s = Reading \<and> (\<nexists>t. delivery_step measured s t)"
    using that delivery_no_step [OF inv] inv by (auto simp: window_stuck_def delivery_inv_def)
next
  assume "STREAM_MAX_IN_FLIGHT_MESSAGES < measured"
  then obtain s where "reachable delivery_start (delivery_step measured) s" "window_stuck measured s"
    using all_reads_fail [OF refl _ order.refl, of measured] by (fastforce simp: window_stuck_def)
  then show "\<exists>s. reachable delivery_start (delivery_step measured) s \<and> d_phase s = Reading \<and>
      (\<nexists>t. delivery_step measured s t)"
    using delivery_no_step delivering.reachable_inv window_stuck_def by blast
qed

theorem delivery_window_witness:
  "\<exists>s. reachable delivery_start (delivery_step 5000) s \<and> d_phase s = Reading \<and> (\<nexists>t. delivery_step 5000 s t)"
  using delivery_window [of 5000] by (simp add: STREAM_MAX_IN_FLIGHT_MESSAGES_def)

text \<open>
  The summary of a delivery workload that ends accounts for every message: it was received and its
  latency measured, or its read failed.
\<close>

theorem delivery_accounts_for_messages:
  assumes "reachable delivery_start (delivery_step (measured_messages suite)) s" and "d_phase s = Delivered"
    and "measured_messages suite \<le> 2 ^ 53"
    and "wait_for_sse_subscription_ready (''redis-web-bench:'' @ variant_name @ '':sse-stream'') attempts = Some (Ok ())"
    and "warm_up (warmup_messages suite) rounds = Some (Ok ())"
  shows "\<exists>m. sse_delivery_workload variant_name suite (Ok ()) attempts rounds elapsed s = Some (Return (Ok m)) \<and>
    attempted_ops m = measured_messages suite \<and> success_count m = length (d_latencies s) \<and>
    success_count m + error_count m = attempted_ops m"
proof -
  have "delivery_inv (measured_messages suite) s"
    using assms(1) by (rule delivering.reachable_inv)
  then have sum: "length (d_latencies s) + d_errors s = measured_messages suite"
    using assms(2) by (simp add: delivery_inv_def)
  then have "length (d_latencies s) \<le> 2 ^ 53"
    using assms(3) by linarith
  with sum assms(2,4,5) summarize_metrics_counts [of "d_latencies s" elapsed "measured_messages suite" "d_errors s"]
  show ?thesis
    by (auto simp: sse_delivery_workload_def delivery_workload_def)
qed

end
