(* ===== verification/Bench_Spec.thy ===== *)
theory Bench_Spec
  imports Config Externals
begin

text \<open>
  \<^verbatim>\<open>crates/redis-web-bench/src/spec.rs\<close>: the benchmark runner applies each named variant of a spec
  to a base configuration by merging JSON documents, and reports how the effective configuration
  differs from the baseline. Documents are compared and merged as trees; the properties speak of
  the values at the paths of these trees.
\<close>

section \<open>Documents as trees\<close>

text \<open>Every object of the document, at any depth, is an ordered map.\<close>

fun json_wf :: "json \<Rightarrow> bool" where
  "json_wf (JArray xs) \<longleftrightarrow> (\<forall>x \<in> set xs. json_wf x)"
| "json_wf (JObject m) \<longleftrightarrow> btree_ok m \<and> (\<forall>kv \<in> set m. json_wf (snd kv))"
| "json_wf _ \<longleftrightarrow> True"

fun json_at :: "json \<Rightarrow> str list \<Rightarrow> json option" where
  "json_at j [] = Some j"
| "json_at (JObject m) (k # p) = (case map_of m k of None \<Rightarrow> None | Some v \<Rightarrow> json_at v p)"
| "json_at _ (k # p) = None"

fun is_object :: "json \<Rightarrow> bool" where
  "is_object (JObject m) \<longleftrightarrow> True"
| "is_object _ \<longleftrightarrow> False"

lemma is_object_iff: "is_object j \<longleftrightarrow> (\<exists>m. j = JObject m)"
  by (cases j) auto

lemma json_wf_entry: "json_wf (JObject m) \<Longrightarrow> map_of m k = Some v \<Longrightarrow> json_wf v"
  using map_of_SomeD by fastforce

lemma json_wf_insert [wf_intros]:
  assumes "json_wf (JObject m)" and "json_wf v"
  shows "json_wf (JObject (btree_insert k v m))"
proof -
  have ok: "btree_ok (btree_insert k v m)"
    using assms(1) by (auto intro: btree_ok_insert)
  have "json_wf w" if "(k', w) \<in> set (btree_insert k v m)" for k' w
  proof -
    have "map_of (btree_insert k v m) k' = Some w"
      using that btree_ok_distinct [OF ok] by simp
    then show ?thesis
      using assms json_wf_entry by (auto simp: map_of_btree_insert split: if_splits)
  qed
  with ok show ?thesis by auto
qed

lemma json_at_not_object: "\<not> is_object j \<Longrightarrow> json_at j p = Some v \<Longrightarrow> p = [] \<and> v = j"
  by (cases j; cases p) auto

lemma size_entry:
  fixes m :: "(str \<times> json) list"
  shows "map_of m k = Some v \<Longrightarrow> size v < size (JObject m)"
  by (induction m) (auto split: if_splits)

section \<open>Merging\<close>

text \<open>
  \<^verbatim>\<open>merge_json\<close> writes the overrides into the base; it never fails. The loop over the entries of the
  overrides updates the base map in place.
\<close>

fun merge_json :: "json \<Rightarrow> json \<Rightarrow> json"
  and merge_entries :: "(str \<times> json) list \<Rightarrow> (str \<times> json) list \<Rightarrow> (str \<times> json) list" where
  "merge_json base JNull = base"
| "merge_json (JObject base_map) (JObject override_map) = JObject (merge_entries base_map override_map)"
| "merge_json base v = v"
| "merge_entries base_map [] = base_map"
| "merge_entries base_map ((k, v) # override_map) =
     merge_entries
       (case map_of base_map k of
          Some base_value \<Rightarrow> btree_insert k (merge_json base_value v) base_map
        | None \<Rightarrow> btree_insert k v base_map)
       override_map"

section \<open>Differences\<close>

record config_diff =
  diff_key :: str
  diff_before :: str
  diff_after :: str

definition display_json_value :: "externals \<Rightarrow> json \<Rightarrow> str" where
  "display_json_value X v = (case v of JString t \<Rightarrow> t | _ \<Rightarrow> json_to_string X v)"

definition next_path :: "str \<Rightarrow> str \<Rightarrow> str" where
  "next_path path k = (if path = [] then k else path @ ''.'' @ k)"

text \<open>\<^verbatim>\<open>BTreeSet\<close> of the keys of both maps: each key once, in order.\<close>

definition all_keys :: "(str \<times> json) list \<Rightarrow> (str \<times> json) list \<Rightarrow> str list" where
  "all_keys a b = sort (remdups (map fst a @ map fst b))"

function collect_diff_entries :: "externals \<Rightarrow> str \<Rightarrow> json \<Rightarrow> json \<Rightarrow> config_diff list" where
  "collect_diff_entries X path base variant =
     (if base = variant then []
      else case (base, variant) of
          (JObject base_map, JObject variant_map) \<Rightarrow>
            concat (map (\<lambda>k.
              (case (map_of base_map k, map_of variant_map k) of
                 (Some a, Some b) \<Rightarrow> collect_diff_entries X (next_path path k) a b
               | (Some a, None) \<Rightarrow>
                   [\<lparr>diff_key = next_path path k, diff_before = display_json_value X a, diff_after = ''<unset>''\<rparr>]
               | (None, Some b) \<Rightarrow>
                   [\<lparr>diff_key = next_path path k, diff_before = ''<unset>'', diff_after = display_json_value X b\<rparr>]
               | (None, None) \<Rightarrow> []))
              (all_keys base_map variant_map))
        | _ \<Rightarrow>
            [\<lparr>diff_key = path, diff_before = display_json_value X base,
              diff_after = display_json_value X variant\<rparr>])"
  by pat_completeness auto
termination
  by (relation "measure (\<lambda>(X, path, base, variant). size base)") (auto dest!: size_entry [OF sym])

declare collect_diff_entries.simps [simp del]

definition flatten_diff :: "externals \<Rightarrow> json \<Rightarrow> json \<Rightarrow> config_diff list" where
  "flatten_diff X base variant = collect_diff_entries X [] base variant"

section \<open>Merging, path by path\<close>

lemma map_of_merge_entries:
  "distinct (map fst om) \<Longrightarrow>
   map_of (merge_entries bm om) k =
     (case map_of om k of
        None \<Rightarrow> map_of bm k
      | Some v \<Rightarrow> Some (case map_of bm k of None \<Rightarrow> v | Some b \<Rightarrow> merge_json b v))"
proof (induction om arbitrary: bm)
  case (Cons kv om)
  obtain k' v where kv: "kv = (k', v)" by fastforce
  have "map_of om k' = None"
    using Cons.prems kv by (auto simp: map_of_eq_None_iff)
  with Cons kv show ?case
    by (auto simp: map_of_btree_insert split: option.splits)
qed simp

lemma merge_json_wf:
  "json_wf base \<Longrightarrow> json_wf v \<Longrightarrow> json_wf (merge_json base v)"
  "json_wf (JObject bm) \<Longrightarrow> json_wf (JObject om) \<Longrightarrow> json_wf (JObject (merge_entries bm om))"
proof (induction base v and bm om rule: merge_json_merge_entries.induct)
  case (5 bm k v om)
  have "json_wf v" and om: "json_wf (JObject om)"
    using "5.prems"(2) by (auto simp: btree_ok_def)
  then have "json_wf (JObject (case map_of bm k of
      Some base_value \<Rightarrow> btree_insert k (merge_json base_value v) bm | None \<Rightarrow> btree_insert k v bm))"
    using "5.prems"(1) "5.IH"(1) json_wf_entry [OF "5.prems"(1)]
    by (cases "map_of bm k") (auto intro!: json_wf_insert simp del: json_wf.simps)
  then show ?case
    using "5.IH"(2) om by simp
qed auto

lemma merge_json_leaf: "\<not> is_object base \<or> \<not> is_object v \<Longrightarrow> v \<noteq> JNull \<Longrightarrow> merge_json base v = v"
  by (cases base; cases v) auto

lemma json_wf_distinct: "json_wf (JObject m) \<Longrightarrow> distinct (map fst m)"
  by (simp add: btree_ok_distinct)

text \<open>The overrides say something about a path: they set it, or a value above it, or hold an object there.\<close>

fun touches :: "json \<Rightarrow> str list \<Rightarrow> bool" where
  "touches JNull p \<longleftrightarrow> False"
| "touches (JObject m) (k # p) \<longleftrightarrow> (case map_of m k of None \<Rightarrow> False | Some v \<Rightarrow> touches v p)"
| "touches _ p \<longleftrightarrow> True"

lemma merge_json_at_set:
  assumes "json_wf v" and "json_at v p = Some x" and "\<not> is_object x" and "x \<noteq> JNull"
  shows "json_at (merge_json base v) p = Some x"
  using assms
proof (induction p arbitrary: base v)
  case Nil
  then show ?case by (simp add: merge_json_leaf)
next
  case (Cons k p)
  then obtain om w where v: "v = JObject om" and w: "map_of om k = Some w" "json_at w p = Some x"
    by (cases v) (auto split: option.splits)
  have "json_wf w"
    using Cons.prems(1) w(1) v json_wf_entry by blast
  with Cons v w show ?case
    by (cases base) (auto simp: map_of_merge_entries json_wf_distinct btree_ok_distinct split: option.splits)
qed

lemma merge_json_at_kept:
  assumes "json_wf v" and "\<not> touches v p" and "json_at base p = Some x"
  shows "json_at (merge_json base v) p = Some x"
  using assms
proof (induction p arbitrary: base v)
  case Nil
  then show ?case by (cases v) auto
next
  case (Cons k p)
  then obtain bm b where base: "base = JObject bm" and b: "map_of bm k = Some b" "json_at b p = Some x"
    by (cases base) (auto split: option.splits)
  show ?case
  proof (cases v)
    case (JObject om)
    have "json_wf w" if "map_of om k = Some w" for w
      using that Cons.prems(1) JObject json_wf_entry by blast
    with Cons JObject base b show ?thesis
      by (cases "map_of om k") (simp_all add: map_of_merge_entries btree_ok_distinct)
  qed (use Cons in auto)
qed

lemma merge_entries_fix:
  assumes "json_wf (JObject m)" and "json_wf (JObject om)"
    and "\<And>k w. map_of om k = Some w \<Longrightarrow> \<exists>b. map_of m k = Some b \<and> merge_json b w = b"
  shows "merge_entries m om = m"
proof (rule btree_unique)
  show "map_of (merge_entries m om) = map_of m"
    using assms(2,3)
    by (fastforce simp: fun_eq_iff map_of_merge_entries btree_ok_distinct split: option.splits)
qed (use assms merge_json_wf(2) [OF assms(1,2)] in auto)

lemma merge_json_self: "json_wf v \<Longrightarrow> merge_json v v = v"
proof (induction v rule: measure_induct_rule [of size])
  case (less v)
  show ?case
  proof (cases v)
    case (JObject m)
    have "merge_json w w = w" if "map_of m k = Some w" for k w
      using less that JObject size_entry json_wf_entry by blast
    then have "merge_entries m m = m"
      using less.prems JObject by (intro merge_entries_fix) blast+
    with JObject show ?thesis by simp
  qed auto
qed

lemma merge_json_idem:
  "json_wf base \<Longrightarrow> json_wf v \<Longrightarrow> merge_json (merge_json base v) v = merge_json base v"
proof (induction v arbitrary: base rule: measure_induct_rule [of size])
  case (less v)
  show ?case
  proof (cases "is_object base \<and> is_object v")
    case True
    then obtain bm om where eqs: "base = JObject bm" "v = JObject om"
      by (auto simp: is_object_iff)
    have entries: "map_of (merge_entries bm om) k = Some (case map_of bm k of None \<Rightarrow> w | Some b \<Rightarrow> merge_json b w)"
      if "map_of om k = Some w" for k w
      using that less.prems(2) eqs by (simp add: map_of_merge_entries btree_ok_distinct)
    have "\<exists>b. map_of (merge_entries bm om) k = Some b \<and> merge_json b w = b" if w: "map_of om k = Some w" for k w
    proof (cases "map_of bm k")
      case None
      then show ?thesis
        using entries [OF w] merge_json_self json_wf_entry [OF _ w] less.prems(2) eqs by auto
    next
      case (Some b)
      then have "merge_json (merge_json b w) w = merge_json b w"
        using less w eqs size_entry json_wf_entry by blast
      with Some show ?thesis
        using entries [OF w] by simp
    qed
    then have "merge_entries (merge_entries bm om) om = merge_entries bm om"
      using merge_json_wf(2) less.prems eqs by (intro merge_entries_fix) blast+
    then show ?thesis
      by (simp add: eqs)
  next
    case False
    then show ?thesis
      using less.prems merge_json_self by (cases "v = JNull") (auto simp: merge_json_leaf)
  qed
qed

section \<open>Differences, path by path\<close>

text \<open>The name the report gives to a path, and the text it gives to what is there.\<close>

definition dotted :: "str list \<Rightarrow> str" where
  "dotted p = foldl next_path [] p"

definition shown :: "externals \<Rightarrow> json option \<Rightarrow> str" where
  "shown X v = (case v of None \<Rightarrow> ''<unset>'' | Some j \<Rightarrow> display_json_value X j)"

text \<open>
  A path is where two documents part: the values there differ and are not two objects, and above
  it both have an object.
\<close>

fun parts_at :: "json \<Rightarrow> json \<Rightarrow> str list \<Rightarrow> bool" where
  "parts_at a b [] \<longleftrightarrow> a \<noteq> b \<and> \<not> (is_object a \<and> is_object b)"
| "parts_at (JObject am) (JObject bm) (k # p) \<longleftrightarrow>
     (case (map_of am k, map_of bm k) of
        (Some a, Some b) \<Rightarrow> parts_at a b p
      | (Some a, None) \<Rightarrow> p = []
      | (None, Some b) \<Rightarrow> p = []
      | (None, None) \<Rightarrow> False)"
| "parts_at _ _ (k # p) \<longleftrightarrow> False"

lemma parts_at_not_objects: "\<not> (is_object a \<and> is_object b) \<Longrightarrow> parts_at a b p \<longleftrightarrow> p = [] \<and> a \<noteq> b"
  by (cases p; cases a; cases b) auto

lemma parts_at_same: "\<not> parts_at a a p"
proof (induction p arbitrary: a)
  case (Cons k p)
  then show ?case by (cases a) (auto split: option.splits)
qed simp

lemma set_all_keys: "set (all_keys a b) = fst ` set a \<union> fst ` set b"
  by (simp add: all_keys_def)

definition entry_at :: "externals \<Rightarrow> str \<Rightarrow> json \<Rightarrow> json \<Rightarrow> str list \<Rightarrow> config_diff" where
  "entry_at X path a b p =
     \<lparr>diff_key = foldl next_path path p, diff_before = shown X (json_at a p), diff_after = shown X (json_at b p)\<rparr>"

lemma collect_diff_entries_set:
  "set (collect_diff_entries X path a b) = {entry_at X path a b p | p. parts_at a b p}"
proof (induction X path a b rule: collect_diff_entries.induct)
  case (1 X path a b)
  show ?case
  proof (cases "is_object a \<and> is_object b \<and> a \<noteq> b")
    case True
    then obtain am bm where ab: "a = JObject am" "b = JObject bm" "a \<noteq> b"
      by (auto simp: is_object_iff)
    let ?entries = "\<lambda>k. case (map_of am k, map_of bm k) of
        (Some v, Some w) \<Rightarrow> collect_diff_entries X (next_path path k) v w
      | (Some v, None) \<Rightarrow>
          [\<lparr>diff_key = next_path path k, diff_before = display_json_value X v, diff_after = ''<unset>''\<rparr>]
      | (None, Some w) \<Rightarrow>
          [\<lparr>diff_key = next_path path k, diff_before = ''<unset>'', diff_after = display_json_value X w\<rparr>]
      | (None, None) \<Rightarrow> []"
    have IH: "set (collect_diff_entries X (next_path path k) v w) =
        {entry_at X (next_path path k) v w p | p. parts_at v w p}"
      if "map_of am k = Some v" "map_of bm k = Some w" for k v w
    proof -
      have "k \<in> set (all_keys am bm)"
        using that(1) by (force simp: set_all_keys dest: map_of_SomeD)
      with "1.IH" [OF ab(3) refl ab(1,2) _ refl that] show ?thesis by simp
    qed
    define E where "E k = set (?entries k)" for k
    have entries: "E k = {entry_at X path a b (k # p) | p. parts_at a b (k # p)}" for k
      using IH [of k] unfolding E_def
      by (cases "map_of am k"; cases "map_of bm k") (auto simp: ab entry_at_def shown_def)
    have none: "E k = {}" if "k \<notin> set (all_keys am bm)" for k
      using that map_of_eq_None_iff [of am k] map_of_eq_None_iff [of bm k]
      by (simp add: E_def set_all_keys)
    have "set (collect_diff_entries X path a b) = (\<Union>k \<in> set (all_keys am bm). E k)"
      using ab by (subst collect_diff_entries.simps) (simp add: E_def)
    also have "\<dots> = (\<Union>k. E k)"
      using none by blast
    also have "\<dots> = {entry_at X path a b p | p. parts_at a b p}"
      using True by (auto simp: entries) (metis list.exhaust parts_at.simps(1))
    finally show ?thesis .
  next
    case False
    then consider "a = b" | "a \<noteq> b" "\<not> (is_object a \<and> is_object b)" by blast
    then show ?thesis
    proof cases
      case 2
      then have "collect_diff_entries X path a b = [entry_at X path a b []]"
        by (subst collect_diff_entries.simps) (cases a; cases b; simp add: entry_at_def shown_def)
      with 2 show ?thesis
        by (simp add: parts_at_not_objects)
    qed (simp add: collect_diff_entries.simps parts_at_same)
  qed
qed

lemma parts_somewhere: "json_wf a \<Longrightarrow> json_wf b \<Longrightarrow> a \<noteq> b \<Longrightarrow> \<exists>p. parts_at a b p"
proof (induction a arbitrary: b rule: measure_induct_rule [of size])
  case (less a)
  show ?case
  proof (cases "is_object a \<and> is_object b")
    case True
    then obtain am bm where ab: "a = JObject am" "b = JObject bm"
      by (auto simp: is_object_iff)
    then have "map_of am \<noteq> map_of bm"
      using btree_unique [of am bm] less.prems by auto
    then obtain k where k: "map_of am k \<noteq> map_of bm k"
      by (auto simp: fun_eq_iff)
    show ?thesis
    proof (cases "map_of am k")
      case None
      with k ab have "parts_at a b [k]" by (auto split: option.splits)
      then show ?thesis by blast
    next
      case (Some v)
      show ?thesis
      proof (cases "map_of bm k")
        case None
        with Some ab have "parts_at a b [k]" by simp
        then show ?thesis by blast
      next
        case w: (Some w)
        obtain p where "parts_at v w p"
          using less.IH [of v w] less.prems Some w k ab size_entry json_wf_entry by (metis option.inject)
        with Some w ab have "parts_at a b (k # p)" by simp
        then show ?thesis by blast
      qed
    qed
  next
    case False
    with less.prems show ?thesis
      using parts_at_not_objects by blast
  qed
qed

section \<open>A variant of the configuration\<close>

text \<open>
  \<^verbatim>\<open>build_variant_context\<close>. Serde's derived conversions between documents and \<^verbatim>\<open>Config\<close> are
  parameters, as in the loader.
\<close>

record variant_run_context =
  vctx_name :: str
  vctx_config :: config
  vctx_diff :: "config_diff list"

definition build_variant_context ::
  "externals \<Rightarrow> (json \<Rightarrow> (config, str) result) \<Rightarrow> (config \<Rightarrow> (json, str) result) \<Rightarrow> (str \<rightharpoonup> str) \<Rightarrow>
   str \<Rightarrow> json \<Rightarrow> json \<Rightarrow> json option \<Rightarrow> (variant_run_context \<times> json, str) result" where
  "build_variant_context X deserialize serialize env name base_raw overrides baseline_value =
     (case from_value deserialize env (merge_json base_raw overrides) of
        Err e \<Rightarrow> Err (''invalid config for variant `'' @ name @ ''`'')
      | Ok c \<Rightarrow>
          (case serialize c of
             Err e \<Rightarrow> Err ''failed to serialize effective config''
           | Ok effective \<Rightarrow>
               Ok (\<lparr>vctx_name = name, vctx_config = c,
                    vctx_diff = (case baseline_value of
                        Some baseline \<Rightarrow> flatten_diff X baseline effective | None \<Rightarrow> [])\<rparr>,
                   effective)))"

section \<open>Properties\<close>

text \<open>C28. Merging keeps documents well formed, sets every path that the overrides set, keeps every
  path of the base they do not touch, and applying the same overrides again changes nothing.\<close>

theorem merge_json_correct:
  assumes "json_wf base" and "json_wf overrides"
  shows "json_wf (merge_json base overrides) \<and>
    (\<forall>p v. json_at overrides p = Some v \<and> \<not> is_object v \<and> v \<noteq> JNull \<longrightarrow>
       json_at (merge_json base overrides) p = Some v) \<and>
    (\<forall>p v. json_at base p = Some v \<and> \<not> touches overrides p \<longrightarrow>
       json_at (merge_json base overrides) p = Some v) \<and>
    merge_json (merge_json base overrides) overrides = merge_json base overrides"
  using assms merge_json_wf(1) merge_json_at_set merge_json_at_kept merge_json_idem by blast

theorem merge_json_correct_witness:
  "json_at (merge_json (JObject [(''grpc'', JObject [(''port'', JNumber 1)])])
     (JObject [(''grpc'', JObject [(''host'', JString ''h'')])])) [''grpc'', ''port''] = Some (JNumber 1)"
  using merge_json_correct [of "JObject [(''grpc'', JObject [(''port'', JNumber 1)])]"
      "JObject [(''grpc'', JObject [(''host'', JString ''h'')])]"]
  by (simp add: btree_ok_def)

text \<open>C29. The reported differences are exactly the paths where the two documents part, each with what
  is there before and after, and there are none exactly when the documents are equal.\<close>

theorem flatten_diff_exact:
  assumes "json_wf base" and "json_wf variant"
  shows "set (flatten_diff X base variant) =
      {\<lparr>diff_key = dotted p, diff_before = shown X (json_at base p), diff_after = shown X (json_at variant p)\<rparr>
       | p. parts_at base variant p} \<and>
    (flatten_diff X base variant = [] \<longleftrightarrow> base = variant)"
proof -
  have "flatten_diff X base variant = [] \<longleftrightarrow> {entry_at X [] base variant p | p. parts_at base variant p} = {}"
    by (simp add: flatten_diff_def flip: collect_diff_entries_set)
  also have "\<dots> \<longleftrightarrow> base = variant"
    using parts_somewhere [OF assms] parts_at_same by auto
  finally have "flatten_diff X base variant = [] \<longleftrightarrow> base = variant" .
  then show ?thesis
    by (simp add: flatten_diff_def collect_diff_entries_set entry_at_def dotted_def)
qed

theorem flatten_diff_exact_witness:
  "flatten_diff sample_externals (JObject [(''a'', JNumber 1)]) (JObject [(''a'', JNumber 2)]) \<noteq> []"
  using flatten_diff_exact [of "JObject [(''a'', JNumber 1)]" "JObject [(''a'', JNumber 2)]" sample_externals]
  by (simp add: btree_ok_def)

end
