(* ===== verification/Bench_Suites.thy ===== *)
theory Bench_Suites
  imports Bench_Stream Bench_Spec Handler Grpc
begin

text \<open>
  The workloads of \<^verbatim>\<open>crates/redis-web-bench/src/suites.rs\<close>: which requests each operation makes over HTTP,
  gRPC and WebSocket, the four suites, and a variant's benchmark. The last part runs the operations
  against the gateway itself, as the other theories model it.
\<close>

section \<open>Requests\<close>

datatype http_verb = HttpGet | HttpPut

text \<open>
  A request of an operation: over HTTP with its path and body, a unary gRPC call, a command sent as a
  JSON text message and answered by one message, or a command on a Redis connection of the runner's own.
\<close>

datatype bench_request =
    HttpRequest http_verb str bytes
  | GrpcRequest command_request
  | WsCommand "str list"
  | RedisCommand "bytes list"

text \<open>
  Sending a request: the new state of the world, and whether it succeeded (for HTTP, no error status).
  An operation stops at its first request that fails.
\<close>

type_synonym 's client = "'s \<Rightarrow> bench_request \<Rightarrow> 's \<times> bool"

fun send_all :: "'s client \<Rightarrow> 's \<Rightarrow> bench_request list \<Rightarrow> 's \<times> bool" where
  "send_all client s [] = (s, True)"
| "send_all client s (r # rs) =
     (case client s r of (s1, ok) \<Rightarrow> if ok then send_all client s1 rs else (s1, False))"

section \<open>Operations\<close>

definition http_ping_once :: "bench_request list" where
  "http_ping_once = [HttpRequest HttpGet ''/PING.raw'' []]"

definition http_set_get_once :: "str \<Rightarrow> str \<Rightarrow> bench_request list" where
  "http_set_get_once key payload =
     [HttpRequest HttpPut (''/SET/'' @ key) payload, HttpRequest HttpGet (''/GET/'' @ key @ ''.raw'') []]"

definition http_get_once :: "str \<Rightarrow> bench_request list" where
  "http_get_once key = [HttpRequest HttpGet (''/GET/'' @ key @ ''.raw'') []]"

definition http_mget_once :: "str list \<Rightarrow> bench_request list" where
  "http_mget_once keys = [HttpRequest HttpGet (''/MGET/'' @ intercalate ''/'' keys @ ''.raw'') []]"

definition http_hmget_once :: "str \<Rightarrow> str list \<Rightarrow> bench_request list" where
  "http_hmget_once hash_key fs =
     [HttpRequest HttpGet (''/HMGET/'' @ intercalate ''/'' (hash_key # fs) @ ''.raw'') []]"

definition grpc_execute_once :: "str \<Rightarrow> bytes list \<Rightarrow> bench_request list" where
  "grpc_execute_once cmd as = [GrpcRequest \<lparr>req_command = cmd, req_database = None, req_args = as\<rparr>]"

definition grpc_ping_once :: "bench_request list" where
  "grpc_ping_once = [GrpcRequest \<lparr>req_command = ''PING'', req_database = None, req_args = []\<rparr>]"

definition grpc_set_get_once :: "str \<Rightarrow> bytes \<Rightarrow> bench_request list" where
  "grpc_set_get_once key payload =
     [GrpcRequest \<lparr>req_command = ''SET'', req_database = None, req_args = [key, payload]\<rparr>,
      GrpcRequest \<lparr>req_command = ''GET'', req_database = None, req_args = [key]\<rparr>]"

definition grpc_get_once :: "str \<Rightarrow> bench_request list" where
  "grpc_get_once key = grpc_execute_once ''GET'' [key]"

definition grpc_mget_once :: "str list \<Rightarrow> bench_request list" where
  "grpc_mget_once keys = grpc_execute_once ''MGET'' keys"

definition grpc_hmget_once :: "str \<Rightarrow> str list \<Rightarrow> bench_request list" where
  "grpc_hmget_once hash_key fs = grpc_execute_once ''HMGET'' (hash_key # fs)"

definition publish_message :: "str \<Rightarrow> str \<Rightarrow> bench_request list" where
  "publish_message channel payload = [RedisCommand [''PUBLISH'', channel, payload]]"

datatype web_socket_payload = Ping | SetGet str

definition run_websocket_operation ::
  "str \<Rightarrow> str \<Rightarrow> nat \<Rightarrow> nat \<Rightarrow> web_socket_payload \<Rightarrow> bench_request list" where
  "run_websocket_operation variant_name label worker idx payload =
     (case payload of
        Ping \<Rightarrow> [WsCommand [''PING'']]
      | SetGet v \<Rightarrow>
          let key = ''redis-web-bench:'' @ variant_name @ '':ws:'' @ label @ '':'' @ dec worker @ '':'' @ dec idx in
          [WsCommand [''SET'', key, v], WsCommand [''GET'', key]])"

text \<open>The answer to a WebSocket command: a text or binary message that arrives in time.\<close>

datatype ws_answer = AnswerText str | AnswerBinary bytes | AnswerOther | AnswerTimeout | AnswerEnd | AnswerFailed str

fun next_websocket_text :: "ws_answer \<Rightarrow> (str, str) result" where
  "next_websocket_text (AnswerText t) = Ok t"
| "next_websocket_text (AnswerBinary b) = Ok (from_utf8_lossy b)"
| "next_websocket_text AnswerOther = Err ''unexpected websocket message''"
| "next_websocket_text AnswerTimeout = Err ''timed out waiting for websocket response''"
| "next_websocket_text AnswerEnd = Err ''websocket stream ended unexpectedly''"
| "next_websocket_text (AnswerFailed e) = Err e"

section \<open>Keys of the cache suite\<close>

definition read_heavy_hot_key :: "str \<Rightarrow> str" where
  "read_heavy_hot_key variant_name = ''redis-web-bench:'' @ variant_name @ '':cache:hot''"

definition read_heavy_distributed_key :: "str \<Rightarrow> nat \<Rightarrow> str" where
  "read_heavy_distributed_key variant_name idx =
     ''redis-web-bench:'' @ variant_name @ '':cache:distributed:'' @ dec idx"

definition read_heavy_mget_keys :: "str \<Rightarrow> nat \<Rightarrow> str list" where
  "read_heavy_mget_keys variant_name idx =
     map (\<lambda>slot. ''redis-web-bench:'' @ variant_name @ '':cache:mget:'' @ dec idx @ '':'' @ dec slot) [0, 1, 2, 3]"

definition read_heavy_hash_key :: "str \<Rightarrow> str" where
  "read_heavy_hash_key variant_name = ''redis-web-bench:'' @ variant_name @ '':cache:hash''"

definition read_heavy_hash_fields :: "str list" where
  "read_heavy_hash_fields = [''field0'', ''field1'', ''field2'', ''field3'']"

definition seed_read_heavy_cache_data :: "str \<Rightarrow> command_suite_config \<Rightarrow> bench_request list" where
  "seed_read_heavy_cache_data variant_name suite =
     [RedisCommand [''SET'', read_heavy_hot_key variant_name, ''hot-cache-value'']] @
     concat (map (\<lambda>idx.
       RedisCommand [''SET'', read_heavy_distributed_key variant_name idx, ''value-'' @ dec idx] #
       map (\<lambda>(slot, key). RedisCommand [''SET'', key, ''mget-value-'' @ dec idx @ ''-'' @ dec slot])
         (enumerate 0 (read_heavy_mget_keys variant_name idx)))
       [0..<max (warmup_ops suite) (measured_ops suite)]) @
     [RedisCommand ([''HSET'', read_heavy_hash_key variant_name] @
        concat (map (\<lambda>(idx, field). [field, ''field-value-'' @ dec idx]) (enumerate 0 read_heavy_hash_fields)))]"

section \<open>Workloads\<close>

text \<open>
  A workload: its name, the warm-up operation with its index, the measured operation with worker and
  index, and whether a worker opens a connection of its own first.
\<close>

record workload_plan =
  plan_name :: str
  plan_connects :: bool
  plan_warmup :: "nat \<Rightarrow> bench_request list"
  plan_op :: "nat \<Rightarrow> nat \<Rightarrow> bench_request list"

definition bench_key :: "str \<Rightarrow> str \<Rightarrow> str \<Rightarrow> nat \<Rightarrow> nat \<Rightarrow> str" where
  "bench_key variant_name transport label worker idx =
     ''redis-web-bench:'' @ variant_name @ '':'' @ transport @ '':'' @ label @ '':'' @ dec worker @ '':'' @ dec idx"

definition warmup_key :: "str \<Rightarrow> str \<Rightarrow> str \<Rightarrow> nat \<Rightarrow> str" where
  "warmup_key variant_name transport label idx =
     ''redis-web-bench:'' @ variant_name @ '':'' @ transport @ '':'' @ label @ '':warmup:'' @ dec idx"

definition medium_payload :: str where
  "medium_payload = replicate 4096 (CHR ''m'')"

definition run_http_common_commands :: "str \<Rightarrow> workload_plan list" where
  "run_http_common_commands variant_name =
     [\<lparr>plan_name = ''ping'', plan_connects = False, plan_warmup = (\<lambda>_. http_ping_once),
       plan_op = (\<lambda>_ _. http_ping_once)\<rparr>,
      \<lparr>plan_name = ''small_set_get'', plan_connects = False,
       plan_warmup = (\<lambda>idx. http_set_get_once (warmup_key variant_name ''http'' ''small'' idx) ''small-value''),
       plan_op = (\<lambda>worker idx. http_set_get_once (bench_key variant_name ''http'' ''small'' worker idx) ''small-value'')\<rparr>,
      \<lparr>plan_name = ''medium_set_get'', plan_connects = False,
       plan_warmup = (\<lambda>idx. http_set_get_once (warmup_key variant_name ''http'' ''medium'' idx) medium_payload),
       plan_op = (\<lambda>worker idx. http_set_get_once (bench_key variant_name ''http'' ''medium'' worker idx) medium_payload)\<rparr>]"

definition run_grpc_common_commands :: "str \<Rightarrow> workload_plan list" where
  "run_grpc_common_commands variant_name =
     [\<lparr>plan_name = ''ping'', plan_connects = True, plan_warmup = (\<lambda>_. grpc_ping_once),
       plan_op = (\<lambda>_ _. grpc_ping_once)\<rparr>,
      \<lparr>plan_name = ''small_set_get'', plan_connects = True,
       plan_warmup = (\<lambda>idx. grpc_set_get_once (warmup_key variant_name ''grpc'' ''small'' idx) ''small-value''),
       plan_op = (\<lambda>worker idx. grpc_set_get_once (bench_key variant_name ''grpc'' ''small'' worker idx) ''small-value'')\<rparr>,
      \<lparr>plan_name = ''medium_set_get'', plan_connects = True,
       plan_warmup = (\<lambda>idx. grpc_set_get_once (warmup_key variant_name ''grpc'' ''medium'' idx) medium_payload),
       plan_op = (\<lambda>worker idx. grpc_set_get_once (bench_key variant_name ''grpc'' ''medium'' worker idx) medium_payload)\<rparr>]"

definition run_http_read_heavy_cache :: "str \<Rightarrow> workload_plan list" where
  "run_http_read_heavy_cache variant_name =
     [\<lparr>plan_name = ''get_hot_key'', plan_connects = False,
       plan_warmup = (\<lambda>_. http_get_once (read_heavy_hot_key variant_name)),
       plan_op = (\<lambda>_ _. http_get_once (read_heavy_hot_key variant_name))\<rparr>,
      \<lparr>plan_name = ''get_distributed_key'', plan_connects = False,
       plan_warmup = (\<lambda>idx. http_get_once (read_heavy_distributed_key variant_name idx)),
       plan_op = (\<lambda>_ idx. http_get_once (read_heavy_distributed_key variant_name idx))\<rparr>,
      \<lparr>plan_name = ''mget_4'', plan_connects = False,
       plan_warmup = (\<lambda>idx. http_mget_once (read_heavy_mget_keys variant_name idx)),
       plan_op = (\<lambda>_ idx. http_mget_once (read_heavy_mget_keys variant_name idx))\<rparr>,
      \<lparr>plan_name = ''hmget_4_fields'', plan_connects = False,
       plan_warmup = (\<lambda>_. http_hmget_once (read_heavy_hash_key variant_name) read_heavy_hash_fields),
       plan_op = (\<lambda>_ _. http_hmget_once (read_heavy_hash_key variant_name) read_heavy_hash_fields)\<rparr>]"

definition run_grpc_read_heavy_cache :: "str \<Rightarrow> workload_plan list" where
  "run_grpc_read_heavy_cache variant_name =
     [\<lparr>plan_name = ''get_hot_key'', plan_connects = True,
       plan_warmup = (\<lambda>_. grpc_get_once (read_heavy_hot_key variant_name)),
       plan_op = (\<lambda>_ _. grpc_get_once (read_heavy_hot_key variant_name))\<rparr>,
      \<lparr>plan_name = ''get_distributed_key'', plan_connects = True,
       plan_warmup = (\<lambda>idx. grpc_get_once (read_heavy_distributed_key variant_name idx)),
       plan_op = (\<lambda>_ idx. grpc_get_once (read_heavy_distributed_key variant_name idx))\<rparr>,
      \<lparr>plan_name = ''mget_4'', plan_connects = True,
       plan_warmup = (\<lambda>idx. grpc_mget_once (read_heavy_mget_keys variant_name idx)),
       plan_op = (\<lambda>_ idx. grpc_mget_once (read_heavy_mget_keys variant_name idx))\<rparr>,
      \<lparr>plan_name = ''hmget_4_fields'', plan_connects = True,
       plan_warmup = (\<lambda>_. grpc_hmget_once (read_heavy_hash_key variant_name) read_heavy_hash_fields),
       plan_op = (\<lambda>_ _. grpc_hmget_once (read_heavy_hash_key variant_name) read_heavy_hash_fields)\<rparr>]"

text \<open>The warm-up of a WebSocket workload opens a connection for every operation, as worker 0.\<close>

definition websocket_roundtrip_workload :: "str \<Rightarrow> str \<Rightarrow> web_socket_payload \<Rightarrow> workload_plan" where
  "websocket_roundtrip_workload variant_name label payload =
     \<lparr>plan_name = label, plan_connects = True,
      plan_warmup = (\<lambda>idx. run_websocket_operation variant_name label 0 idx payload),
      plan_op = (\<lambda>worker idx. run_websocket_operation variant_name label worker idx payload)\<rparr>"

definition websocket_workloads :: "str \<Rightarrow> workload_plan list" where
  "websocket_workloads variant_name =
     [websocket_roundtrip_workload variant_name ''ping'' Ping,
      websocket_roundtrip_workload variant_name ''small_set_get'' (SetGet ''small-value''),
      websocket_roundtrip_workload variant_name ''medium_set_get'' (SetGet medium_payload)]"

text \<open>
  Running workloads one after the other: the warm-up operations in order, the first failure ending the
  benchmark, then the measurement, whose run is a parameter.
\<close>

type_synonym 's measure = "workload_plan \<Rightarrow> 's \<Rightarrow> 's \<times> metric_summary option"

fun run_workloads ::
  "'s client \<Rightarrow> 's measure \<Rightarrow> nat \<Rightarrow> workload_plan list \<Rightarrow> 's \<Rightarrow> 's \<times> workload_result list option" where
  "run_workloads client measure_run warmups [] s = (s, Some [])"
| "run_workloads client measure_run warmups (p # ps) s =
     (case send_all client s (concat (map (plan_warmup p) [0..<warmups])) of
        (s1, False) \<Rightarrow> (s1, None)
      | (s1, True) \<Rightarrow>
          (case measure_run p s1 of
             (s2, None) \<Rightarrow> (s2, None)
           | (s2, Some m) \<Rightarrow>
               (case run_workloads client measure_run warmups ps s2 of
                  (s3, None) \<Rightarrow> (s3, None)
                | (s3, Some rs) \<Rightarrow> (s3, Some (completed_workload (plan_name p) m # rs)))))"

section \<open>Suites\<close>

definition completed_suite :: "str \<Rightarrow> 's \<times> workload_result list option \<Rightarrow> 's \<times> suite_result option" where
  "completed_suite name res =
     (case res of (s, rs) \<Rightarrow>
        (s, map_option (\<lambda>ws. \<lparr>suite_name = name, suite_state = Completed, suite_workloads = ws\<rparr>) rs))"

definition run_common_commands_suite ::
  "'s client \<Rightarrow> 's measure \<Rightarrow> str \<Rightarrow> config \<Rightarrow> command_suite_config \<Rightarrow> 's \<Rightarrow> 's \<times> suite_result option" where
  "run_common_commands_suite client measure_run variant_name c suite s =
     completed_suite ''common_commands'' (run_workloads client measure_run (warmup_ops suite)
       (case transport_mode c of
          Rest \<Rightarrow> run_http_common_commands variant_name
        | Grpc \<Rightarrow> run_grpc_common_commands variant_name) s)"

definition run_read_heavy_cache_suite ::
  "'s client \<Rightarrow> 's measure \<Rightarrow> str \<Rightarrow> config \<Rightarrow> command_suite_config \<Rightarrow> 's \<Rightarrow> 's \<times> suite_result option" where
  "run_read_heavy_cache_suite client measure_run variant_name c suite s =
     (case send_all client s (seed_read_heavy_cache_data variant_name suite) of
        (s1, False) \<Rightarrow> (s1, None)
      | (s1, True) \<Rightarrow>
          completed_suite ''read_heavy_cache'' (run_workloads client measure_run (warmup_ops suite)
            (case transport_mode c of
               Rest \<Rightarrow> run_http_read_heavy_cache variant_name
             | Grpc \<Rightarrow> run_grpc_read_heavy_cache variant_name) s1))"

definition run_websocket_commands_suite ::
  "'s client \<Rightarrow> 's measure \<Rightarrow> str \<Rightarrow> config \<Rightarrow> web_socket_suite_config \<Rightarrow> 's \<Rightarrow> 's \<times> suite_result option" where
  "run_websocket_commands_suite client measure_run variant_name c suite s =
     (if transport_mode c \<noteq> Rest \<or> \<not> websockets c
      then (s, Some (skipped_suite ''websocket_commands''
             ''requires `transport_mode = rest` and `websockets = true`''))
      else completed_suite ''websocket_commands''
             (run_workloads client measure_run (ws_warmup_ops suite) (websocket_workloads variant_name) s))"

text \<open>The streaming suite, with the results of its startup and its delivery workload.\<close>

definition run_streaming_suite :: "metric_summary option \<Rightarrow> metric_summary option \<Rightarrow> suite_result option" where
  "run_streaming_suite startup delivery_run =
     (case startup of
        None \<Rightarrow> None
      | Some m \<Rightarrow>
          (case delivery_run of
             None \<Rightarrow> None
           | Some n \<Rightarrow>
               Some \<lparr>suite_name = ''streaming_pubsub'', suite_state = Completed,
                 suite_workloads = [completed_workload ''subscribe_startup'' m, completed_workload ''delivery_stream'' n]\<rparr>))"

definition transport_mode_name :: "transport_mode \<Rightarrow> str" where
  "transport_mode_name mode = (case mode of Rest \<Rightarrow> ''rest'' | Grpc \<Rightarrow> ''grpc'')"

section \<open>The operations at the gateway\<close>

text \<open>
  The runner's clients connected to the gateway: requests come from the local host, without query
  parameters, credentials or conditional headers.
\<close>

definition bench_http_request :: "str \<Rightarrow> bytes \<Rightarrow> http_request" where
  "bench_http_request path body =
     \<lparr>uri_path = path, query_params = Map.empty, request_headers = Map.empty, request_body = body,
      client_addr = localhost\<rparr>"

text \<open>\<^verbatim>\<open>error_for_status\<close>: a status of 400 or more is an error.\<close>

definition answered :: "'b \<times> response outcome \<Rightarrow> 'b \<times> bool" where
  "answered res = (case res of (b, Return r) \<Rightarrow> (b, status r < 400) | (b, Panic) \<Rightarrow> (b, False))"

fun bench_client :: "externals \<Rightarrow> 'b app_state \<Rightarrow> 'b client" where
  "bench_client X st b (HttpRequest HttpGet path body) =
     answered (handle_get X st b (bench_http_request path body))"
| "bench_client X st b (HttpRequest HttpPut path body) =
     answered (handle_put X st b (bench_http_request path body))"
| "bench_client X st b (GrpcRequest req) =
     (case grpc_execute X st b \<lparr>remote_ip = Some localhost, md_authorization = None\<rparr> req of
        (b', Ok _) \<Rightarrow> (b', True) | (b', Err _) \<Rightarrow> (b', False))"
| "bench_client X st b _ = (b, False)"

text \<open>Path segments that need no encoding: letters, digits, and the separators of the runner's keys.\<close>

definition plain_segment :: "str \<Rightarrow> bool" where
  "plain_segment s \<longleftrightarrow> s \<noteq> [] \<and> list_all (\<lambda>c. unreserved c \<or> c \<in> {CHR '':'', CHR ''-'', CHR ''_''}) s"

lemma plain_char:
  "unreserved c \<or> c \<in> {CHR '':'', CHR ''-'', CHR ''_''} \<Longrightarrow>
     c \<noteq> CHR ''/'' \<and> c \<noteq> CHR ''.'' \<and> c \<noteq> CHR ''%'' \<and> bv c < 128"
  by (auto simp: unreserved_def ascii_defs)

lemma plain_segment_chars:
  assumes "plain_segment s"
  shows "CHR ''/'' \<notin> set s" "CHR ''.'' \<notin> set s" "CHR ''%'' \<notin> set s" "utf8_valid s" "s \<noteq> []"
  using assms plain_char by (auto simp: plain_segment_def list_all_iff intro!: utf8_valid_ascii)

lemma percent_decode_plain: "CHR ''%'' \<notin> set s \<Longrightarrow> percent_decode_bytes s = s"
  by (induction s) (auto simp: percent_decode_Cons)

lemma percent_segment_plain: "plain_segment s \<Longrightarrow> percent_decode_segment_lossy s = s"
  by (simp add: percent_decode_segment_lossy_def percent_decode_plain plain_segment_chars)

lemma map_percent_plain: "\<forall>a \<in> set as. plain_segment a \<Longrightarrow> map percent_decode_segment_lossy as = as"
  by (simp add: map_idI percent_segment_plain)

definition bench_path :: "str \<Rightarrow> str list \<Rightarrow> str" where
  "bench_path cmd as = intercalate ''/'' (cmd # as)"

lemma split_bench_path:
  "plain_segment cmd \<Longrightarrow> \<forall>a \<in> set as. plain_segment a \<Longrightarrow>
     split_on (CHR ''/'') (bench_path cmd as) = cmd # as"
  unfolding bench_path_def by (rule split_on_intercalate) (auto dest: plain_segment_chars)

lemma split_bench_path_raw:
  assumes "plain_segment cmd" and "\<forall>a \<in> set as. plain_segment a"
  shows "split_on (CHR ''/'') (bench_path cmd as @ ''.raw'') =
    butlast (cmd # as) @ [last (cmd # as) @ ''.raw'']"
proof -
  have "bench_path cmd as @ ''.raw'' = intercalate ''/'' (butlast (cmd # as) @ [last (cmd # as) @ ''.raw''])"
    using intercalate_snoc_append [of "''/''" "butlast (cmd # as)" "last (cmd # as)" "''.raw''"]
    unfolding bench_path_def by (metis append_butlast_last_id list.distinct(1))
  moreover have "\<forall>s \<in> set (butlast (cmd # as) @ [last (cmd # as) @ ''.raw'']). CHR ''/'' \<notin> set s"
    using assms plain_segment_chars(1) in_set_butlastD [of _ "cmd # as"] last_in_set [of "cmd # as"] by fastforce
  ultimately show ?thesis
    using split_on_intercalate [of "butlast (cmd # as) @ [last (cmd # as) @ ''.raw'']" "CHR ''/''"] by simp
qed

lemma raw_known: "to_ascii_lowercase ''raw'' \<in> known_extensions" "to_ascii_lowercase ''raw'' = ''raw''"
  "from_extension ''raw'' = Some Raw"
  by (simp_all add: known_extensions_def from_extension_def to_ascii_lowercase_def ascii_defs)

lemma not_decimal_prefix: "\<not> is_decimal_segment (parts ! 0) \<Longrightarrow> database_prefix d parts = Ok (d, 0)"
  by (simp add: database_prefix_def)

lemma parse_bench_raw:
  assumes "plain_segment cmd" and "\<not> is_decimal_segment cmd" and "\<forall>a \<in> set as. plain_segment a"
    and "command_path i = bench_path cmd as @ ''.raw''"
  shows "\<exists>p. parse_http_request i = Ok p \<and> output_fmt p = Raw \<and> jsonp_callback p = None \<and>
    content_type_override p = nonempty_param (params_in i) ''type'' \<and>
    command p = \<lparr>target_database = default_database_in i, command_name = cmd,
      command_args = as @ body_args (body_in i)\<rparr>"
proof -
  have ext: "split_extension (x @ ''.raw'') = (x, Some ''raw'')" for x
    using split_extension_known [OF raw_known(1)] raw_known(2) by simp
  show ?thesis
  proof (cases as rule: rev_cases)
    case Nil
    have "\<not> is_decimal_segment (cmd @ ''.raw'')"
      by (simp add: is_decimal_segment_def is_ascii_digit_def)
    with Nil show ?thesis
      using assms(1,4) split_bench_path_raw [OF assms(1,3)] ext [of cmd]
      by (simp add: parse_http_request_def Let_def not_decimal_prefix strip_request_extension_def
          percent_segment_plain raw_known(3) body_args_def)
  next
    case (snoc bs b)
    then show ?thesis
      using assms split_bench_path_raw [OF assms(1,3)] ext [of b]
      by (simp add: parse_http_request_def Let_def not_decimal_prefix strip_request_extension_def
          percent_segment_plain map_percent_plain raw_known(3) body_args_def)
  qed
qed

lemma parse_bench_plain:
  assumes "plain_segment cmd" and "\<not> is_decimal_segment cmd" and "plain_segment a"
    and "command_path i = bench_path cmd [a]"
  shows "\<exists>p. parse_http_request i = Ok p \<and> output_fmt p = Json \<and>
    content_type_override p = nonempty_param (params_in i) ''type'' \<and> extension_content_type p = None \<and>
    etag_enabled p = etag_enabled_in i \<and> jsonp_callback p = select_jsonp_callback (params_in i) \<and>
    command p = \<lparr>target_database = default_database_in i, command_name = cmd,
      command_args = a # body_args (body_in i)\<rparr>"
  using assms split_bench_path [of cmd "[a]"]
  by (simp add: parse_http_request_def Let_def not_decimal_prefix strip_request_extension_def
      split_extension_no_dot plain_segment_chars percent_segment_plain body_args_def)

lemma trim_bench_path:
  "plain_segment cmd \<Longrightarrow> trim_start_matches (CHR ''/'') (CHR ''/'' # bench_path cmd as @ e) = bench_path cmd as @ e"
  using plain_segment_chars(1,5) [of cmd]
  by (cases cmd; cases as) (auto simp: trim_start_matches_def bench_path_def)

lemma no_params: "nonempty_param Map.empty k = None" "select_jsonp_callback Map.empty = None"
  by (simp_all add: nonempty_param_def select_jsonp_callback_def)

text \<open>A raw request for an allowed command runs it and succeeds, whatever Redis answers.\<close>

lemma bench_get_raw:
  assumes "request_parser st = parse_http_request" and "plain_segment cmd" and "\<not> is_decimal_segment cmd"
    and "\<forall>a \<in> set as. plain_segment a"
  shows "bench_client X st b (HttpRequest HttpGet (CHR ''/'' # bench_path cmd as @ ''.raw'') []) =
    (if acl_check X (app_acl st) localhost cmd None
     then (fst (command_executor st b
       \<lparr>target_database = app_default_database st, command_name = cmd, command_args = as\<rparr>), True)
     else (b, False))"
proof -
  let ?i = "parse_input st (bench_path cmd as @ ''.raw'') Map.empty None"
  let ?cmd = "\<lparr>target_database = app_default_database st, command_name = cmd, command_args = as\<rparr>"
  obtain p where p: "parse_http_request ?i = Ok p" "output_fmt p = Raw" "jsonp_callback p = None"
    "content_type_override p = None" "command p = ?cmd"
    using parse_bench_raw [OF assms(2-4), of ?i] by (auto simp: parse_input_def no_params body_args_def)
  obtain b' res where e: "command_executor st b ?cmd = (b', res)" by fastforce
  have get: "handle_get X st b (bench_http_request (CHR ''/'' # bench_path cmd as @ ''.raw'') []) =
      process_request X st b (bench_path cmd as @ ''.raw'') Map.empty None localhost None Map.empty"
    by (simp add: handle_get_def handle_with_body_def bench_http_request_def trim_bench_path assms(2) header_text_def)
  show ?thesis
  proof (cases "acl_check X (app_acl st) localhost cmd None")
    case True
    then have "admitted X st (bench_path cmd as @ ''.raw'') Map.empty None localhost None p"
      using p assms(1) by (simp add: admitted_def)
    from process_request_admitted [OF this, of b b' res] e p have
      "process_request X st b (bench_path cmd as @ ''.raw'') Map.empty None localhost None Map.empty =
        (b', deliver X p None res)"
      by (simp add: header_text_def)
    moreover have "\<exists>r. deliver X p None res = Return r \<and> status r = 200"
      using p by (cases res) (simp_all add: deliver_def render_value_def render_error_def finish_response_def Let_def)
    ultimately show ?thesis
      using True e get by (auto simp: answered_def)
  next
    case False
    then have "\<nexists>q. admitted X st (bench_path cmd as @ ''.raw'') Map.empty None localhost None q"
      using p assms(1) by (auto simp: admitted_def)
    from process_request_refused [OF this, of b Map.empty] False get show ?thesis
      by (auto simp: answered_def json_value_response_def split: option.splits)
  qed
qed

text \<open>A PUT for an allowed command runs it with the body as its last argument, and succeeds when the command does.\<close>

definition ok_reply :: "'b \<times> (redis_value, command_execution_error) result \<Rightarrow> 'b \<times> bool" where
  "ok_reply res = (case res of (b, Ok _) \<Rightarrow> (b, True) | (b, Err _) \<Rightarrow> (b, False))"

lemma bench_put:
  assumes "request_parser st = parse_http_request" and "plain_segment cmd" and "\<not> is_decimal_segment cmd"
    and "plain_segment a" and "body \<noteq> []" and "acl_check X (app_acl st) localhost cmd None"
  shows "bench_client X st b (HttpRequest HttpPut (CHR ''/'' # bench_path cmd [a]) body) =
    ok_reply (command_executor st b
      \<lparr>target_database = app_default_database st, command_name = cmd, command_args = [a, body]\<rparr>)"
proof -
  let ?i = "parse_input st (bench_path cmd [a]) Map.empty (Some body)"
  let ?cmd = "\<lparr>target_database = app_default_database st, command_name = cmd, command_args = [a, body]\<rparr>"
  obtain p where p: "parse_http_request ?i = Ok p" "output_fmt p = Json" "jsonp_callback p = None"
    "content_type_override p = None" "extension_content_type p = None" "\<not> etag_enabled p" "command p = ?cmd"
    using parse_bench_plain [OF assms(2-4), of ?i] assms(5)
    by (auto simp: parse_input_def no_params body_args_def)
  obtain b' res where e: "command_executor st b ?cmd = (b', res)" by fastforce
  have "admitted X st (bench_path cmd [a]) Map.empty (Some body) localhost None p"
    using p assms(1,6) by (simp add: admitted_def)
  from process_request_admitted [OF this, of b b' res] e p have
    "process_request X st b (bench_path cmd [a]) Map.empty (Some body) localhost None Map.empty =
      (b', deliver X p None res)"
    by (simp add: header_text_def)
  moreover have "\<exists>r. deliver X p None res = Return r \<and> (status r < 400 \<longleftrightarrow> (\<exists>v. res = Ok v))"
    using p by (cases res) (auto simp: deliver_def render_value_def render_error_def finish_response_def
        error_status_def with_etag_def json_value_response_def response_defs Let_def
        split: command_execution_error.splits)
  ultimately show ?thesis
    using e trim_bench_path [OF assms(2), of "[a]" "[]"]
    by (cases res) (auto simp: handle_put_def handle_with_body_def bench_http_request_def header_text_def
        answered_def ok_reply_def)
qed

lemma bench_grpc:
  assumes "cmd \<noteq> []"
  shows "bench_client X st b (GrpcRequest \<lparr>req_command = cmd, req_database = None, req_args = as\<rparr>) =
    (if acl_check X (app_acl st) localhost cmd None
     then case command_executor st b
            \<lparr>target_database = app_default_database st, command_name = cmd, command_args = as\<rparr> of
          (b', Ok v) \<Rightarrow> (b', \<exists>q. redis_value_to_proto v = Ok q)
        | (b', Err _) \<Rightarrow> (b', False)
     else (b, False))"
proof -
  have "unat (app_default_database st) \<le> 255"
    using unsigned_less [of "app_default_database st", where 'a = nat] by simp
  with assms show ?thesis
    by (auto simp: grpc_execute_def command_from_proto_eq requested_database_def authorize_def check_auth_def
        grpc_auth_context_def authorization_header_def Let_def split: prod.splits sum.splits)
qed

lemma bench_names [simp]:
  "plain_segment ''GET''" "plain_segment ''SET''" "plain_segment ''MGET''" "plain_segment ''HMGET''"
  "plain_segment ''PING''" "\<not> is_decimal_segment ''GET''" "\<not> is_decimal_segment ''SET''"
  "\<not> is_decimal_segment ''MGET''" "\<not> is_decimal_segment ''HMGET''" "\<not> is_decimal_segment ''PING''"
  by (simp_all add: plain_segment_def unreserved_def is_decimal_segment_def ascii_defs)

lemma bench_urls:
  "''/SET/'' @ key = CHR ''/'' # bench_path ''SET'' [key]"
  "''/GET/'' @ key @ ''.raw'' = CHR ''/'' # bench_path ''GET'' [key] @ ''.raw''"
  "ks \<noteq> [] \<Longrightarrow> ''/MGET/'' @ intercalate ''/'' ks @ ''.raw'' = CHR ''/'' # bench_path ''MGET'' ks @ ''.raw''"
  "''/HMGET/'' @ intercalate ''/'' (key # fs) @ ''.raw'' = CHR ''/'' # bench_path ''HMGET'' (key # fs) @ ''.raw''"
  by (cases ks; simp add: bench_path_def)+

definition plain_char_list :: "str \<Rightarrow> bool" where
  "plain_char_list s \<longleftrightarrow> list_all (\<lambda>c. unreserved c \<or> c \<in> {CHR '':'', CHR ''-'', CHR ''_''}) s"

lemma plain_char_list [simp]:
  "plain_char_list (a @ b) \<longleftrightarrow> plain_char_list a \<and> plain_char_list b" "plain_char_list (dec n)"
  "plain_char_list ''redis-web-bench:''" "plain_char_list '':cache:hot''" "plain_char_list '':cache:distributed:''"
  "plain_char_list '':cache:mget:''" "plain_char_list '':''" "plain_char_list '':cache:hash''"
  using dec_digits [of n]
  by (auto simp: plain_char_list_def list_all_iff unreserved_def ascii_defs)

lemma plain_segment_iff: "plain_segment s \<longleftrightarrow> s \<noteq> [] \<and> plain_char_list s"
  by (simp add: plain_segment_def plain_char_list_def)

lemma cache_keys_plain:
  assumes "plain_segment variant_name"
  shows "plain_segment (read_heavy_hot_key variant_name)"
    and "plain_segment (read_heavy_distributed_key variant_name idx)"
    and "\<forall>k \<in> set (read_heavy_mget_keys variant_name idx). plain_segment k"
    and "\<forall>k \<in> set (read_heavy_hash_key variant_name # read_heavy_hash_fields). plain_segment k"
  using assms
  by (simp_all add: plain_segment_iff read_heavy_hot_key_def read_heavy_distributed_key_def read_heavy_mget_keys_def
      read_heavy_hash_key_def del: append.simps)
    (simp add: read_heavy_hash_fields_def plain_char_list_def unreserved_def ascii_defs)

text \<open>What one command on the default database does to the backend, when the ACL lets the runner use it.\<close>

definition effect :: "externals \<Rightarrow> 'b app_state \<Rightarrow> 'b \<Rightarrow> str \<Rightarrow> bytes list \<Rightarrow> 'b" where
  "effect X st b cmd as =
     (if acl_check X (app_acl st) localhost cmd None
      then fst (command_executor st b
             \<lparr>target_database = app_default_database st, command_name = cmd, command_args = as\<rparr>)
      else b)"

lemma raw_effect:
  assumes "request_parser st = parse_http_request" and "plain_segment cmd" and "\<not> is_decimal_segment cmd"
    and "\<forall>a \<in> set as. plain_segment a"
  shows "fst (send_all (bench_client X st) b [HttpRequest HttpGet (CHR ''/'' # bench_path cmd as @ ''.raw'') []]) =
    effect X st b cmd as"
  by (simp add: bench_get_raw [OF assms] effect_def del: bench_client.simps)

lemma grpc_effect: "cmd \<noteq> [] \<Longrightarrow> fst (send_all (bench_client X st) b (grpc_execute_once cmd as)) = effect X st b cmd as"
  by (simp add: grpc_execute_once_def bench_grpc effect_def del: bench_client.simps split: prod.splits sum.splits)

text \<open>Against the gateway, the runner's HTTP set-and-get operation runs SET and then GET of the key on the default
  database; it fails, without the GET, exactly when the SET fails.\<close>

theorem http_set_get_reaches_redis:
  assumes "request_parser st = parse_http_request" and "plain_segment key" and "payload \<noteq> []"
    and "acl_check X (app_acl st) localhost ''SET'' None" and "acl_check X (app_acl st) localhost ''GET'' None"
  shows "send_all (bench_client X st) b (http_set_get_once key payload) =
    (case command_executor st b \<lparr>target_database = app_default_database st, command_name = ''SET'',
            command_args = [key, payload]\<rparr> of
       (b1, Ok _) \<Rightarrow>
         (fst (command_executor st b1 \<lparr>target_database = app_default_database st, command_name = ''GET'',
            command_args = [key]\<rparr>), True)
     | (b1, Err _) \<Rightarrow> (b1, False))"
  using assms bench_get_raw [OF assms(1), of "''GET''" "[key]" X]
  by (auto simp: http_set_get_once_def bench_urls bench_put ok_reply_def
      simp del: bench_client.simps append.simps split: prod.splits sum.splits)

theorem http_set_get_reaches_redis_witness:
  "send_all (bench_client sample_externals sample_app) 0 (http_set_get_once ''k:1'' ''small-value'') = (2, True)"
  using http_set_get_reaches_redis [of sample_app "''k:1''" "''small-value''" sample_externals 0]
  by (simp add: sample_app_def acl_check_def plain_segment_def unreserved_def ascii_defs)

text \<open>C31. The cache suite compares like with like: workload by workload, the HTTP and the gRPC plan have the same name,
  and each warm-up and each measured operation has the same effect on Redis over either transport.\<close>

theorem cache_suite_same_effect:
  assumes "request_parser st = parse_http_request" and "plain_segment variant_name"
  shows "list_all2 (\<lambda>h g. plan_name h = plan_name g \<and>
      (\<forall>idx b. fst (send_all (bench_client X st) b (plan_warmup h idx)) =
         fst (send_all (bench_client X st) b (plan_warmup g idx))) \<and>
      (\<forall>worker idx b. fst (send_all (bench_client X st) b (plan_op h worker idx)) =
         fst (send_all (bench_client X st) b (plan_op g worker idx))))
    (run_http_read_heavy_cache variant_name) (run_grpc_read_heavy_cache variant_name)"
  (is "list_all2 ?same _ _")
proof -
  note keys = cache_keys_plain [OF assms(2)]
  have "fst (send_all (bench_client X st) b (http_get_once k)) = fst (send_all (bench_client X st) b (grpc_get_once k))"
    if "plain_segment k" for b k
    using that raw_effect [OF assms(1), of "''GET''" "[k]" X b]
    by (simp add: http_get_once_def grpc_get_once_def grpc_effect bench_urls del: append.simps send_all.simps)
  moreover have "fst (send_all (bench_client X st) b (http_mget_once (read_heavy_mget_keys variant_name idx))) =
      fst (send_all (bench_client X st) b (grpc_mget_once (read_heavy_mget_keys variant_name idx)))" for b idx
  proof -
    have "read_heavy_mget_keys variant_name idx \<noteq> []" by (simp add: read_heavy_mget_keys_def)
    then show ?thesis
      using raw_effect [OF assms(1) _ _ keys(3), of "''MGET''" X b idx]
      by (simp add: http_mget_once_def grpc_mget_once_def grpc_effect bench_urls(3) del: append.simps send_all.simps)
  qed
  moreover have "fst (send_all (bench_client X st) b
        (http_hmget_once (read_heavy_hash_key variant_name) read_heavy_hash_fields)) =
      fst (send_all (bench_client X st) b
        (grpc_hmget_once (read_heavy_hash_key variant_name) read_heavy_hash_fields))" for b
    using raw_effect [OF assms(1) _ _ keys(4), of "''HMGET''" X b]
    by (simp add: http_hmget_once_def grpc_hmget_once_def grpc_effect bench_urls(4) del: append.simps send_all.simps)
  ultimately show ?thesis
    using keys(1,2) by (simp add: run_http_read_heavy_cache_def run_grpc_read_heavy_cache_def del: send_all.simps)
qed

theorem cache_suite_same_effect_witness:
  "list_all2 (\<lambda>h g. plan_name h = plan_name g) (run_http_read_heavy_cache ''base'') (run_grpc_read_heavy_cache ''base'')"
  by (rule list_all2_mono [OF cache_suite_same_effect [of sample_app "''base''" sample_externals]])
    (simp_all add: sample_app_def plain_segment_def unreserved_def ascii_defs)

text \<open>A read that Redis answers with an error counts as a success over HTTP, whose raw format answers 200, and as a
  failure over gRPC.\<close>

theorem http_reads_hide_errors:
  assumes "request_parser st = parse_http_request" and "plain_segment key"
    and "acl_check X (app_acl st) localhost ''GET'' None"
    and "command_executor st b \<lparr>target_database = app_default_database st, command_name = ''GET'',
           command_args = [key]\<rparr> = (b', Err e)"
  shows "send_all (bench_client X st) b (http_get_once key) = (b', True) \<and>
    send_all (bench_client X st) b (grpc_get_once key) = (b', False)"
proof
  show "send_all (bench_client X st) b (http_get_once key) = (b', True)"
    using assms bench_get_raw [OF assms(1), of "''GET''" "[key]" X b]
    by (simp add: http_get_once_def bench_urls(2) del: bench_client.simps append.simps)
  show "send_all (bench_client X st) b (grpc_get_once key) = (b', False)"
    using assms(3,4) by (simp add: grpc_get_once_def grpc_execute_once_def bench_grpc del: bench_client.simps)
qed

definition failing_app :: "nat app_state" where
  "failing_app = sample_app\<lparr>command_executor := (\<lambda>b cmd. (Suc b, Err (ExecutionFailed ''WRONGTYPE'')))\<rparr>"

theorem http_reads_hide_errors_witness:
  "send_all (bench_client sample_externals failing_app) 0 (http_get_once ''k'') = (1, True) \<and>
   send_all (bench_client sample_externals failing_app) 0 (grpc_get_once ''k'') = (1, False)"
  using http_reads_hide_errors [of failing_app "''k''" sample_externals 0 1 "ExecutionFailed ''WRONGTYPE''"]
  by (simp add: failing_app_def sample_app_def acl_check_def plain_segment_def unreserved_def ascii_defs)

section \<open>The seeded keys\<close>

fun keys_read :: "bench_request \<Rightarrow> bytes list" where
  "keys_read (GrpcRequest req) = (if req_command req = ''HMGET'' then take 1 (req_args req) else req_args req)"
| "keys_read _ = []"

fun key_written :: "bench_request \<Rightarrow> bytes option" where
  "key_written (RedisCommand (cmd # key # vs)) = Some key"
| "key_written _ = None"

lemma seeded:
  "RedisCommand (c # k # vs) \<in> set (seed_read_heavy_cache_data v suite) \<Longrightarrow>
     k \<in> set (List.map_filter key_written (seed_read_heavy_cache_data v suite))"
  by (force simp: List.map_filter_def)

lemma seed_commands:
  "RedisCommand [''SET'', read_heavy_hot_key v, ''hot-cache-value''] \<in> set (seed_read_heavy_cache_data v suite)"
  "idx < max (warmup_ops suite) (measured_ops suite) \<Longrightarrow>
     RedisCommand [''SET'', read_heavy_distributed_key v idx, ''value-'' @ dec idx]
       \<in> set (seed_read_heavy_cache_data v suite)"
  "idx < max (warmup_ops suite) (measured_ops suite) \<Longrightarrow> slot < length (read_heavy_mget_keys v idx) \<Longrightarrow>
     RedisCommand [''SET'', read_heavy_mget_keys v idx ! slot, ''mget-value-'' @ dec idx @ ''-'' @ dec slot]
       \<in> set (seed_read_heavy_cache_data v suite)"
  "\<exists>vs. RedisCommand (''HSET'' # read_heavy_hash_key v # vs) \<in> set (seed_read_heavy_cache_data v suite)"
  unfolding seed_read_heavy_cache_data_def
  by (auto simp: image_iff in_set_enumerate_eq intro!: bexI [of _ idx] bexI [of _ "(slot, read_heavy_mget_keys v idx ! slot)"])

text \<open>Every key that a cache workload reads, warming up or measuring, has been written when the suite starts.\<close>

theorem cache_reads_are_seeded:
  assumes "p \<in> set (run_grpc_read_heavy_cache variant_name)"
    and "idx < max (warmup_ops suite) (measured_ops suite)"
    and "r \<in> set (plan_warmup p idx) \<union> set (plan_op p worker idx)" and "k \<in> set (keys_read r)"
  shows "k \<in> set (List.map_filter key_written (seed_read_heavy_cache_data variant_name suite))"
proof -
  consider "k = read_heavy_hot_key variant_name" | "k = read_heavy_distributed_key variant_name idx"
    | "k \<in> set (read_heavy_mget_keys variant_name idx)" | "k = read_heavy_hash_key variant_name"
    using assms(1,3,4) by (auto simp: run_grpc_read_heavy_cache_def grpc_get_once_def grpc_mget_once_def
        grpc_hmget_once_def grpc_execute_once_def)
  then show ?thesis
    by cases (use seed_commands assms(2) seeded in \<open>fastforce simp: in_set_conv_nth\<close>)+
qed

theorem cache_reads_are_seeded_witness:
  "read_heavy_distributed_key ''base'' 19 \<in> set (List.map_filter key_written
     (seed_read_heavy_cache_data ''base'' (read_heavy_cache smoke)))"
  by (rule cache_reads_are_seeded [where p = "run_grpc_read_heavy_cache ''base'' ! 1" and idx = 19 and worker = 0
        and r = "hd (grpc_get_once (read_heavy_distributed_key ''base'' 19))"])
    (simp_all add: run_grpc_read_heavy_cache_def smoke_def grpc_get_once_def grpc_execute_once_def)

end
