(* ===== verification/Bench_Load.thy ===== *)
theory Bench_Load
  imports Bench_Suites Pools
begin

text \<open>
  The measured part of a workload together with what it sends: the workers of \<^verbatim>\<open>suites.rs\<close>
  (theory \<open>Bench_Measure\<close>) run their operations against a server, request by request, and interleave at each
  request. The \<^verbatim>\<open>measure_*\<close> functions are instances.
\<close>

section \<open>Workers with their requests\<close>

text \<open>The measurement, the requests left of each worker's operation, and the server.\<close>

record 's load =
  ld_measurement :: measurement
  ld_todo :: "nat \<Rightarrow> bench_request list"
  ld_server :: 's

type_synonym operation = "nat \<Rightarrow> nat \<Rightarrow> bench_request list"

definition next_todo ::
  "operation \<Rightarrow> nat \<Rightarrow> worker \<Rightarrow> (nat \<Rightarrow> bench_request list) \<Rightarrow> nat \<Rightarrow> bench_request list" where
  "next_todo op w p todo = (case p of Running idx \<Rightarrow> todo(w := op w idx) | _ \<Rightarrow> todo)"

text \<open>
  A worker's own turn may start an operation. A running operation sends its next request, fails at the first
  that fails, and ends with a latency when all have been answered.
\<close>

inductive load_step :: "'s client \<Rightarrow> nat \<Rightarrow> operation \<Rightarrow> 's load \<Rightarrow> 's load \<Rightarrow> bool" for client measured op where
  own: "w < length (m_workers (ld_measurement l)) \<Longrightarrow> \<not> is_running (m_workers (ld_measurement l) ! w) \<Longrightarrow>
    worker_turn measured w outcome (ld_measurement l) = Some m \<Longrightarrow>
    load_step client measured op l
      (l\<lparr>ld_measurement := m, ld_todo := next_todo op w (m_workers m ! w) (ld_todo l)\<rparr>)"
| send: "w < length (m_workers (ld_measurement l)) \<Longrightarrow> m_workers (ld_measurement l) ! w = Running idx \<Longrightarrow>
    ld_todo l w = r # rs \<Longrightarrow> client (ld_server l) r = (s', True) \<Longrightarrow>
    load_step client measured op l (l\<lparr>ld_server := s', ld_todo := (ld_todo l)(w := rs)\<rparr>)"
| fail: "w < length (m_workers (ld_measurement l)) \<Longrightarrow> m_workers (ld_measurement l) ! w = Running idx \<Longrightarrow>
    ld_todo l w = r # rs \<Longrightarrow> client (ld_server l) r = (s', False) \<Longrightarrow>
    worker_turn measured w None (ld_measurement l) = Some m \<Longrightarrow>
    load_step client measured op l (l\<lparr>ld_measurement := m, ld_server := s', ld_todo := (ld_todo l)(w := [])\<rparr>)"
| finish: "w < length (m_workers (ld_measurement l)) \<Longrightarrow> m_workers (ld_measurement l) ! w = Running idx \<Longrightarrow>
    ld_todo l w = [] \<Longrightarrow> worker_turn measured w (Some latency) (ld_measurement l) = Some m \<Longrightarrow>
    load_step client measured op l (l\<lparr>ld_measurement := m\<rparr>)"

definition load_start :: "bool \<Rightarrow> nat \<Rightarrow> 's \<Rightarrow> 's load \<Rightarrow> bool" where
  "load_start connects n s l \<longleftrightarrow>
     measure_start connects n (ld_measurement l) \<and> ld_todo l = (\<lambda>_. []) \<and> ld_server l = s"

text \<open>What a measurement from a state of the server may come to: its new state, and a summary or an error.\<close>

inductive measured_by ::
  "'s client \<Rightarrow> nat \<Rightarrow> nat \<Rightarrow> bool \<Rightarrow> operation \<Rightarrow> 's \<Rightarrow> 's \<times> metric_summary option \<Rightarrow> bool"
  for client n measured connects op s where
  summary: "load_start connects n s l \<Longrightarrow> (load_step client measured op)\<^sup>*\<^sup>* l l' \<Longrightarrow>
    join_workers measured elapsed (ld_measurement l') = Some (Return (Ok m)) \<Longrightarrow>
    measured_by client n measured connects op s (ld_server l', Some m)"
| failure: "load_start connects n s l \<Longrightarrow> (load_step client measured op)\<^sup>*\<^sup>* l l' \<Longrightarrow>
    join_workers measured elapsed (ld_measurement l') = Some (Return (Err ())) \<Longrightarrow>
    measured_by client n measured connects op s (ld_server l', None)"

inductive_cases measured_summaryE: "measured_by client n measured connects op s (s', Some m)"

section \<open>The measurements of the suites\<close>

definition measure_http_parallel ::
  "'s client \<Rightarrow> command_suite_config \<Rightarrow> operation \<Rightarrow> 's \<Rightarrow> 's \<times> metric_summary option \<Rightarrow> bool" where
  "measure_http_parallel client suite op =
     measured_by client (concurrency suite) (measured_ops suite) False op"

definition measure_grpc_ping_parallel ::
  "'s client \<Rightarrow> command_suite_config \<Rightarrow> 's \<Rightarrow> 's \<times> metric_summary option \<Rightarrow> bool" where
  "measure_grpc_ping_parallel client suite =
     measured_by client (concurrency suite) (measured_ops suite) True (\<lambda>_ idx. grpc_ping_once)"

definition measure_grpc_set_get_parallel ::
  "'s client \<Rightarrow> command_suite_config \<Rightarrow> str \<Rightarrow> str \<Rightarrow> bytes \<Rightarrow> 's \<Rightarrow> 's \<times> metric_summary option \<Rightarrow> bool" where
  "measure_grpc_set_get_parallel client suite variant_name label payload =
     measured_by client (concurrency suite) (measured_ops suite) True
       (\<lambda>worker idx. grpc_set_get_once
          (''redis-web-bench:'' @ variant_name @ '':grpc:'' @ label @ '':'' @ dec worker @ '':'' @ dec idx) payload)"

definition measure_grpc_get_parallel ::
  "'s client \<Rightarrow> command_suite_config \<Rightarrow> str \<Rightarrow> 's \<Rightarrow> 's \<times> metric_summary option \<Rightarrow> bool" where
  "measure_grpc_get_parallel client suite key =
     measured_by client (concurrency suite) (measured_ops suite) True (\<lambda>_ idx. grpc_get_once key)"

definition measure_grpc_distributed_get_parallel ::
  "'s client \<Rightarrow> command_suite_config \<Rightarrow> str \<Rightarrow> 's \<Rightarrow> 's \<times> metric_summary option \<Rightarrow> bool" where
  "measure_grpc_distributed_get_parallel client suite variant_name =
     measured_by client (concurrency suite) (measured_ops suite) True
       (\<lambda>_ idx. grpc_get_once (read_heavy_distributed_key variant_name idx))"

definition measure_grpc_mget_parallel ::
  "'s client \<Rightarrow> command_suite_config \<Rightarrow> str \<Rightarrow> 's \<Rightarrow> 's \<times> metric_summary option \<Rightarrow> bool" where
  "measure_grpc_mget_parallel client suite variant_name =
     measured_by client (concurrency suite) (measured_ops suite) True
       (\<lambda>_ idx. grpc_mget_once (read_heavy_mget_keys variant_name idx))"

definition measure_grpc_hmget_parallel ::
  "'s client \<Rightarrow> command_suite_config \<Rightarrow> str \<Rightarrow> str list \<Rightarrow> 's \<Rightarrow> 's \<times> metric_summary option \<Rightarrow> bool" where
  "measure_grpc_hmget_parallel client suite hash_key fs =
     measured_by client (concurrency suite) (measured_ops suite) True (\<lambda>_ idx. grpc_hmget_once hash_key fs)"

text \<open>The measured part of \<^verbatim>\<open>websocket_roundtrip_workload\<close>, one worker per connection.\<close>

definition measure_websocket_roundtrips ::
  "'s client \<Rightarrow> web_socket_suite_config \<Rightarrow> str \<Rightarrow> str \<Rightarrow> web_socket_payload \<Rightarrow> 's \<Rightarrow> 's \<times> metric_summary option \<Rightarrow> bool"
where
  "measure_websocket_roundtrips client suite variant_name label payload =
     measured_by client (persistent_connections suite) (ws_measured_ops suite) True
       (\<lambda>worker idx. run_websocket_operation variant_name label worker idx payload)"

text \<open>The plan of a workload is measured by the function its suite calls.\<close>

definition plan_measured ::
  "'s client \<Rightarrow> command_suite_config \<Rightarrow> workload_plan \<Rightarrow> 's \<Rightarrow> 's \<times> metric_summary option \<Rightarrow> bool" where
  "plan_measured client suite p =
     measured_by client (concurrency suite) (measured_ops suite) (plan_connects p) (plan_op p)"

lemma grpc_plans_measured:
  "map (plan_measured client suite) (run_grpc_common_commands v) =
     [measure_grpc_ping_parallel client suite,
      measure_grpc_set_get_parallel client suite v ''small'' ''small-value'',
      measure_grpc_set_get_parallel client suite v ''medium'' medium_payload]"
  "map (plan_measured client suite) (run_grpc_read_heavy_cache v) =
     [measure_grpc_get_parallel client suite (read_heavy_hot_key v),
      measure_grpc_distributed_get_parallel client suite v,
      measure_grpc_mget_parallel client suite v,
      measure_grpc_hmget_parallel client suite (read_heavy_hash_key v) read_heavy_hash_fields]"
  by (simp_all add: plan_measured_def run_grpc_common_commands_def run_grpc_read_heavy_cache_def bench_key_def
      measure_grpc_ping_parallel_def measure_grpc_set_get_parallel_def measure_grpc_get_parallel_def
      measure_grpc_distributed_get_parallel_def measure_grpc_mget_parallel_def measure_grpc_hmget_parallel_def)

lemma http_plans_measured:
  "p \<in> set (run_http_common_commands v) \<union> set (run_http_read_heavy_cache v) \<Longrightarrow>
     plan_measured client suite p = measure_http_parallel client suite (plan_op p)"
  by (auto simp: plan_measured_def measure_http_parallel_def run_http_common_commands_def run_http_read_heavy_cache_def)

text \<open>
  The runner's own connection, for seeding and publishing: opened from the URL of the configuration. The
  connection attempt is a parameter.
\<close>

definition redis_connection ::
  "'s redis_lib \<Rightarrow> (connection_info \<Rightarrow> (unit, str) result) \<Rightarrow> config \<Rightarrow> (connection_info, str) result" where
  "redis_connection R connect c =
     (case url_info R (get_redis_url c) of
        Err _ \<Rightarrow> Err ''failed to create Redis client''
      | Ok info \<Rightarrow>
          (case client_open R info of
             Err _ \<Rightarrow> Err ''failed to create Redis client''
           | Ok _ \<Rightarrow> (case connect info of Err _ \<Rightarrow> Err ''failed to connect to Redis'' | Ok _ \<Rightarrow> Ok info)))"

text \<open>
  The URL never names a UNIX socket: with \<^verbatim>\<open>redis_socket\<close> set, the server under test connects to the socket and
  the runner seeds and publishes at the TCP host and port.
\<close>

theorem runner_ignores_redis_socket:
  "redis_connection R connect (c\<lparr>redis_socket := socket\<rparr>) = redis_connection R connect c"
  by (simp add: redis_connection_def get_redis_url_def ssl_enabled_def)

section \<open>The measurement behind the requests\<close>

interpretation measured_load: simulation "load_step client measured op" "worker_step measured" ld_measurement
  for client :: "'s client" and measured op
proof
  fix l l' :: "'s load"
  assume "load_step client measured op l l'"
  then show "worker_step measured (ld_measurement l) (ld_measurement l') \<or> ld_measurement l = ld_measurement l'"
    by cases (auto intro: worker_step.turn)
qed

section \<open>What a measurement sends\<close>

text \<open>
  A log of the requests that reached the server, each with the worker and the index of its operation. \<open>sent lg t\<close>
  is what operation \<open>t\<close> has sent.
\<close>

type_synonym request_log = "((nat \<times> nat) \<times> bench_request) list"

definition sent :: "request_log \<Rightarrow> nat \<times> nat \<Rightarrow> bench_request list" where
  "sent lg t = map snd (filter (\<lambda>e. fst e = t) lg)"

definition replay :: "'s client \<Rightarrow> request_log \<Rightarrow> 's \<Rightarrow> 's" where
  "replay client lg s = fold (\<lambda>(t, r) s. fst (client s r)) lg s"

lemma sent_simps [simp]:
  "sent [] t = []"
  "sent (lg @ [(u, r)]) t = sent lg t @ (if u = t then [r] else [])"
  by (simp_all add: sent_def)

lemma replay_simps [simp]:
  "replay client [] s = s"
  "replay client (lg @ [(u, r)]) s = fst (client (replay client lg s) r)"
  by (simp_all add: replay_def)

lemma sent_unknown: "t \<notin> fst ` set lg \<Longrightarrow> sent lg t = []"
  by (auto simp: sent_def filter_empty_conv)

text \<open>
  The log explains the server's state; a running operation has sent all but what is left of it, and without
  errors every other one has sent all.
\<close>

definition load_inv :: "'s client \<Rightarrow> operation \<Rightarrow> 's \<Rightarrow> request_log \<Rightarrow> 's load \<Rightarrow> bool" where
  "load_inv client op s lg l \<longleftrightarrow>
     (let m = ld_measurement l in
      ld_server l = replay client lg s \<and> fst ` set lg \<subseteq> set (m_issued m) \<and>
      (\<forall>w idx. (w, idx) \<in> set (m_issued m) \<longrightarrow> w < length (m_workers m) \<and>
         (m_workers m ! w = Running idx \<longrightarrow> sent lg (w, idx) @ ld_todo l w = op w idx) \<and>
         (m_workers m ! w \<noteq> Running idx \<longrightarrow> m_errors m = 0 \<longrightarrow> sent lg (w, idx) = op w idx)) \<and>
      (\<forall>w < length (m_workers m). \<forall>idx. m_workers m ! w = Running idx \<longrightarrow> (w, idx) \<in> set (m_issued m)))"

lemma load_inv_step:
  assumes "load_inv client op s lg l" and "measure_inv measured (ld_measurement l)" and "load_step client measured op l l'"
  shows "\<exists>lg'. load_inv client op s lg' l'"
  using assms(3)
proof cases
  case (own w outcome m)
  let ?m = "ld_measurement l"
  have idle: "m_workers ?m ! w \<noteq> Running idx" for idx
    using own by auto
  show ?thesis
  proof (cases "\<exists>idx. m_workers m ! w = Running idx")
    case True
    then have m: "m = set_worker w (Running (m_counter ?m)) (?m\<lparr>m_counter := Suc (m_counter ?m),
        m_issued := m_issued ?m @ [(w, m_counter ?m)]\<rparr>)"
      using own by (auto simp: worker_turn_def Let_def split: worker.splits if_splits option.splits)
    have new: "(v, m_counter ?m) \<notin> set (m_issued ?m)" for v
    proof
      assume "(v, m_counter ?m) \<in> set (m_issued ?m)"
      then have "m_counter ?m \<in> set (map snd (m_issued ?m))" by force
      also have "map snd (m_issued ?m) = [0..<min (m_counter ?m) measured]"
        using assms(2) by (simp add: measure_inv_def)
      finally show False by simp
    qed
    then have "sent lg (w, m_counter ?m) = []"
      using assms(1) by (intro sent_unknown) (auto simp: load_inv_def Let_def)
    then have "load_inv client op s lg l'"
      using assms(1) own m new idle by (auto simp: load_inv_def Let_def next_todo_def nth_list_update)
    then show ?thesis ..
  next
    case False
    then have "m_issued m = m_issued ?m" "m_errors m = m_errors ?m"
        "\<exists>p. m_workers m = (m_workers ?m)[w := p] \<and> \<not> is_running p"
      using own by (auto simp: worker_turn_def Let_def split: worker.splits if_splits)
    then have "load_inv client op s lg l'"
      using assms(1) own False idle
      by (auto simp: load_inv_def Let_def next_todo_def nth_list_update split: worker.splits)
    then show ?thesis ..
  qed
next
  case (send w idx r rs s')
  have "sent lg (w, idx) @ r # rs = op w idx"
    using assms(1) send unfolding load_inv_def Let_def by metis
  then have "load_inv client op s (lg @ [((w, idx), r)]) l'"
    using assms(1) send by (auto simp: load_inv_def Let_def nth_list_update)
  then show ?thesis ..
next
  case (fail w idx r rs s' m)
  then have "load_inv client op s (lg @ [((w, idx), r)]) l'"
    using assms(1) by (auto simp: load_inv_def Let_def nth_list_update worker_turn_def split: if_splits)
  then show ?thesis ..
next
  case (finish w idx latency m)
  have "sent lg (w, j) = op w j" if "(w, j) \<in> set (m_issued (ld_measurement l))" "m_errors (ld_measurement l) = 0" for j
    using assms(1) finish that unfolding load_inv_def Let_def by (metis append_Nil2)
  then have "load_inv client op s lg l'"
    using assms(1) finish by (auto simp: load_inv_def Let_def nth_list_update worker_turn_def split: if_splits)
  then show ?thesis ..
qed

lemma load_inv_run:
  assumes "load_start connects n s l" and "(load_step client measured op)\<^sup>*\<^sup>* l l'"
  shows "reachable (measure_start connects n) (worker_step measured) (ld_measurement l') \<and>
    (\<exists>lg. load_inv client op s lg l')"
  using assms(2)
proof (induction rule: rtranclp_induct)
  case base
  have "load_inv client op s [] l"
    using assms(1) by (auto simp: load_start_def measure_start_def load_inv_def Let_def)
  with assms(1) show ?case by (auto simp: load_start_def intro: reach_start)
next
  case (step k l')
  then have r: "reachable (measure_start connects n) (worker_step measured) (ld_measurement k)" by blast
  have "reachable (measure_start connects n) (worker_step measured) (ld_measurement l')"
    using measured_load.simulates [OF step(2)] r by (auto intro: reach_step)
  with step load_inv_step [OF _ measuring.reachable_inv [OF r]] show ?case by blast
qed

text \<open>C14. When a measurement ends with a summary that counts no error, every index below the number of operations was
  one worker's, the server has got exactly the requests of these operations, those of each operation once and in
  order, and its state is that of the requests replayed one at a time.\<close>

theorem measured_load_exact:
  assumes "measured_by client n measured connects op s (s', Some m)" and "0 < n" and "error_count m = 0"
  shows "\<exists>issued lg. map snd issued = [0..<measured] \<and> s' = replay client lg s \<and> fst ` set lg \<subseteq> set issued \<and>
    (\<forall>(w, idx) \<in> set issued. w < n \<and> sent lg (w, idx) = op w idx)"
  using assms(1)
proof cases
  case (summary l l' elapsed)
  let ?m = "ld_measurement l'"
  from load_inv_run [OF summary(2,3)] obtain lg where r: "reachable (measure_start connects n) (worker_step measured) ?m"
    and inv: "load_inv client op s lg l'" by blast
  have "map snd (m_issued ?m) = [0..<measured]"
    using measured_exactly_once_counts [OF r assms(2) summary(4)] by blast
  moreover have "list_all (\<lambda>p. p = Finished) (m_workers ?m)" "m_errors ?m = 0"
    using summary(4) assms(3)
    by (auto simp: join_workers_def bind_outcome_Return_iff summarize_metrics_def Let_def split: if_splits)
  ultimately show ?thesis
    using inv reachable_worker_count [OF r] summary(1)
    by (intro exI [of _ "m_issued ?m"] exI [of _ lg]) (auto simp: load_inv_def Let_def list_all_length split: if_splits)
qed

text \<open>One worker and one operation of one request.\<close>

lemma sample_load:
  "\<exists>m. measured_by (\<lambda>s r. (Suc s, True)) 1 1 False (\<lambda>_ _. [RedisCommand [''PING'']]) (0 :: nat) (1, Some m) \<and>
     error_count m = 0"
proof -
  let ?client = "\<lambda>s r. (Suc s, True)" and ?op = "\<lambda>_ _. [RedisCommand [''PING'']]"
  let ?l = "\<lambda>c ls p is todo s. \<lparr>ld_measurement = \<lparr>m_counter = c, m_latencies = ls, m_errors = 0, m_workers = [p],
      m_issued = is\<rparr>, ld_todo = todo, ld_server = s\<rparr>"
  let ?t = "(\<lambda>_ :: nat. []) :: nat \<Rightarrow> bench_request list"
  have "load_step ?client 1 ?op (?l 0 [] Idle [] ?t 0) (?l 1 [] (Running 0) [(0, 0)] (?t(0 := ?op 0 0)) 0)"
    using load_step.own [of 0 "?l 0 [] Idle [] ?t 0" 1 None _ ?client ?op]
    by (simp add: worker_turn_def set_worker_def next_todo_def)
  moreover have "load_step ?client 1 ?op (?l 1 [] (Running 0) [(0, 0)] (?t(0 := ?op 0 0)) 0)
      (?l 1 [] (Running 0) [(0, 0)] ?t 1)"
    using load_step.send [of 0 "?l 1 [] (Running 0) [(0, 0)] (?t(0 := ?op 0 0)) 0" 0 _ "[]" ?client 1 1 ?op]
    by (simp add: fun_upd_idem)
  moreover have "load_step ?client 1 ?op (?l 1 [] (Running 0) [(0, 0)] ?t 1) (?l 1 [5] Idle [(0, 0)] ?t 1)"
    using load_step.finish [of 0 "?l 1 [] (Running 0) [(0, 0)] ?t 1" 0 1 5 _ ?client ?op]
    by (simp add: worker_turn_def set_worker_def)
  moreover have "load_step ?client 1 ?op (?l 1 [5] Idle [(0, 0)] ?t 1) (?l 2 [5] Finished [(0, 0)] ?t 1)"
    using load_step.own [of 0 "?l 1 [5] Idle [(0, 0)] ?t 1" 1 None _ ?client ?op]
    by (simp add: worker_turn_def set_worker_def next_todo_def numeral_2_eq_2)
  ultimately have run: "(load_step ?client 1 ?op)\<^sup>*\<^sup>* (?l 0 [] Idle [] ?t 0) (?l 2 [5] Finished [(0, 0)] ?t 1)"
    by (meson converse_rtranclp_into_rtranclp rtranclp.rtrancl_refl)
  obtain m where m: "summarize_metrics [5] 9 1 0 = Return m" "error_count m = 0"
    using summarize_metrics_counts [of "[5]" 9 1 0] by auto
  have "load_start False 1 0 (?l 0 [] Idle [] ?t 0)"
    by (simp add: load_start_def measure_start_def)
  from measured_by.summary [OF this run, of 9 m] m show ?thesis
    by (auto simp: join_workers_def)
qed

theorem measured_load_exact_witness:
  "\<exists>issued lg. map snd issued = [0..<1] \<and> (1 :: nat) = replay (\<lambda>s r. (Suc s, True)) lg 0 \<and>
     (\<forall>(w, idx) \<in> set issued. w < 1 \<and> sent lg (w, idx) = [RedisCommand [''PING'']])"
proof -
  obtain m where "measured_by (\<lambda>s r. (Suc s, True)) 1 1 False (\<lambda>_ _. [RedisCommand [''PING'']]) (0 :: nat) (1, Some m)"
    and "error_count m = 0"
    using sample_load by blast
  from measured_load_exact [OF this(1) zero_less_one this(2)] show ?thesis by blast
qed

section \<open>A measurement comes to a result\<close>

fun load_weight :: "worker \<Rightarrow> bench_request list \<Rightarrow> nat" where
  "load_weight (Running idx) rs = 2 + length rs"
| "load_weight p rs = weight p"

text \<open>Turns left: those of the operations not yet issued, and those of each worker.\<close>

definition future_turns :: "nat \<Rightarrow> operation \<Rightarrow> nat \<Rightarrow> nat \<Rightarrow> nat" where
  "future_turns measured op n counter = (\<Sum>idx = counter..<measured. 2 + (\<Sum>w<n. length (op w idx)))"

definition load_left :: "nat \<Rightarrow> operation \<Rightarrow> 's load \<Rightarrow> nat" where
  "load_left measured op l =
     (let m = ld_measurement l; n = length (m_workers m) in
      future_turns measured op n (m_counter m) + (\<Sum>w<n. load_weight (m_workers m ! w) (ld_todo l w)))"

lemma sum_change:
  fixes f g :: "nat \<Rightarrow> nat"
  assumes "w < n" and "\<And>v. v < n \<Longrightarrow> v \<noteq> w \<Longrightarrow> f v = g v"
  shows "(\<Sum>v<n. f v) + g w = (\<Sum>v<n. g v) + f w"
proof -
  have "(\<Sum>v<n. f v) = f w + (\<Sum>v\<in>{..<n} - {w}. f v)" "(\<Sum>v<n. g v) = g w + (\<Sum>v\<in>{..<n} - {w}. g v)"
    using assms(1) by (auto intro!: sum.remove)
  moreover have "(\<Sum>v\<in>{..<n} - {w}. f v) = (\<Sum>v\<in>{..<n} - {w}. g v)"
    using assms(2) by (intro sum.cong) auto
  ultimately show ?thesis by simp
qed

lemma load_left_turn:
  assumes "w < length (m_workers (ld_measurement l))"
    and "m_workers (ld_measurement l') = (m_workers (ld_measurement l))[w := p]" and "ld_todo l' = (ld_todo l)(w := rs)"
    and "future_turns measured op (length (m_workers (ld_measurement l))) (m_counter (ld_measurement l')) + load_weight p rs <
      future_turns measured op (length (m_workers (ld_measurement l))) (m_counter (ld_measurement l)) +
      load_weight (m_workers (ld_measurement l) ! w) (ld_todo l w)"
  shows "load_left measured op l' < load_left measured op l"
  using sum_change [OF assms(1), of "\<lambda>v. load_weight (m_workers (ld_measurement l') ! v) (ld_todo l' v)"
      "\<lambda>v. load_weight (m_workers (ld_measurement l) ! v) (ld_todo l v)"] assms
  by (simp add: load_left_def Let_def)

lemma future_turns_issue:
  assumes "counter < measured" and "w < n"
  shows "future_turns measured op n (Suc counter) + 2 + length (op w counter) \<le> future_turns measured op n counter"
proof -
  have "length (op w counter) \<le> (\<Sum>w<n. length (op w counter))"
    using assms(2) by (intro member_le_sum) auto
  with assms(1) show ?thesis
    by (simp add: future_turns_def sum.atLeast_Suc_lessThan)
qed

lemma future_turns_past: "measured \<le> counter \<Longrightarrow> future_turns measured op n counter = 0"
  by (simp add: future_turns_def)

interpretation load_ends: terminating_system "load_step client measured op" "load_left measured op"
  for client :: "'s client" and measured op
proof
  fix l l' :: "'s load"
  let ?m = "ld_measurement l"
  assume "load_step client measured op l l'"
  then show "load_left measured op l' < load_left measured op l"
  proof cases
    case (own w outcome m)
    consider (connect) p where "m_workers ?m ! w = Connecting" "m = set_worker w p ?m" "p \<in> {Idle, ConnectFailed}"
      | (over) "m_workers ?m ! w = Idle" "measured \<le> m_counter ?m"
          "m_workers m = (m_workers ?m)[w := Finished]" "m_counter m = Suc (m_counter ?m)"
      | (issue) "m_workers ?m ! w = Idle" "m_counter ?m < measured"
          "m_workers m = (m_workers ?m)[w := Running (m_counter ?m)]" "m_counter m = Suc (m_counter ?m)"
      using own by (auto simp: worker_turn_def Let_def split: worker.splits if_splits option.splits)
    then show ?thesis
    proof cases
      case (connect p)
      with own show ?thesis
        by (intro load_left_turn [of w l l' p "ld_todo l w"]) (auto simp: next_todo_def)
    next
      case over
      with own show ?thesis
        by (intro load_left_turn [of w l l' Finished "ld_todo l w"]) (auto simp: next_todo_def future_turns_past)
    next
      case issue
      with own future_turns_issue [OF issue(2) own(2), of op] show ?thesis
        by (intro load_left_turn [of w l l' "Running (m_counter ?m)" "op w (m_counter ?m)"]) (auto simp: next_todo_def)
    qed
  next
    case (send w idx r rs s')
    then have "m_workers ?m = (m_workers ?m)[w := Running idx]"
      by (metis list_update_id)
    with send show ?thesis
      by (intro load_left_turn [of w l l' "Running idx" rs]) auto
  next
    case (fail w idx r rs s' m)
    then show ?thesis
      by (intro load_left_turn [of w l l' Idle "[]"]) (auto simp: worker_turn_def)
  next
    case (finish w idx latency m)
    then show ?thesis
      by (intro load_left_turn [of w l l' Idle "[]"]) (auto simp: worker_turn_def)
  qed
qed

text \<open>Only a load whose workers have all returned has no turn left.\<close>

lemma load_stuck:
  assumes "\<nexists>l'. load_step client measured op l l'"
  shows "set (m_workers (ld_measurement l)) \<subseteq> {Finished, ConnectFailed}"
proof
  fix p assume "p \<in> set (m_workers (ld_measurement l))"
  then obtain w where w: "w < length (m_workers (ld_measurement l))" "m_workers (ld_measurement l) ! w = p"
    by (auto simp: in_set_conv_nth)
  have turn: "worker_turn measured w outcome (ld_measurement l) \<noteq> None" if "p \<notin> {Finished, ConnectFailed}" for outcome
    using that w by (auto simp: worker_turn_def Let_def split: worker.splits)
  show "p \<in> {Finished, ConnectFailed}"
  proof (rule ccontr)
    assume p: "p \<notin> {Finished, ConnectFailed}"
    have own: "\<exists>l'. load_step client measured op l l'" if idle: "\<not> is_running p"
    proof -
      obtain m where "worker_turn measured w None (ld_measurement l) = Some m"
        using turn [OF p, of None] by blast
      with w idle load_step.own [of w l measured None m client op] show ?thesis by blast
    qed
    have "\<exists>l'. load_step client measured op l l'"
    proof (cases p)
      case (Running idx)
      show ?thesis
      proof (cases "ld_todo l w")
        case Nil
        moreover obtain m where "worker_turn measured w (Some 0) (ld_measurement l) = Some m"
          using turn [OF p, of "Some 0"] by blast
        ultimately show ?thesis
          using w Running load_step.finish [of w l idx measured 0 m client op] by blast
      next
        case (Cons r rs)
        obtain m where m: "worker_turn measured w None (ld_measurement l) = Some m"
          using turn [OF p, of None] by blast
        obtain s' ok where "client (ld_server l) r = (s', ok)" by fastforce
        then show ?thesis
          using load_step.send [of w l idx r rs client s' measured op]
            load_step.fail [of w l idx r rs client s' measured m op] m w Running Cons by (cases ok; simp; blast)
      qed
    qed (use own in simp_all)
    with assms show False by blast
  qed
qed



end
