(* ===== verification/Bench_Report.thy ===== *)
theory Bench_Report
  imports Bench_Spec Bench_Measure
begin

text \<open>
  \<^verbatim>\<open>crates/redis-web-bench/src/report.rs\<close> and the result types of \<^verbatim>\<open>model.rs\<close>: the Markdown report of a
  comparison, with its tables and its Mermaid charts.
\<close>

section \<open>Results of a comparison\<close>

definition BENCHMARK_SUITE_VERSION :: str where "BENCHMARK_SUITE_VERSION = ''v1''"

record environment_summary =
  env_hostname :: "str option"
  env_os :: str
  env_arch :: str
  cpu_parallelism :: nat

record variant_benchmark_result =
  run_name :: str
  run_endpoint :: str
  run_transport :: str
  run_diff :: "config_diff list"
  run_suites :: "suite_result list"

record benchmark_results =
  generated_at :: str
  suite_version :: str
  results_git_sha :: "str option"
  results_environment :: environment_summary
  baseline_name :: str
  results_runs :: "variant_benchmark_result list"

section \<open>Numbers\<close>

definition fmt_float :: "f64 \<Rightarrow> str" where
  "fmt_float v = fmt2 v"

definition fmt_opt :: "f64 option \<Rightarrow> str" where
  "fmt_opt v = (case v of Some x \<Rightarrow> fmt_float x | None \<Rightarrow> ''-'')"

definition fmt_delta :: "f64 option \<Rightarrow> f64 option \<Rightarrow> str" where
  "fmt_delta v baseline =
     (case (v, baseline) of (Some x, Some y) \<Rightarrow> fmt2_signed (fl (x - y)) | _ \<Rightarrow> ''-'')"

section \<open>Tables\<close>

definition newline :: str where "newline = [CHR 0x0A]"

definition row :: "str list \<Rightarrow> str" where
  "row cells = ''| '' @ intercalate '' | '' cells @ '' |'' @ newline"

text \<open>The Greek letter delta, in UTF-8.\<close>

definition delta :: str where "delta = [CHR 0xCE, CHR 0x94, CHR '' '']"

definition table_header :: str where
  "table_header =
     row [''Variant'', ''Workload'', ''p50 ms'', delta @ ''p50'', ''p95 ms'', delta @ ''p95'', ''p99 ms'',
       delta @ ''p99'', ''Throughput/s'', delta @ ''throughput'', ''Errors'', ''Notes''] @
     row ([''---'', ''---''] @ replicate 9 ''---:'' @ [''---''])"

definition render_workload_row ::
  "variant_benchmark_result \<Rightarrow> workload_result \<Rightarrow> metric_summary option \<Rightarrow> str" where
  "render_workload_row run w baseline_metrics =
     (case workload_metrics w of
        None \<Rightarrow>
          row ([run_name run, workload_name w] @ replicate 9 ''-'' @
            [case workload_notes w of Some n \<Rightarrow> n | None \<Rightarrow> ''n/a''])
      | Some m \<Rightarrow>
          row [run_name run, workload_name w,
            fmt_opt (p50_ms m), fmt_delta (p50_ms m) (Option.bind baseline_metrics p50_ms),
            fmt_opt (p95_ms m), fmt_delta (p95_ms m) (Option.bind baseline_metrics p95_ms),
            fmt_opt (p99_ms m), fmt_delta (p99_ms m) (Option.bind baseline_metrics p99_ms),
            fmt_float (throughput_per_sec m),
            fmt_delta (Some (throughput_per_sec m)) (map_option throughput_per_sec baseline_metrics),
            dec (error_count m),
            case workload_notes w of Some n \<Rightarrow> n | None \<Rightarrow> []])"

text \<open>Lookups take the first suite, workload or run of the name.\<close>

definition suite_of :: "variant_benchmark_result \<Rightarrow> str \<Rightarrow> suite_result option" where
  "suite_of run name = find (\<lambda>s. suite_name s = name) (run_suites run)"

definition metrics_of :: "variant_benchmark_result \<Rightarrow> str \<Rightarrow> str \<Rightarrow> metric_summary option" where
  "metrics_of run suite name =
     Option.bind (suite_of run suite) (\<lambda>s.
     Option.bind (find (\<lambda>w. workload_name w = name) (suite_workloads s)) workload_metrics)"

definition baseline_run :: "benchmark_results \<Rightarrow> variant_benchmark_result option" where
  "baseline_run results =
     (case find (\<lambda>r. run_name r = baseline_name results) (results_runs results) of
        Some r \<Rightarrow> Some r
      | None \<Rightarrow> (case results_runs results of [] \<Rightarrow> None | r # _ \<Rightarrow> Some r))"

definition run_rows ::
  "variant_benchmark_result option \<Rightarrow> str \<Rightarrow> variant_benchmark_result \<Rightarrow> str list" where
  "run_rows baseline suite run =
     (case suite_of run suite of
        None \<Rightarrow> [row ([run_name run] @ replicate 10 ''-'' @ [''suite missing''])]
      | Some s \<Rightarrow>
          (case suite_state s of
             Completed \<Rightarrow>
               map (\<lambda>w. render_workload_row run w
                 (Option.bind baseline (\<lambda>b. metrics_of b suite (workload_name w)))) (suite_workloads s)
           | Skipped reason \<Rightarrow> [row ([run_name run] @ replicate 10 ''-'' @ [reason])]))"

section \<open>Charts\<close>

definition escape_mermaid_text :: "str \<Rightarrow> str" where
  "escape_mermaid_text t = map (\<lambda>c. if c = CHR ''\"'' then CHR 0x27 else c) t"

definition y_axis_max :: "(str \<times> f64) list \<Rightarrow> nat" where
  "y_axis_max series =
     (let max_value = foldl max 0 (map snd series) in
      if max_value \<le> 0 then 1 else nat \<lceil>fl (max_value * fl (110 / 100))\<rceil>)"

definition render_bar_chart :: "externals \<Rightarrow> str \<Rightarrow> str \<Rightarrow> (str \<times> f64) list \<Rightarrow> str" where
  "render_bar_chart X title y_axis_label series =
     (if series = [] then []
      else ''```mermaid'' @ newline @ ''xychart-beta'' @ newline @
        ''    title \"'' @ escape_mermaid_text title @ ''\"'' @ newline @
        ''    x-axis '' @ json_to_string X (JArray (map (JString \<circ> fst) series)) @ newline @
        ''    y-axis \"'' @ escape_mermaid_text y_axis_label @ ''\" 0 --> '' @ dec (y_axis_max series) @ newline @
        ''    bar ['' @ intercalate '', '' (map (fmt2 \<circ> snd) series) @ '']'' @ newline @
        ''```'' @ newline @ newline)"

text \<open>The four series of a workload, over the runs that have metrics for it.\<close>

definition measured_runs ::
  "benchmark_results \<Rightarrow> str \<Rightarrow> str \<Rightarrow> (str \<times> metric_summary) list" where
  "measured_runs results suite name =
     List.map_filter (\<lambda>run. map_option (\<lambda>m. (run_name run, m)) (metrics_of run suite name))
       (results_runs results)"

definition absolute_throughput :: "(str \<times> metric_summary) list \<Rightarrow> (str \<times> f64) list" where
  "absolute_throughput ms = map (\<lambda>(n, m). (n, throughput_per_sec m)) ms"

definition absolute_latency :: "(str \<times> metric_summary) list \<Rightarrow> (str \<times> f64) list" where
  "absolute_latency ms = List.map_filter (\<lambda>(n, m). map_option (Pair n) (p50_ms m)) ms"

definition percent_of :: "f64 \<Rightarrow> f64 \<Rightarrow> f64" where
  "percent_of v baseline = fl (fl (v / baseline) * 100)"

definition throughput_pct ::
  "metric_summary option \<Rightarrow> (str \<times> metric_summary) list \<Rightarrow> (str \<times> f64) list" where
  "throughput_pct baseline ms =
     (case baseline of
        None \<Rightarrow> []
      | Some b \<Rightarrow>
          if 0 < throughput_per_sec b
          then map (\<lambda>(n, m). (n, percent_of (throughput_per_sec m) (throughput_per_sec b))) ms else [])"

definition latency_pct ::
  "metric_summary option \<Rightarrow> (str \<times> metric_summary) list \<Rightarrow> (str \<times> f64) list" where
  "latency_pct baseline ms =
     (case Option.bind baseline p50_ms of
        None \<Rightarrow> []
      | Some b \<Rightarrow>
          List.map_filter (\<lambda>(n, m). case p50_ms m of
             Some p \<Rightarrow> if 0 < b then Some (n, percent_of p b) else None | None \<Rightarrow> None) ms)"

definition workload_graphs ::
  "externals \<Rightarrow> benchmark_results \<Rightarrow> variant_benchmark_result option \<Rightarrow> str \<Rightarrow> str \<Rightarrow> str" where
  "workload_graphs X results baseline suite name =
     (let base = Option.bind baseline (\<lambda>b. metrics_of b suite name);
          ms = measured_runs results suite name;
          title = (\<lambda>t. suite @ '' / '' @ name @ '' / '' @ t)
      in if absolute_throughput ms = [] then []
         else ''#### '' @ name @ newline @ newline @
           render_bar_chart X (title ''throughput'') ''ops/sec'' (absolute_throughput ms) @
           render_bar_chart X (title ''p50 latency'') ''ms'' (absolute_latency ms) @
           render_bar_chart X (title ''throughput vs baseline'') ''% of baseline'' (throughput_pct base ms) @
           render_bar_chart X (title ''p50 latency vs baseline'') ''% of baseline'' (latency_pct base ms))"

text \<open>A \<^verbatim>\<open>BTreeSet\<close> of names: each once, in order.\<close>

definition btree_set :: "str list \<Rightarrow> str list" where
  "btree_set xs = sort (remdups xs)"

definition render_suite_graphs ::
  "externals \<Rightarrow> benchmark_results \<Rightarrow> variant_benchmark_result option \<Rightarrow> str \<Rightarrow> str" where
  "render_suite_graphs X results baseline suite =
     (let names = btree_set (concat (map (\<lambda>s. map workload_name (suite_workloads s))
            (List.map_filter (\<lambda>run. suite_of run suite) (results_runs results))))
      in if names = [] then []
         else ''### Graphs'' @ newline @ newline @ concat (map (workload_graphs X results baseline suite) names))"

section \<open>The report\<close>

definition diff_section :: "variant_benchmark_result \<Rightarrow> str" where
  "diff_section run =
     ''### '' @ run_name run @ newline @ newline @
     ''- Transport: `'' @ run_transport run @ ''`'' @ newline @
     ''- Redis endpoint: `'' @ run_endpoint run @ ''`'' @ newline @
     (if run_diff run = [] then ''- Changed config: baseline'' @ newline @ newline
      else ''- Changed config:'' @ newline @
        concat (map (\<lambda>d. ''  - `'' @ diff_key d @ ''`: `'' @ diff_before d @ ''` -> `'' @ diff_after d @ ''`'' @ newline)
          (run_diff run)) @ newline)"

definition suite_section ::
  "externals \<Rightarrow> benchmark_results \<Rightarrow> variant_benchmark_result option \<Rightarrow> str \<Rightarrow> str" where
  "suite_section X results baseline suite =
     ''## '' @ suite @ newline @ newline @
     render_suite_graphs X results baseline suite @ table_header @
     concat (concat (map (run_rows baseline suite) (results_runs results))) @ newline"

definition suite_names :: "benchmark_results \<Rightarrow> str list" where
  "suite_names results = btree_set (concat (map (\<lambda>run. map suite_name (run_suites run)) (results_runs results)))"

definition render_markdown_report :: "externals \<Rightarrow> benchmark_results \<Rightarrow> str" where
  "render_markdown_report X results =
     ''# Configuration Benchmark Report'' @ newline @ newline @
     ''- Generated at: `'' @ generated_at results @ ''`'' @ newline @
     ''- Suite version: `'' @ suite_version results @ ''`'' @ newline @
     (case results_git_sha results of Some sha \<Rightarrow> ''- Git SHA: `'' @ sha @ ''`'' @ newline | None \<Rightarrow> []) @
     ''- Environment: `'' @ env_os (results_environment results) @ ''/'' @ env_arch (results_environment results) @
       ''` with `'' @ dec (cpu_parallelism (results_environment results)) @ ''` logical CPUs'' @ newline @ newline @
     ''## Config Changes'' @ newline @ newline @
     concat (map diff_section (results_runs results)) @
     concat (map (suite_section X results (baseline_run results)) (suite_names results))"

section \<open>Tables have twelve columns\<close>

abbreviation bar :: char where "bar \<equiv> CHR ''|''"

definition pad :: "str \<Rightarrow> str" where "pad c = '' '' @ c @ '' ''"

lemma intercalate_pad:
  "cells \<noteq> [] \<Longrightarrow> '' '' @ intercalate '' | '' cells @ '' |'' @ newline = intercalate [bar] (map pad cells @ [newline])"
proof (induction "'' | ''" cells rule: intercalate.induct)
  case (3 x y zs)
  then have "intercalate [bar] (map pad (x # y # zs) @ [newline]) =
      pad x @ [bar] @ '' '' @ intercalate '' | '' (y # zs) @ '' |'' @ newline"
    by simp
  then show ?case by (simp add: pad_def)
qed (simp_all add: pad_def)

lemma split_row:
  assumes "cells \<noteq> []" and "\<forall>c \<in> set cells. bar \<notin> set c"
  shows "split_on bar (row cells) = [] # map pad cells @ [newline]"
proof -
  have "row cells = intercalate [bar] ([] # map pad cells @ [newline])"
    using intercalate_pad [OF assms(1)] by (cases cells) (simp_all add: row_def)
  moreover have "\<forall>c \<in> set ([] # map pad cells @ [newline]). bar \<notin> set c"
    using assms(2) by (auto simp: pad_def newline_def)
  ultimately show ?thesis
    using split_on_intercalate [of "[] # map pad cells @ [newline]" bar] by simp
qed

lemma small_dec: "dec 0 = ''0''" "dec (Suc 0) = ''1''" "dec 2 = ''2''" "dec 100 = ''100''"
  by code_simp+

lemma numbers_no_bar:
  "bar \<notin> set (dec n)" "bar \<notin> set (fmt_opt v)" "bar \<notin> set (fmt_float x)" "bar \<notin> set (fmt_delta v u)"
proof -
  show d: "bar \<notin> set (dec n)" for n
    using dec_digits [of n] by (auto simp: list_all_iff is_ascii_digit_def)
  then show f: "bar \<notin> set (fmt_float x)" for x
    by (simp add: fmt_float_def fmt2_def fmt_hundredths_def)
  show "bar \<notin> set (fmt_opt v)" "bar \<notin> set (fmt_delta v u)"
    using d f by (auto simp: fmt_opt_def fmt_delta_def fmt2_signed_def fmt_hundredths_def split: option.splits)
qed

text \<open>The texts a run brings into the tables do not contain the column separator.\<close>

definition table_safe :: "variant_benchmark_result \<Rightarrow> bool" where
  "table_safe run \<longleftrightarrow> bar \<notin> set (run_name run) \<and>
     (\<forall>s \<in> set (run_suites run).
        (case suite_state s of Skipped reason \<Rightarrow> bar \<notin> set reason | Completed \<Rightarrow> True) \<and>
        (\<forall>w \<in> set (suite_workloads s). bar \<notin> set (workload_name w) \<and>
           (case workload_notes w of Some n \<Rightarrow> bar \<notin> set n | None \<Rightarrow> True)))"

lemma suite_of_in: "suite_of run name = Some s \<Longrightarrow> s \<in> set (run_suites run) \<and> suite_name s = name"
  unfolding suite_of_def by (auto simp: find_Some_iff)

definition well_formed_row :: "str \<Rightarrow> str \<Rightarrow> bool" where
  "well_formed_row name r \<longleftrightarrow> (\<exists>cells. r = row (name # cells) \<and> length cells = 11 \<and>
     (\<forall>c \<in> set (name # cells). bar \<notin> set c))"

lemma well_formed_rowI:
  "length cells = 11 \<Longrightarrow> \<forall>c \<in> set (name # cells). bar \<notin> set c \<Longrightarrow> well_formed_row name (row (name # cells))"
  unfolding well_formed_row_def by blast

lemma workload_row_form:
  assumes "bar \<notin> set (run_name run)" and "bar \<notin> set (workload_name w)"
    and "case workload_notes w of Some n \<Rightarrow> bar \<notin> set n | None \<Rightarrow> True"
  shows "well_formed_row (run_name run) (render_workload_row run w base)"
  using assms by (cases "workload_metrics w")
    (auto simp: render_workload_row_def numbers_no_bar intro!: well_formed_rowI split: option.splits)

lemma run_rows_form:
  assumes "table_safe run" and "r \<in> set (run_rows baseline suite run)"
  shows "well_formed_row (run_name run) r"
proof (cases "suite_of run suite")
  case None
  with assms show ?thesis
    by (auto simp: run_rows_def table_safe_def intro!: well_formed_rowI)
next
  case (Some s)
  then have s: "s \<in> set (run_suites run)"
    by (simp add: suite_of_in)
  show ?thesis
  proof (cases "suite_state s")
    case Completed
    with assms Some s show ?thesis
      by (auto simp: run_rows_def table_safe_def intro!: workload_row_form)
  next
    case (Skipped reason)
    with assms Some s show ?thesis
      by (fastforce simp: run_rows_def table_safe_def intro!: well_formed_rowI)
  qed
qed

text \<open>Every row that a run contributes to a table of the report has twelve columns, the first of them the run's name,
  when no name, note or reason contains the column separator.\<close>

theorem report_rows_aligned:
  assumes "table_safe run" and "r \<in> set (run_rows baseline suite run)"
  shows "length (split_on bar r) = 14 \<and> split_on bar r ! 1 = pad (run_name run) \<and> last (split_on bar r) = newline"
proof -
  obtain cells where "r = row (run_name run # cells)" "length cells = 11"
    "\<forall>c \<in> set (run_name run # cells). bar \<notin> set c"
    using run_rows_form [OF assms] unfolding well_formed_row_def by blast
  then show ?thesis
    using split_row [of "run_name run # cells"] by simp
qed

definition sample_metrics :: metric_summary where
  "sample_metrics = \<lparr>attempted_ops = 1, success_count = 1, error_count = 0, p50_ms = Some 2, p95_ms = Some 2,
     p99_ms = None, throughput_per_sec = 100\<rparr>"

definition sample_run :: variant_benchmark_result where
  "sample_run = \<lparr>run_name = ''baseline'', run_endpoint = ''r'', run_transport = ''rest'', run_diff = [],
     run_suites = [\<lparr>suite_name = ''common_commands'', suite_state = Completed,
       suite_workloads = [completed_workload ''ping'' sample_metrics]\<rparr>]\<rparr>"

lemma sample_rows:
  "run_rows (Some sample_run) ''common_commands'' sample_run =
     [render_workload_row sample_run (completed_workload ''ping'' sample_metrics) (Some sample_metrics)]"
  by (simp add: run_rows_def suite_of_def sample_run_def metrics_of_def completed_workload_def)

theorem report_rows_aligned_witness:
  "length (split_on bar (render_workload_row sample_run (completed_workload ''ping'' sample_metrics)
     (Some sample_metrics))) = 14"
  using report_rows_aligned [of sample_run _ "Some sample_run" "''common_commands''"]
  unfolding sample_rows by (simp add: table_safe_def sample_run_def completed_workload_def)

text \<open>The baseline's own rows show no differences: in each of its completed workloads every delta is \<open>+0.00\<close>, or a
  dash where there is no latency.\<close>

theorem baseline_rows_show_no_change:
  assumes "baseline_run results = Some run" and "suite_of run suite = Some s" and "suite_state s = Completed"
    and "distinct (map workload_name (suite_workloads s))" and "w \<in> set (suite_workloads s)"
    and "workload_metrics w = Some m"
  shows "row [run_name run, workload_name w,
      fmt_opt (p50_ms m), if p50_ms m = None then ''-'' else ''+0.00'',
      fmt_opt (p95_ms m), if p95_ms m = None then ''-'' else ''+0.00'',
      fmt_opt (p99_ms m), if p99_ms m = None then ''-'' else ''+0.00'',
      fmt_float (throughput_per_sec m), ''+0.00'', dec (error_count m),
      case workload_notes w of Some n \<Rightarrow> n | None \<Rightarrow> []]
    \<in> set (run_rows (baseline_run results) suite run)"
proof -
  have "find (\<lambda>v. workload_name v = workload_name w) (suite_workloads s) = Some w"
    using assms(4,5) by (auto simp: find_Some_iff in_set_conv_nth distinct_conv_nth)
  then have base: "metrics_of run suite (workload_name w) = Some m"
    using assms(2,6) by (simp add: metrics_of_def)
  have zero: "fmt_delta v v = (if v = None then ''-'' else ''+0.00'')" for v
    by (cases v) (simp_all add: fmt_delta_def fmt2_signed_def fmt_hundredths_def round_even_def small_dec)
  have "render_workload_row run w (Some m) \<in> set (run_rows (baseline_run results) suite run)"
    using assms(1-3,5) base by (force simp: run_rows_def)
  then show ?thesis
    by (simp add: render_workload_row_def assms(6) zero)
qed

definition sample_results :: benchmark_results where
  "sample_results = \<lparr>generated_at = ''t'', suite_version = BENCHMARK_SUITE_VERSION, results_git_sha = None,
     results_environment = \<lparr>env_hostname = None, env_os = ''linux'', env_arch = ''x86_64'', cpu_parallelism = 8\<rparr>,
     baseline_name = ''baseline'', results_runs = [sample_run]\<rparr>"

theorem baseline_rows_show_no_change_witness:
  "row [''baseline'', ''ping'', ''2.00'', ''+0.00'', ''2.00'', ''+0.00'', ''-'', ''-'', ''100.00'', ''+0.00'', ''0'', []]
     \<in> set (run_rows (Some sample_run) ''common_commands'' sample_run)"
proof -
  have base: "baseline_run sample_results = Some sample_run"
    by (simp add: baseline_run_def sample_results_def sample_run_def)
  have fmt: "fmt2 2 = ''2.00''" "fmt2 100 = ''100.00''" "dec 0 = ''0''"
    by (simp_all add: fmt2_def fmt_hundredths_def round_even_def small_dec)
  have suite: "suite_of sample_run ''common_commands'' = Some \<lparr>suite_name = ''common_commands'',
      suite_state = Completed, suite_workloads = [completed_workload ''ping'' sample_metrics]\<rparr>"
    by (simp add: suite_of_def sample_run_def)
  show ?thesis
    using baseline_rows_show_no_change [OF base suite, of "completed_workload ''ping'' sample_metrics" sample_metrics]
    unfolding base by (simp add: completed_workload_def sample_metrics_def sample_run_def fmt_opt_def fmt_float_def fmt)
qed

section \<open>Charts\<close>

lemma foldl_max_upper: "x \<in> set xs \<Longrightarrow> x \<le> foldl max a xs" "a \<le> foldl max a (xs :: rat list)"
proof (induction xs arbitrary: a)
  case (Cons y ys)
  { case 1
    then show ?case using Cons(1) [of "max a y"] Cons(2) [of "max a y"] by auto }
  { case 2
    then show ?case using Cons(2) [of "max a y"] by simp }
qed auto

lemma foldl_max_in: "foldl max a xs \<in> insert a (set (xs :: rat list))"
proof (induction xs arbitrary: a)
  case (Cons y ys)
  then show ?case using Cons [of "max a y"] by (auto simp: max_def split: if_splits)
qed simp

lemma fl_110: "1 \<le> fl (110 / 100)"
proof -
  have "fl (of_nat 1) \<le> fl (110 / 100)" by (rule fl_mono) simp
  then show ?thesis using fl_of_nat [of 1] by simp
qed

text \<open>No bar of a chart is cut off: the axis reaches at least the highest value, whatever rounding its computation
  involves, and is never empty.\<close>

theorem chart_axis_covers_bars:
  assumes "\<forall>(n, v) \<in> set series. fl v = v" and "(n, v) \<in> set series"
  shows "v \<le> of_nat (y_axis_max series) \<and> 1 \<le> y_axis_max series"
proof -
  let ?m = "foldl max 0 (map snd series)"
  have v: "v \<le> ?m"
    using assms(2) by (intro foldl_max_upper(1)) force
  show ?thesis
  proof (cases "?m \<le> 0")
    case True
    with v show ?thesis by (simp add: y_axis_max_def)
  next
    case False
    then have "?m \<in> snd ` set series"
      using foldl_max_in [of 0 "map snd series"] by auto
    then have "fl ?m = ?m"
      using assms(1) by fastforce
    moreover have "?m * 1 \<le> ?m * fl (110 / 100)"
      using False fl_110 by (intro mult_left_mono) auto
    ultimately have "?m \<le> fl (?m * fl (110 / 100))"
      using fl_mono [of ?m "?m * fl (110 / 100)"] by simp
    then have "v \<le> of_int \<lceil>fl (?m * fl (110 / 100))\<rceil>" and pos: "0 < \<lceil>fl (?m * fl (110 / 100))\<rceil>"
      using v False by linarith+
    then have "v \<le> of_nat (nat \<lceil>fl (?m * fl (110 / 100))\<rceil>) \<and> 1 \<le> nat \<lceil>fl (?m * fl (110 / 100))\<rceil>"
      by linarith
    then show ?thesis
      using False by (simp add: y_axis_max_def Let_def)
  qed
qed

theorem chart_axis_covers_bars_witness:
  "(100 :: rat) \<le> of_nat (y_axis_max [(''a'', 100)])"
  using chart_axis_covers_bars [of "[(''a'', 100)]" "''a''" 100] fl_of_nat [of 100] by simp

end
