(* ===== verification/Config_Serde.thy ===== *)
theory Config_Serde
  imports Config
begin

text \<open>
  The derived \<^verbatim>\<open>Serialize\<close> of \<^verbatim>\<open>Config\<close> and its parts in \<^verbatim>\<open>crates/redis-web-core/src/config.rs\<close>, as a function
  to documents: one entry per field, \<^verbatim>\<open>null\<close> for an absent option, the transport mode in lower case, the
  credentials untagged, and no entry for the two legacy fields, which are skipped.
\<close>

section \<open>Values\<close>

primrec opt_json :: "('a \<Rightarrow> json) \<Rightarrow> 'a option \<Rightarrow> json" where
  "opt_json f None = JNull"
| "opt_json f (Some x) = f x"

definition nat_json :: "nat \<Rightarrow> json" where "nat_json n = JNumber (int n)"

definition strs_json :: "str list \<Rightarrow> json" where "strs_json ss = JArray (map JString ss)"

definition json_object :: "(str \<times> json) list \<Rightarrow> json" where "json_object kvs = JObject (fill_map [] kvs)"

section \<open>Parts\<close>

definition transport_mode_to_value :: "transport_mode \<Rightarrow> json" where
  "transport_mode_to_value m = JString (case m of Rest \<Rightarrow> ''rest'' | Grpc \<Rightarrow> ''grpc'')"

definition grpc_fields :: "grpc_config \<Rightarrow> (str \<times> json) list" where
  "grpc_fields g =
     [(''host'', JString (grpc_host g)), (''port'', JNumber (uint (grpc_port g))),
      (''enable_health_service'', JBool (enable_health_service g)),
      (''enable_reflection'', JBool (enable_reflection g)),
      (''max_decoding_message_size'', opt_json nat_json (max_decoding_message_size g)),
      (''max_encoding_message_size'', opt_json nat_json (max_encoding_message_size g))]"

definition ssl_fields :: "ssl_config \<Rightarrow> (str \<times> json) list" where
  "ssl_fields s =
     [(''enabled'', JBool (ssl_flag s)), (''ca_cert_bundle'', JString (ca_cert_bundle s)),
      (''path_to_certs'', opt_json JString (path_to_certs s)), (''client_cert'', JString (client_cert s)),
      (''client_key'', JString (client_key s)), (''redis_sni'', opt_json JString (redis_sni s))]"

definition acl_fields :: "acl_config \<Rightarrow> (str \<times> json) list" where
  "acl_fields a =
     [(''disabled'', opt_json strs_json (acl_disabled a)), (''enabled'', opt_json strs_json (acl_enabled a)),
      (''http_basic_auth'', opt_json JString (http_basic_auth a)), (''ip'', opt_json JString (acl_ip a))]"

primrec redis_auth_to_value :: "redis_auth_config \<Rightarrow> json" where
  "redis_auth_to_value (Legacy password) = JString password"
| "redis_auth_to_value (ACL creds) = strs_json creds"

definition hiredis_fields :: "hiredis_config \<Rightarrow> (str \<times> json) list" where
  "hiredis_fields h = [(''keep_alive_sec'', opt_json nat_json (keep_alive_sec h))]"

definition compat_fields :: "compat_hiredis_config \<Rightarrow> (str \<times> json) list" where
  "compat_fields h =
     [(''enabled'', JBool (compat_enabled h)), (''path_prefix'', JString (path_prefix h)),
      (''session_ttl_sec'', nat_json (session_ttl_sec h)), (''max_sessions'', nat_json (max_sessions h)),
      (''max_pipeline_commands'', nat_json (max_pipeline_commands h))]"

section \<open>The configuration\<close>

definition config_fields :: "config \<Rightarrow> (str \<times> json) list" where
  "config_fields c =
     [(''redis_host'', JString (redis_host c)), (''redis_port'', JNumber (uint (redis_port c))),
      (''redis_socket'', opt_json JString (redis_socket c)), (''http_host'', JString (http_host c)),
      (''http_port'', JNumber (uint (http_port c))),
      (''transport_mode'', transport_mode_to_value (transport_mode c)),
      (''http_threads'', opt_json nat_json (http_threads c)),
      (''runtime_worker_threads'', opt_json nat_json (runtime_worker_threads c)),
      (''database'', JNumber (uint (database c))),
      (''pool_size_per_thread'', opt_json nat_json (pool_size_per_thread c)),
      (''websockets'', JBool (websockets c)),
      (''ssl'', opt_json (\<lambda>s. json_object (ssl_fields s)) (ssl c)),
      (''acl'', opt_json (\<lambda>as. JArray (map (\<lambda>a. json_object (acl_fields a)) as)) (acl c)),
      (''redis_auth'', opt_json redis_auth_to_value (redis_auth c)),
      (''hiredis'', opt_json (\<lambda>h. json_object (hiredis_fields h)) (hiredis c)),
      (''compat_hiredis'', opt_json (\<lambda>h. json_object (compat_fields h)) (compat_hiredis c)),
      (''grpc'', json_object (grpc_fields (grpc c))),
      (''http_max_request_size'', opt_json nat_json (http_max_request_size c)),
      (''default_root'', opt_json JString (default_root c)),
      (''verbosity'', opt_json nat_json (verbosity c))]"

definition config_to_value :: "config \<Rightarrow> json" where
  "config_to_value c = json_object (config_fields c)"

section \<open>Serialisation loses nothing but the legacy fields\<close>

lemma opt_json_eq:
  assumes "\<And>x y. f x = f y \<Longrightarrow> x = y" and "\<And>x. f x \<noteq> JNull"
  shows "opt_json f a = opt_json f b \<longleftrightarrow> a = b"
  using assms by (cases a; cases b) (simp_all, metis+)

lemma json_values_inject [simp]:
  "nat_json n = nat_json k \<longleftrightarrow> n = k" "nat_json n \<noteq> JNull" "strs_json a = strs_json b \<longleftrightarrow> a = b" "strs_json a \<noteq> JNull"
  "json_object kvs \<noteq> JNull"
  by (simp_all add: nat_json_def strs_json_def json_object_def inj_map_eq_map inj_on_def)

lemma opt_json_inject [simp]:
  "opt_json nat_json p = opt_json nat_json q \<longleftrightarrow> p = q" "opt_json JString s = opt_json JString t \<longleftrightarrow> s = t"
  "opt_json strs_json a = opt_json strs_json b \<longleftrightarrow> a = b"
  by (rule opt_json_eq; simp)+

lemma uint_inject [simp]: "uint a = uint b \<longleftrightarrow> a = b"
  by (simp add: word_uint_eq_iff)

lemma map_of_json_object:
  "distinct (map fst kvs) \<Longrightarrow> map_of (fill_map [] kvs) = map_of kvs"
  by (simp add: map_of_fill map_of_rev_distinct)

text \<open>Two objects with the same keys in the same order are equal exactly when their values are.\<close>

lemma json_object_eq:
  assumes "map fst a = map fst b" and "distinct (map fst a)"
  shows "json_object a = json_object b \<longleftrightarrow> a = b"
proof
  assume "json_object a = json_object b"
  then have "map_of a = map_of b"
    using assms map_of_json_object [of a] map_of_json_object [of b] by (simp add: json_object_def)
  have entries: "map (\<lambda>k. (k, the (map_of m k))) (map fst m) = m" if "distinct (map fst m)" for m :: "(str \<times> json) list"
    using that by (auto simp: comp_def intro!: map_idI)
  from entries [of a] entries [of b] show "a = b"
    using assms \<open>map_of a = map_of b\<close> by metis
qed simp

lemma grpc_object_inject [simp]: "json_object (grpc_fields g) = json_object (grpc_fields g') \<longleftrightarrow> g = g'"
  by (cases g; cases g') (auto simp: json_object_eq grpc_fields_def)

lemma ssl_object_inject [simp]: "json_object (ssl_fields s) = json_object (ssl_fields s') \<longleftrightarrow> s = s'"
  by (cases s; cases s') (auto simp: json_object_eq ssl_fields_def)

lemma acl_object_inject [simp]: "json_object (acl_fields a) = json_object (acl_fields a') \<longleftrightarrow> a = a'"
  by (cases a; cases a') (auto simp: json_object_eq acl_fields_def)

lemma hiredis_object_inject [simp]: "json_object (hiredis_fields h) = json_object (hiredis_fields h') \<longleftrightarrow> h = h'"
  by (cases h; cases h') (auto simp: json_object_eq hiredis_fields_def)

lemma compat_object_inject [simp]: "json_object (compat_fields k) = json_object (compat_fields k') \<longleftrightarrow> k = k'"
  by (cases k; cases k') (auto simp: json_object_eq compat_fields_def)

lemma redis_auth_inject [simp]:
  "redis_auth_to_value a = redis_auth_to_value b \<longleftrightarrow> a = b" "redis_auth_to_value a \<noteq> JNull"
  by (cases a; cases b; simp add: strs_json_def inj_map_eq_map inj_on_def)+

lemma config_parts_inject [simp]:
  "opt_json (\<lambda>s. json_object (ssl_fields s)) p = opt_json (\<lambda>s. json_object (ssl_fields s)) p' \<longleftrightarrow> p = p'"
  "opt_json (\<lambda>as. JArray (map (\<lambda>a. json_object (acl_fields a)) as)) q =
     opt_json (\<lambda>as. JArray (map (\<lambda>a. json_object (acl_fields a)) as)) q' \<longleftrightarrow> q = q'"
  "opt_json redis_auth_to_value r = opt_json redis_auth_to_value r' \<longleftrightarrow> r = r'"
  "opt_json (\<lambda>h. json_object (hiredis_fields h)) s = opt_json (\<lambda>h. json_object (hiredis_fields h)) s' \<longleftrightarrow> s = s'"
  "opt_json (\<lambda>h. json_object (compat_fields h)) t = opt_json (\<lambda>h. json_object (compat_fields h)) t' \<longleftrightarrow> t = t'"
  "transport_mode_to_value m = transport_mode_to_value m' \<longleftrightarrow> m = m'"
  by (subst opt_json_eq; auto simp: inj_map_eq_map inj_on_def)+
    (auto simp: transport_mode_to_value_def split: transport_mode.splits)

definition no_legacy :: "config \<Rightarrow> bool" where
  "no_legacy c \<longleftrightarrow> legacy_http_threads c = None \<and> legacy_pool_size_per_thread c = None"

lemma config_keys [simp]: "map fst (config_fields c) = map fst (config_fields c')" "distinct (map fst (config_fields c))"
  by (simp_all add: config_fields_def)

lemma config_to_value_inject:
  assumes "no_legacy c" and "no_legacy c'" and "config_to_value c = config_to_value c'"
  shows "c = c'"
proof -
  have "config_fields c = config_fields c'"
    using assms(3) json_object_eq [OF config_keys] by (simp add: config_to_value_def)
  with assms(1,2) show ?thesis
    by (cases c; cases c') (simp add: config_fields_def no_legacy_def)
qed

end
