(* ===== verification/Bench_Process.thy ===== *)
theory Bench_Process
  imports Config_Serde
begin

text \<open>
  \<^verbatim>\<open>crates/redis-web-bench/src/process.rs\<close>: building and launching the server under test. What the operating
  system answers (cargo, files, processes, sockets) is a parameter; the order of the calls, the errors and
  the state of the child process at every exit are the model's.
\<close>

section \<open>The configuration of the launched server\<close>

definition prepare_runtime_config :: "json \<Rightarrow> transport_mode \<Rightarrow> u16 \<Rightarrow> (json, str) result" where
  "prepare_runtime_config j mode port =
     (case j of
        JObject m \<Rightarrow>
          let m1 = btree_insert ''verbosity'' (JNumber 0) m in
          (case mode of
             Rest \<Rightarrow>
               Ok (JObject (btree_insert ''http_port'' (JNumber (uint port))
                 (btree_insert ''http_host'' (JString ''127.0.0.1'') m1)))
           | Grpc \<Rightarrow>
               (case (case map_of m1 ''grpc'' of Some g \<Rightarrow> g | None \<Rightarrow> JObject []) of
                  JObject g \<Rightarrow>
                    Ok (JObject (btree_insert ''grpc''
                      (JObject (btree_insert ''port'' (JNumber (uint port))
                        (btree_insert ''host'' (JString ''127.0.0.1'') g))) m1))
                | _ \<Rightarrow> Err ''grpc config should be an object''))
      | _ \<Rightarrow> Err ''serialized config should be an object'')"

section \<open>Building\<close>

definition bin_name :: "transport_mode \<Rightarrow> str" where
  "bin_name mode = (case mode of Rest \<Rightarrow> ''redis-web'' | Grpc \<Rightarrow> ''redis-web-grpc'')"

text \<open>A binary is built once per process: the modes already built are the state of the two \<^verbatim>\<open>OnceLock\<close>s.\<close>

definition ensure_binary_for_mode ::
  "(str \<Rightarrow> (bool, str) result) \<Rightarrow> transport_mode set \<Rightarrow> transport_mode \<Rightarrow> transport_mode set \<times> (unit, str) result" where
  "ensure_binary_for_mode cargo_build built mode =
     (if mode \<in> built then (built, Ok ())
      else case cargo_build (bin_name mode) of
          Err _ \<Rightarrow> (built, Err (''failed to build '' @ bin_name mode @ '' benchmark target''))
        | Ok success \<Rightarrow>
            if success then (insert mode built, Ok ())
            else (built, Err (''cargo build -p redis-web --bin '' @ bin_name mode @ '' --release failed'')))"

definition binary_path_for_mode :: "(str \<Rightarrow> bool) \<Rightarrow> str \<Rightarrow> transport_mode \<Rightarrow> (str, str) result" where
  "binary_path_for_mode exists workspace_root mode =
     (let path = workspace_root @ ''/target/release/'' @ bin_name mode in
      if exists path then Ok path else Err (''expected redis-web binary at '' @ path))"

section \<open>Waiting for the server\<close>

datatype readiness = Ready | ExitedEarly str | WaitFailed str | NotReady

text \<open>One attempt: a connection in time ends the wait, and so does the exit of the process.\<close>

fun await_ready :: "(nat \<Rightarrow> bool) \<Rightarrow> (nat \<Rightarrow> (str option, str) result) \<Rightarrow> nat \<Rightarrow> nat \<Rightarrow> readiness" where
  "await_ready connects try_wait i 0 = NotReady"
| "await_ready connects try_wait i (Suc n) =
     (if connects i then Ready
      else case try_wait i of
          Err e \<Rightarrow> WaitFailed e
        | Ok (Some st) \<Rightarrow> ExitedEarly st
        | Ok None \<Rightarrow> await_ready connects try_wait (Suc i) n)"

definition READY_ATTEMPTS :: nat where "READY_ATTEMPTS = 80"

section \<open>Launching\<close>

record launched_server =
  server_port :: u16

definition http_base_url :: "launched_server \<Rightarrow> str" where
  "http_base_url s = ''http://127.0.0.1:'' @ dec (unat (server_port s))"

definition grpc_endpoint :: "launched_server \<Rightarrow> str" where
  "grpc_endpoint s = ''http://127.0.0.1:'' @ dec (unat (server_port s))"

definition websocket_url :: "launched_server \<Rightarrow> str" where
  "websocket_url s = ''ws://127.0.0.1:'' @ dec (unat (server_port s)) @ ''/.json''"

datatype child = NotSpawned | Running | Exited | Killed

record launch_lib =
  cargo_build :: "str \<Rightarrow> (bool, str) result"
  path_exists :: "str \<Rightarrow> bool"
  make_tempdir :: "(str, str) result"
  pick_unused_local_port :: "(u16, str) result"
  pretty :: "json \<Rightarrow> (str, str) result"
  prepare_files :: "str \<Rightarrow> str \<Rightarrow> (unit, str) result"
  spawn :: "str \<Rightarrow> str \<Rightarrow> (unit, str) result"
  connects :: "u16 \<Rightarrow> nat \<Rightarrow> bool"
  try_wait :: "nat \<Rightarrow> (str option, str) result"
  stderr_text :: str

text \<open>Creating the files before the process starts: the written configuration and the two logs.\<close>

definition launch_process ::
  "launch_lib \<Rightarrow> str \<Rightarrow> str \<Rightarrow> u16 \<Rightarrow> child \<times> (launched_server, str) result" where
  "launch_process L binary config_path port =
     (case spawn L binary config_path of
        Err _ \<Rightarrow> (NotSpawned, Err ''failed to spawn redis-web benchmark target'')
      | Ok _ \<Rightarrow>
          (case await_ready (connects L port) (try_wait L) 0 READY_ATTEMPTS of
             Ready \<Rightarrow> (Running, Ok \<lparr>server_port = port\<rparr>)
           | ExitedEarly st \<Rightarrow>
               (Exited, Err (''redis-web exited before becoming ready (status: '' @ st @ ''). stderr:'' @
                 [CHR 0x0A] @ stderr_text L))
           | WaitFailed e \<Rightarrow> (Running, Err e)
           | NotReady \<Rightarrow>
               (Killed, Err (''redis-web did not become ready on port '' @ dec (unat port) @ ''. stderr:'' @
                 [CHR 0x0A] @ stderr_text L))))"

definition start ::
  "launch_lib \<Rightarrow> str \<Rightarrow> transport_mode set \<Rightarrow> config \<Rightarrow>
   transport_mode set \<times> child \<times> (launched_server, str) result" where
  "start L workspace_root built c =
     (case ensure_binary_for_mode (cargo_build L) built (transport_mode c) of
        (built', Err e) \<Rightarrow> (built', NotSpawned, Err e)
      | (built', Ok _) \<Rightarrow>
          (built',
           case binary_path_for_mode (path_exists L) workspace_root (transport_mode c) of
             Err e \<Rightarrow> (NotSpawned, Err e)
           | Ok binary \<Rightarrow>
               (case make_tempdir L of
                  Err _ \<Rightarrow> (NotSpawned, Err ''failed to create tempdir for benchmark run'')
                | Ok dir \<Rightarrow>
                    (case pick_unused_local_port L of
                       Err e \<Rightarrow> (NotSpawned, Err e)
                     | Ok port \<Rightarrow>
                         (case prepare_runtime_config (config_to_value c) (transport_mode c) port of
                            Err e \<Rightarrow> (NotSpawned, Err e)
                          | Ok j \<Rightarrow>
                              (case pretty L j of
                                 Err e \<Rightarrow> (NotSpawned, Err e)
                               | Ok text \<Rightarrow>
                                   (case prepare_files L dir (text @ [CHR 0x0A]) of
                                      Err e \<Rightarrow> (NotSpawned, Err e)
                                    | Ok _ \<Rightarrow> launch_process L binary (dir @ ''/redis-web.bench.json'') port)))))))"

section \<open>What the launched server reads\<close>

text \<open>The configuration under test, listening on the given local port, and silent.\<close>

definition runtime_config :: "config \<Rightarrow> transport_mode \<Rightarrow> u16 \<Rightarrow> config" where
  "runtime_config c mode port =
     (case mode of
        Rest \<Rightarrow> c\<lparr>verbosity := Some 0, http_host := ''127.0.0.1'', http_port := port\<rparr>
      | Grpc \<Rightarrow> c\<lparr>verbosity := Some 0, grpc := (grpc c)\<lparr>grpc_host := ''127.0.0.1'', grpc_port := port\<rparr>\<rparr>)"

text \<open>Writing an entry of an object that has it already is an update of that field.\<close>

definition update_field :: "str \<Rightarrow> json \<Rightarrow> (str \<times> json) list \<Rightarrow> (str \<times> json) list" where
  "update_field k v kvs = map (\<lambda>(k', v'). (k', if k' = k then v else v')) kvs"

lemma update_field_keys [simp]: "map fst (update_field k v kvs) = map fst kvs"
  by (simp add: update_field_def comp_def case_prod_beta)

lemma map_of_update_field: "k \<in> fst ` set kvs \<Longrightarrow> map_of (update_field k v kvs) = (map_of kvs)(k \<mapsto> v)"
  unfolding update_field_def
proof (induction kvs)
  case (Cons kv kvs)
  have "map_of (map (\<lambda>(k', v'). (k', if k' = k then v else v')) kvs) = map_of kvs" if "k \<notin> fst ` set kvs"
    using that by (intro arg_cong [where f = map_of] map_idI) force
  with Cons show ?case
    by (cases kv; cases "k \<in> fst ` set kvs") (auto simp: fun_eq_iff)
qed simp

lemma insert_fill_map:
  assumes "distinct (map fst kvs)" and "k \<in> set (map fst kvs)"
  shows "btree_insert k v (fill_map [] kvs) = fill_map [] (update_field k v kvs)"
  using assms by (intro btree_unique)
    (auto simp: map_of_btree_insert map_of_json_object map_of_update_field intro!: btree_ok_insert btree_ok_fill)

lemma config_entry [simp]:
  "k \<in> {''verbosity'', ''http_host'', ''http_port'', ''grpc''} \<Longrightarrow> k \<in> fst ` set (config_fields c)"
  "k \<in> {''host'', ''port''} \<Longrightarrow> k \<in> fst ` set (grpc_fields g)" "distinct (map fst (grpc_fields g))"
  by (auto simp: config_fields_def grpc_fields_def)

lemma grpc_fields_update:
  "update_field ''port'' (JNumber (uint port)) (update_field ''host'' (JString h) (grpc_fields g)) =
     grpc_fields (g\<lparr>grpc_host := h, grpc_port := port\<rparr>)"
  by (simp add: update_field_def grpc_fields_def)

lemma prepare_runtime_config_value:
  "prepare_runtime_config (config_to_value c) mode port = Ok (config_to_value (runtime_config c mode port))"
proof (cases mode)
  case Rest
  have "update_field ''http_port'' (JNumber (uint port)) (update_field ''http_host'' (JString ''127.0.0.1'')
      (update_field ''verbosity'' (JNumber 0) (config_fields c))) = config_fields (runtime_config c Rest port)"
    by (simp add: update_field_def config_fields_def runtime_config_def nat_json_def)
  with Rest show ?thesis
    by (simp add: prepare_runtime_config_def config_to_value_def json_object_def insert_fill_map)
next
  case Grpc
  let ?g = "(grpc c)\<lparr>grpc_host := ''127.0.0.1'', grpc_port := port\<rparr>"
  have "map_of (config_fields c) ''grpc'' = Some (JObject (fill_map [] (grpc_fields (grpc c))))"
    by (simp add: config_fields_def json_object_def)
  moreover have "update_field ''grpc'' (JObject (fill_map [] (grpc_fields ?g)))
      (update_field ''verbosity'' (JNumber 0) (config_fields c)) = config_fields (runtime_config c Grpc port)"
    by (simp add: update_field_def config_fields_def runtime_config_def nat_json_def json_object_def)
  ultimately show ?thesis
    using Grpc by (simp add: prepare_runtime_config_def config_to_value_def json_object_def insert_fill_map
        map_of_json_object map_of_update_field grpc_fields_update)
qed

lemma env_subst_closed:
  "env_refs j = [] \<Longrightarrow> env_subst env j = j"
  "env_refs_items js = [] \<Longrightarrow> env_subst_items env js = js"
  "env_refs_entries m = [] \<Longrightarrow> env_subst_entries env m = m"
  by (induction env j and env js and env m rule: env_subst_env_subst_items_env_subst_entries.induct)
    (auto split: option.splits)

lemma no_legacy_runtime [simp]: "no_legacy (runtime_config c mode port) = no_legacy c"
  by (cases mode) (simp_all add: runtime_config_def no_legacy_def)

lemma apply_legacy_none: "no_legacy c \<Longrightarrow> apply_legacy_aliases c = c"
  by (cases c) (simp add: no_legacy_def apply_legacy_aliases_def)

text \<open>C30. The launched server runs the configuration under test: what it loads from the file written for it is that
  configuration, except that it is silent and listens on the chosen local port, given that deserialising
  reverses serialising and that no value of the file is a placeholder.\<close>

theorem launched_server_config:
  assumes "\<And>c. no_legacy c \<Longrightarrow> deserialize (config_to_value c) = Ok c" and "no_legacy c"
    and "env_refs (config_to_value (runtime_config c mode port)) = []"
  shows "\<exists>j. prepare_runtime_config (config_to_value c) mode port = Ok j \<and>
    from_value deserialize env j = Ok (runtime_config c mode port)"
proof -
  let ?c = "runtime_config c mode port"
  have "expand_env_vars_in_json env [] (config_to_value ?c) = Ok (config_to_value ?c)"
    using expand_env_defined(1) [of "config_to_value ?c" env "[]"] env_subst_closed(1) [of "config_to_value ?c" env]
      assms(3) by simp
  moreover have "from_value deserialize env (config_to_value ?c) = from_json_value deserialize env (config_to_value ?c)"
    by (simp add: from_value_def config_to_value_def json_object_def)
  ultimately show ?thesis
    using assms(1) [of ?c] assms(2)
    by (simp add: prepare_runtime_config_value from_json_value_def apply_legacy_none)
qed

definition sample_deserialize :: "json \<Rightarrow> (config, str) result" where
  "sample_deserialize j = Ok (inv_into (Collect no_legacy) config_to_value j)"

lemma sample_deserialize: "no_legacy c \<Longrightarrow> sample_deserialize (config_to_value c) = Ok c"
  unfolding sample_deserialize_def
  by (subst inv_into_f_f) (auto simp: inj_on_def intro: config_to_value_inject)

lemma env_refs_object:
  assumes "\<forall>kv \<in> set kvs. env_refs (snd kv) = []"
  shows "env_refs (json_object kvs) = []"
proof -
  have entries: "env_refs_entries m = []" if "\<forall>kv \<in> set m. env_refs (snd kv) = []" for m
    using that by (induction m) auto
  have inserted: "set (btree_insert k v m) \<subseteq> insert (k, v) (set m)" for k m and v :: json
    by (induction m rule: btree_insert.induct) auto
  have "set (fill_map m kvs) \<subseteq> set m \<union> set kvs" for m :: "(str \<times> json) list"
    unfolding fill_map_def
  proof (induction kvs arbitrary: m)
    case (Cons kv kvs)
    then show ?case
      using inserted [of "fst kv" "snd kv" m] by (cases kv) fastforce
  qed simp
  from this [of "[]"] assms show ?thesis
    unfolding json_object_def by (auto intro!: entries)
qed

theorem launched_server_config_witness:
  "\<exists>j. prepare_runtime_config (config_to_value default_config) Rest 8080 = Ok j \<and>
    from_value sample_deserialize Map.empty j = Ok (runtime_config default_config Rest 8080)"
proof (rule launched_server_config [OF sample_deserialize])
  show "no_legacy default_config" by (simp add: no_legacy_def default_config_def)
  show "env_refs (config_to_value (runtime_config default_config Rest 8080)) = []"
    unfolding config_to_value_def
    by (rule env_refs_object) (simp add: config_fields_def runtime_config_def default_config_def default_grpc_def
        default_redis_host_def transport_mode_to_value_def nat_json_def placeholder_def env_refs_object grpc_fields_def)
qed

section \<open>No server is left behind\<close>

lemma await_ready_Ready: "await_ready connects_at wait_at i n = Ready \<Longrightarrow> \<exists>k < i + n. connects_at k"
  by (induction connects_at wait_at i n rule: await_ready.induct)
    (auto split: if_splits sum.splits option.splits, meson le_add1 le_imp_less_Suc)

lemma await_ready_WaitFailed: "await_ready connects_at wait_at i n = WaitFailed e \<Longrightarrow> \<exists>k < i + n. wait_at k = Err e"
  by (induction connects_at wait_at i n rule: await_ready.induct)
    (auto split: if_splits sum.splits option.splits, meson le_add1 le_imp_less_Suc)

lemma launch_process_running:
  assumes "launch_process L binary config_path port = (proc, res)"
  shows "(\<forall>s. res = Ok s \<longrightarrow> proc = Running \<and> server_port s = port \<and> (\<exists>k < READY_ATTEMPTS. connects L port k)) \<and>
    (\<forall>e. res = Err e \<longrightarrow> proc = Running \<longrightarrow> (\<exists>k < READY_ATTEMPTS. try_wait L k = Err e))"
  using assms await_ready_Ready [of "connects L port" "try_wait L" 0 READY_ATTEMPTS]
    await_ready_WaitFailed [of "connects L port" "try_wait L" 0 READY_ATTEMPTS]
  by (auto simp: launch_process_def split: sum.splits readiness.splits)

lemma start_running:
  assumes "start L workspace_root built c = (built', proc, res)"
  shows "(\<forall>s. res = Ok s \<longrightarrow> proc = Running \<and> (\<exists>k < READY_ATTEMPTS. connects L (server_port s) k)) \<and>
    (\<forall>e. res = Err e \<longrightarrow> proc = Running \<longrightarrow> (\<exists>k < READY_ATTEMPTS. try_wait L k = Err e))"
  using assms
  by (auto simp: start_def split: sum.splits prod.splits dest!: launch_process_running)


definition sample_launch :: launch_lib where
  "sample_launch =
     \<lparr>cargo_build = (\<lambda>_. Ok True), path_exists = (\<lambda>_. True), make_tempdir = Ok ''/tmp/t'',
      pick_unused_local_port = Ok 8080, pretty = (\<lambda>_. Ok ''{}''), prepare_files = (\<lambda>_ _. Ok ()),
      spawn = (\<lambda>_ _. Ok ()), connects = (\<lambda>_ k. k = 1), try_wait = (\<lambda>_. Ok None), stderr_text = []\<rparr>"

lemma sample_start:
  "start sample_launch w built c = (insert (transport_mode c) built, Running, Ok \<lparr>server_port = 8080\<rparr>)"
proof -
  have "ensure_binary_for_mode (cargo_build sample_launch) built m = (insert m built, Ok ())" for m
    by (simp add: ensure_binary_for_mode_def sample_launch_def insert_absorb)
  moreover have "launch_process sample_launch b p 8080 = (Running, Ok \<lparr>server_port = 8080\<rparr>)" for b p
    by (simp add: launch_process_def sample_launch_def READY_ATTEMPTS_def eval_nat_numeral)
  moreover have "binary_path_for_mode (path_exists sample_launch) w m = Ok (w @ ''/target/release/'' @ bin_name m)" for m
    by (simp add: binary_path_for_mode_def sample_launch_def)
  moreover have "make_tempdir sample_launch = Ok ''/tmp/t''" "pick_unused_local_port sample_launch = Ok 8080"
      "pretty sample_launch j = Ok ''{}''" "prepare_files sample_launch d f = Ok ()" for j d f
    by (simp_all add: sample_launch_def)
  ultimately show ?thesis
    by (simp add: start_def prepare_runtime_config_value)
qed


end
