(* ===== verification/Bench_Run.thy ===== *)
theory Bench_Run
  imports Bench_Suites Bench_Report Bench_Process
begin

text \<open>
  A whole comparison: \<^verbatim>\<open>lib.rs\<close>, \<^verbatim>\<open>summary.rs\<close>, the spec loader of \<^verbatim>\<open>spec.rs\<close> and \<^verbatim>\<open>benchmark_variant\<close> of
  \<^verbatim>\<open>suites.rs\<close>, in \<^verbatim>\<open>crates/redis-web-bench/src\<close>. The spec is resolved, every variant's configuration is
  built before the first server starts, the variants run one after the other, and the artifacts are
  written at the end. Clock, parsers and the runs of the workloads are parameters.
\<close>

section \<open>Paths\<close>

text \<open>Paths without doubled or trailing separators, as \<^verbatim>\<open>std::path\<close> reads them.\<close>

abbreviation slash :: char where "slash \<equiv> CHR ''/''"

definition is_absolute :: "str \<Rightarrow> bool" where
  "is_absolute p \<longleftrightarrow> p \<noteq> [] \<and> hd p = slash"

definition path_join :: "str \<Rightarrow> str \<Rightarrow> str" where
  "path_join base p =
     (if is_absolute p \<or> base = [] then p else if last base = slash then base @ p else base @ [slash] @ p)"

definition file_name :: "str \<Rightarrow> str" where
  "file_name p = last (split_on slash p)"

definition parent :: "str \<Rightarrow> str option" where
  "parent p =
     (if p = [] \<or> p = [slash] then None
      else let dir = intercalate [slash] (butlast (split_on slash p)) in
        Some (if dir = [] \<and> is_absolute p then [slash] else dir))"

definition extension :: "str \<Rightarrow> str option" where
  "extension p =
     (let parts = split_on (CHR ''.'') (file_name p) in
      if length parts < 2 \<or> (length parts = 2 \<and> hd parts = []) \<or> file_name p = ''..'' then None else Some (last parts))"

section \<open>The spec\<close>

record variant_spec =
  variant_name :: str
  variant_overrides :: json

record compare_spec =
  spec_base_config :: str
  spec_output_dir :: "str option"
  spec_variants :: "variant_spec list"

record resolved_spec =
  resolved_base_config :: str
  output_root :: str
  resolved_variants :: "variant_spec list"

definition resolve_relative :: "str \<Rightarrow> str \<Rightarrow> str" where
  "resolve_relative base_dir p = (if is_absolute p then p else path_join base_dir p)"

text \<open>The calls of the runner: parsers, clock, environment, and what the file system allows.\<close>

record bench_lib =
  current_dir :: "(str, str) result"
  spec_from_json :: "bytes \<Rightarrow> (compare_spec, str) result"
  spec_from_yaml :: "bytes \<Rightarrow> (compare_spec, str) result"
  json_from_str :: "bytes \<Rightarrow> (json, str) result"
  config_from_json :: "json \<Rightarrow> (config, str) result"
  process_env :: "str \<rightharpoonup> str"
  timestamp :: str
  rfc3339_now :: str
  git_head :: "(bool \<times> bytes) option" \<comment> \<open>\<^verbatim>\<open>git rev-parse HEAD\<close>: success and output, if it could be run\<close>
  host_os :: str
  host_arch :: str
  host_parallelism :: "nat option"
  create_dir_all :: "str \<Rightarrow> (unit, str) result"
  write_allowed :: "str \<Rightarrow> (unit, str) result"
  results_pretty :: "benchmark_results \<Rightarrow> (str, str) result"
  results_from_str :: "bytes \<Rightarrow> (benchmark_results, str) result"

type_synonym disk = "str \<rightharpoonup> bytes"

definition read_environment :: "bench_lib \<Rightarrow> environment_summary" where
  "read_environment B =
     \<lparr>env_hostname = (case process_env B ''HOSTNAME'' of
          Some h \<Rightarrow> Some h | None \<Rightarrow> process_env B ''COMPUTERNAME''),
      env_os = host_os B, env_arch = host_arch B,
      cpu_parallelism = (case host_parallelism B of Some n \<Rightarrow> n | None \<Rightarrow> 1)\<rparr>"

definition git_sha :: "bench_lib \<Rightarrow> str option" where
  "git_sha B =
     (case git_head B of
        None \<Rightarrow> None
      | Some (success, stdout) \<Rightarrow> if \<not> success \<or> \<not> utf8_valid stdout then None else Some (trim stdout))"

definition parse_spec :: "bench_lib \<Rightarrow> str \<Rightarrow> bytes \<Rightarrow> (compare_spec, str) result" where
  "parse_spec B path b =
     (case extension path of
        Some e \<Rightarrow>
          if e = ''json'' then
            (case spec_from_json B b of Err _ \<Rightarrow> Err (''failed to parse JSON spec '' @ path) | Ok s \<Rightarrow> Ok s)
          else if e = ''yaml'' \<or> e = ''yml'' then
            (case spec_from_yaml B b of Err _ \<Rightarrow> Err (''failed to parse YAML spec '' @ path) | Ok s \<Rightarrow> Ok s)
          else
            (case spec_from_yaml B b of
               Ok s \<Rightarrow> Ok s
             | Err _ \<Rightarrow> (case spec_from_json B b of
                 Ok s \<Rightarrow> Ok s | Err _ \<Rightarrow> Err (''failed to parse YAML or JSON spec '' @ path)))
      | None \<Rightarrow>
          (case spec_from_yaml B b of
             Ok s \<Rightarrow> Ok s
           | Err _ \<Rightarrow> (case spec_from_json B b of
               Ok s \<Rightarrow> Ok s | Err _ \<Rightarrow> Err (''failed to parse YAML or JSON spec '' @ path))))"

definition resolve_spec :: "bench_lib \<Rightarrow> disk \<Rightarrow> str \<Rightarrow> str \<Rightarrow> (resolved_spec, str) result" where
  "resolve_spec B fs spec_path workspace_root =
     (case (if is_absolute spec_path then Ok spec_path
            else case current_dir B of
                Err _ \<Rightarrow> Err ''failed to read current directory''
              | Ok d \<Rightarrow> Ok (path_join d spec_path)) of
        Err e \<Rightarrow> Err e
      | Ok abspath \<Rightarrow>
          (case parent abspath of
             None \<Rightarrow> Err (''spec path has no parent: '' @ abspath)
           | Some dir \<Rightarrow>
               (case fs abspath of
                  None \<Rightarrow> Err (''failed to read spec '' @ abspath)
                | Some b \<Rightarrow>
                    (case parse_spec B abspath b of
                       Err e \<Rightarrow> Err e
                     | Ok s \<Rightarrow>
                         Ok \<lparr>resolved_base_config = resolve_relative dir (spec_base_config s),
                             output_root = (case spec_output_dir s of
                                 Some p \<Rightarrow> resolve_relative dir p
                               | None \<Rightarrow> path_join workspace_root ''target/perf''),
                             resolved_variants = spec_variants s\<rparr>))))"

definition load_json_value :: "bench_lib \<Rightarrow> disk \<Rightarrow> str \<Rightarrow> (json, str) result" where
  "load_json_value B fs path =
     (case fs path of
        None \<Rightarrow> Err (''failed to read config '' @ path)
      | Some b \<Rightarrow>
          (case json_from_str B b of
             Err _ \<Rightarrow> Err (''failed to parse JSON config '' @ path) | Ok j \<Rightarrow> Ok j))"

section \<open>One variant\<close>

definition bench_endpoint_summary :: "config \<Rightarrow> str" where
  "bench_endpoint_summary c =
     (case redis_socket c of
        Some socket \<Rightarrow> ''unix://'' @ socket @ '' (db='' @ dec (unat (database c)) @ '')''
      | None \<Rightarrow>
          redis_host c @ '':'' @ dec (unat (redis_port c)) @ '' (db='' @ dec (unat (database c)) @
          '', tls='' @ (if ssl_enabled c then ''true'' else ''false'') @ '')'')"

text \<open>How the workloads run against a server: its client, a measurement, and the two streaming workloads.\<close>

record 's bench_world =
  world_client :: "launched_server \<Rightarrow> 's client"
  world_measure :: "launched_server \<Rightarrow> nat \<Rightarrow> nat \<Rightarrow> 's measure"
  world_startup :: "launched_server \<Rightarrow> str \<Rightarrow> transport_mode \<Rightarrow> streaming_suite_config \<Rightarrow> 's \<Rightarrow> 's \<times> metric_summary option"
  world_delivery :: "launched_server \<Rightarrow> str \<Rightarrow> transport_mode \<Rightarrow> streaming_suite_config \<Rightarrow> 's \<Rightarrow> 's \<times> metric_summary option"

definition streaming_suite ::
  "'s bench_world \<Rightarrow> launched_server \<Rightarrow> str \<Rightarrow> config \<Rightarrow> streaming_suite_config \<Rightarrow> 's \<Rightarrow> 's \<times> suite_result option" where
  "streaming_suite W server name c suite s =
     (case world_startup W server name (transport_mode c) suite s of
        (s1, None) \<Rightarrow> (s1, None)
      | (s1, Some m) \<Rightarrow>
          (case world_delivery W server name (transport_mode c) suite s1 of
             (s2, d) \<Rightarrow> (s2, run_streaming_suite (Some m) d)))"

definition variant_suites ::
  "'s bench_world \<Rightarrow> launched_server \<Rightarrow> suite_registry \<Rightarrow> variant_run_context \<Rightarrow> 's \<Rightarrow> 's \<times> suite_result list option" where
  "variant_suites W server reg ctx s =
     (let name = vctx_name ctx; c = vctx_config ctx; client = world_client W server;
          commands = common_commands reg; cache = read_heavy_cache reg; sockets = websocket_commands reg
      in case run_common_commands_suite client
             (world_measure W server (measured_ops commands) (concurrency commands)) name c commands s of
        (s1, None) \<Rightarrow> (s1, None)
      | (s1, Some r1) \<Rightarrow>
          (case run_read_heavy_cache_suite client
                  (world_measure W server (measured_ops cache) (concurrency cache)) name c cache s1 of
             (s2, None) \<Rightarrow> (s2, None)
           | (s2, Some r2) \<Rightarrow>
               (case run_websocket_commands_suite client
                       (world_measure W server (ws_measured_ops sockets) (persistent_connections sockets))
                       name c sockets s2 of
                  (s3, None) \<Rightarrow> (s3, None)
                | (s3, Some r3) \<Rightarrow>
                    (case streaming_suite W server name c (streaming reg) s3 of
                       (s4, None) \<Rightarrow> (s4, None)
                     | (s4, Some r4) \<Rightarrow> (s4, Some [r1, r2, r3, r4])))))"

text \<open>
  The state of a comparison: the binaries built, and the world the workloads act on. The text of a
  workload's error is not modelled: a failing suite gives one fixed message.
\<close>

definition benchmark_variant ::
  "launch_lib \<Rightarrow> 's bench_world \<Rightarrow> str \<Rightarrow> suite_registry \<Rightarrow> variant_run_context \<Rightarrow> transport_mode set \<times> 's \<Rightarrow>
   (transport_mode set \<times> 's) \<times> (variant_benchmark_result, str) result" where
  "benchmark_variant L W workspace_root reg ctx bs =
     (case start L workspace_root (fst bs) (vctx_config ctx) of
        (built, _, Err _) \<Rightarrow>
          ((built, snd bs), Err (''failed to start redis-web for variant `'' @ vctx_name ctx @ ''`''))
      | (built, _, Ok server) \<Rightarrow>
          (case variant_suites W server reg ctx (snd bs) of
             (s', None) \<Rightarrow> ((built, s'), Err ''benchmark failed'')
           | (s', Some suites) \<Rightarrow>
               ((built, s'),
                Ok \<lparr>run_name = vctx_name ctx, run_endpoint = bench_endpoint_summary (vctx_config ctx),
                    run_transport = transport_mode_name (transport_mode (vctx_config ctx)),
                    run_diff = vctx_diff ctx, run_suites = suites\<rparr>)))"

section \<open>The comparison\<close>

fun variant_contexts ::
  "externals \<Rightarrow> bench_lib \<Rightarrow> json \<Rightarrow> json \<Rightarrow> variant_spec list \<Rightarrow> (variant_run_context list, str) result" where
  "variant_contexts X B base_raw baseline_value [] = Ok []"
| "variant_contexts X B base_raw baseline_value (v # vs) =
     (case build_variant_context X (config_from_json B) (\<lambda>c. Ok (config_to_value c)) (process_env B)
             (variant_name v) base_raw (variant_overrides v) (Some baseline_value) of
        Err e \<Rightarrow> Err e
      | Ok (ctx, _) \<Rightarrow>
          (case variant_contexts X B base_raw baseline_value vs of Err e \<Rightarrow> Err e | Ok cs \<Rightarrow> Ok (ctx # cs)))"

definition comparison_contexts ::
  "externals \<Rightarrow> bench_lib \<Rightarrow> json \<Rightarrow> variant_spec list \<Rightarrow> (variant_run_context list, str) result" where
  "comparison_contexts X B base_raw variants =
     (case build_variant_context X (config_from_json B) (\<lambda>c. Ok (config_to_value c)) (process_env B)
             ''baseline'' base_raw (JObject []) None of
        Err e \<Rightarrow> Err e
      | Ok (baseline, baseline_value) \<Rightarrow>
          (case variant_contexts X B base_raw baseline_value variants of
             Err e \<Rightarrow> Err e | Ok cs \<Rightarrow> Ok (baseline # cs)))"

fun benchmark_all ::
  "launch_lib \<Rightarrow> 's bench_world \<Rightarrow> str \<Rightarrow> suite_registry \<Rightarrow> variant_run_context list \<Rightarrow> transport_mode set \<times> 's \<Rightarrow>
   (transport_mode set \<times> 's) \<times> (variant_benchmark_result list, str) result" where
  "benchmark_all L W workspace_root reg [] bs = (bs, Ok [])"
| "benchmark_all L W workspace_root reg (ctx # cs) bs =
     (case benchmark_variant L W workspace_root reg ctx bs of
        (bs1, Err e) \<Rightarrow> (bs1, Err e)
      | (bs1, Ok r) \<Rightarrow>
          (case benchmark_all L W workspace_root reg cs bs1 of
             (bs2, Err e) \<Rightarrow> (bs2, Err e) | (bs2, Ok rs) \<Rightarrow> (bs2, Ok (r # rs))))"

definition write_file :: "bench_lib \<Rightarrow> disk \<Rightarrow> str \<Rightarrow> bytes \<Rightarrow> disk \<times> (unit, str) result" where
  "write_file B fs path b =
     (case write_allowed B path of
        Err _ \<Rightarrow> (fs, Err (''failed to write '' @ path)) | Ok _ \<Rightarrow> (fs(path \<mapsto> b), Ok ()))"

definition write_artifacts ::
  "externals \<Rightarrow> bench_lib \<Rightarrow> disk \<Rightarrow> str \<Rightarrow> benchmark_results \<Rightarrow> disk \<times> (str, str) result" where
  "write_artifacts X B fs dir results =
     (case results_pretty B results of
        Err e \<Rightarrow> (fs, Err e)
      | Ok text \<Rightarrow>
          (case write_file B fs (path_join dir ''results.json'') (text @ newline) of
             (fs1, Err e) \<Rightarrow> (fs1, Err e)
           | (fs1, Ok _) \<Rightarrow>
               (case write_file B fs1 (path_join dir ''report.md'') (render_markdown_report X results) of
                  (fs2, Err e) \<Rightarrow> (fs2, Err e) | (fs2, Ok _) \<Rightarrow> (fs2, Ok dir))))"

definition comparison_results :: "bench_lib \<Rightarrow> variant_benchmark_result list \<Rightarrow> benchmark_results" where
  "comparison_results B rs =
     \<lparr>generated_at = rfc3339_now B, suite_version = BENCHMARK_SUITE_VERSION, results_git_sha = git_sha B,
      results_environment = read_environment B, baseline_name = ''baseline'', results_runs = rs\<rparr>"

definition run_compare_with_registry ::
  "externals \<Rightarrow> bench_lib \<Rightarrow> launch_lib \<Rightarrow> 's bench_world \<Rightarrow> str \<Rightarrow> str \<Rightarrow> suite_registry \<Rightarrow> disk \<Rightarrow> 's \<Rightarrow>
   disk \<times> (str, str) result" where
  "run_compare_with_registry X B L W workspace_root spec_path reg fs s =
     (case resolve_spec B fs spec_path workspace_root of
        Err e \<Rightarrow> (fs, Err e)
      | Ok spec \<Rightarrow>
          (case load_json_value B fs (resolved_base_config spec) of
             Err e \<Rightarrow> (fs, Err e)
           | Ok base_raw \<Rightarrow>
               (case comparison_contexts X B base_raw (resolved_variants spec) of
                  Err e \<Rightarrow> (fs, Err e)
                | Ok contexts \<Rightarrow>
                    let artifact_dir = path_join (output_root spec) (timestamp B) in
                    (case create_dir_all B artifact_dir of
                       Err _ \<Rightarrow> (fs, Err (''failed to create artifact directory '' @ artifact_dir))
                     | Ok _ \<Rightarrow>
                         (case benchmark_all L W workspace_root reg contexts ({}, s) of
                            (_, Err e) \<Rightarrow> (fs, Err e)
                          | (_, Ok rs) \<Rightarrow> write_artifacts X B fs artifact_dir (comparison_results B rs))))))"

definition run_compare ::
  "externals \<Rightarrow> bench_lib \<Rightarrow> launch_lib \<Rightarrow> 's bench_world \<Rightarrow> str \<Rightarrow> str \<Rightarrow> disk \<Rightarrow> 's \<Rightarrow> disk \<times> (str, str) result" where
  "run_compare X B L W workspace_root spec_path fs s =
     run_compare_with_registry X B L W workspace_root spec_path default_v1 fs s"

section \<open>Regenerating reports\<close>

definition regenerate_report_from_results ::
  "externals \<Rightarrow> bench_lib \<Rightarrow> disk \<Rightarrow> str \<Rightarrow> disk \<times> (str, str) result" where
  "regenerate_report_from_results X B fs results_path =
     (case fs results_path of
        None \<Rightarrow> (fs, Err (''failed to read '' @ results_path))
      | Some b \<Rightarrow>
          (case results_from_str B b of
             Err _ \<Rightarrow> (fs, Err (''failed to parse '' @ results_path))
           | Ok results \<Rightarrow>
               (case parent results_path of
                  None \<Rightarrow> (fs, Err (''results path has no parent: '' @ results_path))
                | Some dir \<Rightarrow>
                    let report_path = path_join dir ''report.md'' in
                    (case write_file B fs report_path (render_markdown_report X results) of
                       (fs1, Err e) \<Rightarrow> (fs1, Err e) | (fs1, Ok _) \<Rightarrow> (fs1, Ok report_path)))))"

text \<open>The entries of the root directory: each its path and whether it is a directory, or an error.\<close>

fun regenerate_entries ::
  "externals \<Rightarrow> bench_lib \<Rightarrow> disk \<Rightarrow> (str \<times> bool, str) result list \<Rightarrow> disk \<times> (str list, str) result" where
  "regenerate_entries X B fs [] = (fs, Ok [])"
| "regenerate_entries X B fs (entry # es) =
     (case entry of
        Err e \<Rightarrow> (fs, Err e)
      | Ok (path, is_dir) \<Rightarrow>
          let results_path = path_join path ''results.json'' in
          if \<not> is_dir \<or> fs results_path = None then regenerate_entries X B fs es
          else (case regenerate_report_from_results X B fs results_path of
              (fs1, Err e) \<Rightarrow> (fs1, Err e)
            | (fs1, Ok report) \<Rightarrow>
                (case regenerate_entries X B fs1 es of
                   (fs2, Err e) \<Rightarrow> (fs2, Err e) | (fs2, Ok rs) \<Rightarrow> (fs2, Ok (report # rs)))))"

text \<open>Paths are sorted component by component.\<close>

definition regenerate_reports_under ::
  "externals \<Rightarrow> bench_lib \<Rightarrow> disk \<Rightarrow> str \<Rightarrow> (((str \<times> bool, str) result) list, str) result \<Rightarrow>
   disk \<times> (str list, str) result" where
  "regenerate_reports_under X B fs dir entries =
     (case entries of
        Err _ \<Rightarrow> (fs, Err (''failed to read '' @ dir))
      | Ok es \<Rightarrow>
          (case regenerate_entries X B fs es of
             (fs1, Err e) \<Rightarrow> (fs1, Err e) | (fs1, Ok rs) \<Rightarrow> (fs1, Ok (sort_key (split_on slash) rs))))"

section \<open>The program\<close>

text \<open>\<^verbatim>\<open>main.rs\<close>: its two commands, and what it prints or the error it exits with.\<close>

datatype bench_command = Compare str | RenderReports str

definition bench_main ::
  "externals \<Rightarrow> bench_lib \<Rightarrow> launch_lib \<Rightarrow> 's bench_world \<Rightarrow> str \<Rightarrow>
   (str \<Rightarrow> ((str \<times> bool, str) result list, str) result) \<Rightarrow> bench_command \<Rightarrow> disk \<Rightarrow> 's \<Rightarrow> disk \<times> (str, str) result" where
  "bench_main X B L W workspace_root read_dir cmd fs s =
     (case cmd of
        Compare spec \<Rightarrow>
          (case run_compare X B L W workspace_root spec fs s of
             (fs', Err e) \<Rightarrow> (fs', Err e)
           | (fs', Ok dir) \<Rightarrow> (fs', Ok (''Wrote benchmark artifacts to '' @ dir @ newline)))
      | RenderReports dir \<Rightarrow>
          (case regenerate_reports_under X B fs dir (read_dir dir) of
             (fs', Err e) \<Rightarrow> (fs', Err e)
           | (fs', Ok reports) \<Rightarrow>
               (fs', Ok (''Regenerated '' @ dec (length reports) @ '' benchmark report(s) under '' @ dir @ newline))))"

section \<open>What a comparison produces\<close>

definition suite_order :: "str list" where
  "suite_order = [''common_commands'', ''read_heavy_cache'', ''websocket_commands'', ''streaming_pubsub'']"

definition reports_on :: "variant_run_context \<Rightarrow> variant_benchmark_result \<Rightarrow> bool" where
  "reports_on ctx r \<longleftrightarrow> run_name r = vctx_name ctx \<and> run_diff r = vctx_diff ctx \<and>
     map suite_name (run_suites r) = suite_order"

lemma completed_suite_name: "completed_suite n res = (s, Some r) \<Longrightarrow> suite_name r = n"
  by (auto simp: completed_suite_def split: prod.splits)

lemma suite_names_fixed:
  "run_common_commands_suite client m name c cmds s = (s', Some r) \<Longrightarrow> suite_name r = ''common_commands''"
  "run_read_heavy_cache_suite client m name c cmds s = (s', Some r) \<Longrightarrow> suite_name r = ''read_heavy_cache''"
  "run_websocket_commands_suite client m name c ws s = (s', Some r) \<Longrightarrow> suite_name r = ''websocket_commands''"
  "streaming_suite W server name c st s = (s', Some r) \<Longrightarrow> suite_name r = ''streaming_pubsub''"
proof -
  show "run_common_commands_suite client m name c cmds s = (s', Some r) \<Longrightarrow> suite_name r = ''common_commands''"
    unfolding run_common_commands_suite_def by (rule completed_suite_name)
  show "run_read_heavy_cache_suite client m name c cmds s = (s', Some r) \<Longrightarrow> suite_name r = ''read_heavy_cache''"
    unfolding run_read_heavy_cache_suite_def by (auto split: prod.splits bool.splits dest: completed_suite_name)
  show "run_websocket_commands_suite client m name c ws s = (s', Some r) \<Longrightarrow> suite_name r = ''websocket_commands''"
    unfolding run_websocket_commands_suite_def
    by (auto simp: skipped_suite_def split: if_splits dest: completed_suite_name)
  show "streaming_suite W server name c st s = (s', Some r) \<Longrightarrow> suite_name r = ''streaming_pubsub''"
    by (auto simp: streaming_suite_def run_streaming_suite_def split: prod.splits option.splits)
qed

lemma variant_suites_names: "variant_suites W server reg ctx s = (s', Some rs) \<Longrightarrow> map suite_name rs = suite_order"
  by (auto simp: variant_suites_def Let_def suite_order_def suite_names_fixed split: prod.splits option.splits)

lemma benchmark_variant_reports: "benchmark_variant L W w reg ctx bs = (bs', Ok r) \<Longrightarrow> reports_on ctx r"
  by (auto simp: benchmark_variant_def reports_on_def variant_suites_names split: prod.splits sum.splits option.splits)

lemma benchmark_all_reports: "benchmark_all L W w reg cs bs = (bs', Ok rs) \<Longrightarrow> list_all2 reports_on cs rs"
  by (induction L W w reg cs bs arbitrary: bs' rs rule: benchmark_all.induct)
    (auto split: prod.splits sum.splits dest: benchmark_variant_reports)

lemma variant_contexts_names: "variant_contexts X B j v vs = Ok cs \<Longrightarrow> map vctx_name cs = map variant_name vs"
  by (induction X B j v vs arbitrary: cs rule: variant_contexts.induct)
    (auto simp: build_variant_context_def split: sum.splits prod.splits)

lemma comparison_contexts_names:
  "comparison_contexts X B j vs = Ok cs \<Longrightarrow>
     map vctx_name cs = ''baseline'' # map variant_name vs \<and> vctx_diff (hd cs) = []"
  by (auto simp: comparison_contexts_def build_variant_context_def split: sum.splits prod.splits
      dest!: variant_contexts_names)

lemma reports_on_names: "list_all2 reports_on cs rs \<Longrightarrow> map run_name rs = map vctx_name cs"
  by (induction rule: list_all2_induct) (auto simp: reports_on_def)

lemma write_file_Ok: "write_file B fs p b = (fs', Ok u) \<longleftrightarrow> (\<exists>v. write_allowed B p = Ok v) \<and> u = () \<and> fs' = fs(p \<mapsto> b)"
  by (auto simp: write_file_def split: sum.splits)

lemma write_artifacts_Ok:
  assumes "write_artifacts X B fs dir results = (fs', Ok d)"
  shows "d = dir \<and> (\<exists>text. results_pretty B results = Ok text \<and>
    fs' = fs(path_join dir ''results.json'' \<mapsto> text @ newline,
             path_join dir ''report.md'' \<mapsto> render_markdown_report X results))"
  using assms by (auto simp: write_artifacts_def write_file_Ok split: sum.splits prod.splits)

lemma write_artifacts_Err:
  "write_artifacts X B fs dir results = (fs', Err e) \<Longrightarrow> \<forall>p. write_allowed B p = Ok () \<Longrightarrow> fs' = fs"
  by (auto simp: write_artifacts_def write_file_def split: sum.splits prod.splits)

lemma compare_Ok:
  assumes "run_compare_with_registry X B L W workspace_root spec_path reg fs s = (fs', Ok d)"
  shows "\<exists>spec cs bs rs base_raw. resolve_spec B fs spec_path workspace_root = Ok spec \<and>
    comparison_contexts X B base_raw (resolved_variants spec) = Ok cs \<and>
    benchmark_all L W workspace_root reg cs ({}, s) = (bs, Ok rs) \<and>
    write_artifacts X B fs d (comparison_results B rs) = (fs', Ok d)"
proof -
  have dir: "write_artifacts X B fs p r = (fs', Ok d) \<Longrightarrow> p = d" for p r
    by (blast dest: write_artifacts_Ok)
  show ?thesis
    using assms by (auto simp: run_compare_with_registry_def Let_def split: sum.splits prod.splits)
      (metis dir)
qed


text \<open>A comparison that fails leaves every file as it was, whatever it failed at, when the artifacts can be written.\<close>

theorem failed_comparison_keeps_files:
  assumes "run_compare_with_registry X B L W workspace_root spec_path reg fs s = (fs', Err e)"
    and "\<forall>p. write_allowed B p = Ok ()"
  shows "fs' = fs"
  using assms
  by (auto simp: run_compare_with_registry_def Let_def split: sum.splits prod.splits dest: write_artifacts_Err)

section \<open>Regenerating a report\<close>

lemma parent_of_join:
  assumes "dir \<noteq> []" and "last dir \<noteq> slash" and "f \<noteq> []" and "slash \<notin> set f"
  shows "parent (path_join dir f) = Some dir"
proof -
  have "path_join dir f = dir @ slash # f"
    using assms by (cases f) (auto simp: path_join_def is_absolute_def)
  moreover have "dir @ slash # f \<noteq> [slash]"
    using assms(1) by (cases dir) auto
  ultimately show ?thesis
    using assms by (simp add: parent_def split_on_append split_on_no_sep butlast_append intercalate_split_on)
qed

text \<open>Regenerating a report from the results of a comparison reproduces the report that the comparison wrote, when the
  results file reads back as the results it was written from.\<close>

theorem regenerated_report_identical:
  assumes "write_artifacts X B fs dir results = (fs', Ok d)" and "results_pretty B results = Ok text"
    and "results_from_str B (text @ newline) = Ok results" and "dir \<noteq> []" and "last dir \<noteq> slash"
  shows "regenerate_report_from_results X B fs' (path_join dir ''results.json'') =
    (fs', Ok (path_join dir ''report.md''))"
proof -
  have fs': "fs' = fs(path_join dir ''results.json'' \<mapsto> text @ newline,
      path_join dir ''report.md'' \<mapsto> render_markdown_report X results)"
    using write_artifacts_Ok [OF assms(1)] assms(2) by auto
  have "\<exists>v. write_allowed B (path_join dir ''report.md'') = Ok v"
    using assms(1) by (auto simp: write_artifacts_def write_file_Ok split: sum.splits prod.splits)
  moreover have "path_join dir ''results.json'' \<noteq> path_join dir ''report.md''"
    using assms(4,5) by (simp add: path_join_def is_absolute_def)
  ultimately show ?thesis
    using parent_of_join [OF assms(4,5), of "''results.json''"] assms(3)
    by (auto simp: regenerate_report_from_results_def write_file_def Let_def fs' fun_upd_twist)
qed

section \<open>A sample comparison\<close>

definition sample_bench_lib :: bench_lib where
  "sample_bench_lib =
     \<lparr>current_dir = Ok ''/w'',
      spec_from_json = (\<lambda>_. Ok \<lparr>spec_base_config = ''base.json'', spec_output_dir = Some ''/out'',
        spec_variants = [\<lparr>variant_name = ''two'', variant_overrides = JObject []\<rparr>]\<rparr>),
      spec_from_yaml = (\<lambda>_. Err ''yaml''), json_from_str = (\<lambda>_. Ok (JObject [])),
      config_from_json = (\<lambda>_. Ok default_config), process_env = Map.empty, timestamp = ''t'',
      rfc3339_now = ''now'', git_head = Some (True, ''abc'' @ newline),
      host_os = ''linux'', host_arch = ''x86_64'', host_parallelism = Some 8,
      create_dir_all = (\<lambda>_. Ok ()), write_allowed = (\<lambda>_. Ok ()), results_pretty = (\<lambda>_. Ok ''{}''),
      results_from_str = (\<lambda>_. Ok sample_results)\<rparr>"

definition sample_world :: "nat bench_world" where
  "sample_world =
     \<lparr>world_client = (\<lambda>_ s _. (Suc s, True)), world_measure = (\<lambda>_ _ _ _ s. (s, Some sample_metrics)),
      world_startup = (\<lambda>_ _ _ _ s. (s, Some sample_metrics)), world_delivery = (\<lambda>_ _ _ _ s. (s, Some sample_metrics))\<rparr>"

definition sample_disk :: "str \<rightharpoonup> bytes" where
  "sample_disk = [''/w/spec.json'' \<mapsto> ''{}'', ''/w/base.json'' \<mapsto> ''{}'']"

lemma sample_client: "send_all (world_client sample_world server) s rs = (s + length rs, True)"
  by (induction rs arbitrary: s) (simp_all add: sample_world_def)

lemma sample_workloads: "\<exists>s' ws. run_workloads (world_client sample_world server) (world_measure sample_world server n k) w ps s =
    (s', Some ws)"
proof (induction ps arbitrary: s)
  case (Cons p ps)
  have "world_measure sample_world server n k p s1 = (s1, Some sample_metrics)" for s1
    by (simp add: sample_world_def)
  with Cons [of "s + length (concat (map (plan_warmup p) [0..<w]))"] show ?case
    by (auto simp: sample_client)
qed simp

lemma sample_completed: "\<exists>s' r. completed_suite nm (run_workloads (world_client sample_world server)
    (world_measure sample_world server n k) w ps s) = (s', Some r)"
  using sample_workloads [of server n k w ps s] by (auto simp: completed_suite_def)

lemma sample_command_suites:
  "\<exists>s' r. run_common_commands_suite (world_client sample_world server) (world_measure sample_world server n k) nm c cmds s = (s', Some r)"
  "\<exists>s' r. run_read_heavy_cache_suite (world_client sample_world server) (world_measure sample_world server n k) nm c cmds s = (s', Some r)"
  "\<exists>s' r. run_websocket_commands_suite (world_client sample_world server) (world_measure sample_world server n k) nm c ws s = (s', Some r)"
  "\<exists>s' r. streaming_suite sample_world server nm c st s = (s', Some r)"
  using sample_completed
  by (auto simp: run_common_commands_suite_def run_read_heavy_cache_suite_def run_websocket_commands_suite_def
      streaming_suite_def sample_client, simp add: sample_world_def run_streaming_suite_def)

lemma sample_suites: "\<exists>s' rs. variant_suites sample_world server reg ctx s = (s', Some rs)"
proof -
  let ?c = "vctx_config ctx" and ?n = "vctx_name ctx"
  let ?m = "\<lambda>n k. world_measure sample_world server n k"
  obtain s1 r1 where "run_common_commands_suite (world_client sample_world server)
      (?m (measured_ops (common_commands reg)) (concurrency (common_commands reg))) ?n ?c (common_commands reg) s = (s1, Some r1)"
    using sample_command_suites(1) by metis
  moreover obtain s2 r2 where "run_read_heavy_cache_suite (world_client sample_world server)
      (?m (measured_ops (read_heavy_cache reg)) (concurrency (read_heavy_cache reg))) ?n ?c (read_heavy_cache reg) s1 = (s2, Some r2)"
    using sample_command_suites(2) by metis
  moreover obtain s3 r3 where "run_websocket_commands_suite (world_client sample_world server)
      (?m (ws_measured_ops (websocket_commands reg)) (persistent_connections (websocket_commands reg))) ?n ?c
      (websocket_commands reg) s2 = (s3, Some r3)"
    using sample_command_suites(3) by metis
  moreover obtain s4 r4 where "streaming_suite sample_world server ?n ?c (streaming reg) s3 = (s4, Some r4)"
    using sample_command_suites(4) by metis
  ultimately show ?thesis
    by (simp add: variant_suites_def Let_def)
qed

lemma sample_variant: "\<exists>bs' r. benchmark_variant sample_launch sample_world w reg ctx bs = (bs', Ok r)"
  using sample_suites [of "\<lparr>server_port = 8080\<rparr>" reg ctx "snd bs"]
  by (auto simp: benchmark_variant_def sample_start)

lemma sample_all: "\<exists>bs' rs. benchmark_all sample_launch sample_world w reg cs bs = (bs', Ok rs)"
proof (induction cs arbitrary: bs)
  case (Cons c cs)
  obtain bs1 r where "benchmark_variant sample_launch sample_world w reg c bs = (bs1, Ok r)"
    using sample_variant by metis
  with Cons.IH [of bs1] show ?case by auto
qed simp

lemma sample_spec: "resolve_spec sample_bench_lib sample_disk ''spec.json'' ''/w'' =
    Ok \<lparr>resolved_base_config = ''/w/base.json'', output_root = ''/out'',
        resolved_variants = [\<lparr>variant_name = ''two'', variant_overrides = JObject []\<rparr>]\<rparr>"
  by (simp add: resolve_spec_def sample_bench_lib_def sample_disk_def is_absolute_def path_join_def parent_def parse_spec_def
      extension_def file_name_def resolve_relative_def Let_def)

lemma sample_contexts:
  "\<exists>cs. comparison_contexts X sample_bench_lib (JObject []) [\<lparr>variant_name = ''two'', variant_overrides = JObject []\<rparr>] = Ok cs"
proof -
  have "from_value (config_from_json sample_bench_lib) env (JObject []) = Ok (apply_legacy_aliases default_config)" for env
    by (simp add: from_value_def from_json_value_def sample_bench_lib_def)
  then show ?thesis
    by (simp add: comparison_contexts_def build_variant_context_def)
qed

lemma sample_comparison:
  "\<exists>fs'. run_compare_with_registry X sample_bench_lib sample_launch sample_world ''/w'' ''spec.json'' reg sample_disk s =
     (fs', Ok ''/out/t'')"
proof -
  obtain cs where cs: "comparison_contexts X sample_bench_lib (JObject [])
      [\<lparr>variant_name = ''two'', variant_overrides = JObject []\<rparr>] = Ok cs"
    using sample_contexts by blast
  obtain bs rs where all: "benchmark_all sample_launch sample_world ''/w'' reg cs ({}, s) = (bs, Ok rs)"
    using sample_all by metis
  have base: "load_json_value sample_bench_lib sample_disk ''/w/base.json'' = Ok (JObject [])"
    by (simp add: load_json_value_def sample_bench_lib_def sample_disk_def)
  have dir: "create_dir_all sample_bench_lib p = Ok ()" "path_join ''/out'' (timestamp sample_bench_lib) = ''/out/t''" for p
    by (simp_all add: sample_bench_lib_def path_join_def is_absolute_def)
  have "\<exists>fs'. write_artifacts X sample_bench_lib fs p r = (fs', Ok p)" for fs p r
    by (simp add: write_artifacts_def write_file_def sample_bench_lib_def)
  with cs all show ?thesis
    by (simp add: run_compare_with_registry_def sample_spec base dir Let_def)
qed


theorem failed_comparison_keeps_files_witness:
  "\<exists>e. run_compare_with_registry sample_externals sample_bench_lib sample_launch sample_world ''/w'' ''/none'' smoke sample_disk 0 =
     (sample_disk, Err e)"
proof -
  obtain fs' e where r: "run_compare_with_registry sample_externals sample_bench_lib sample_launch sample_world ''/w'' ''/none''
      smoke sample_disk 0 = (fs', Err e)"
    by (simp add: run_compare_with_registry_def resolve_spec_def is_absolute_def parent_def sample_disk_def Let_def)
  from failed_comparison_keeps_files [OF r] have "fs' = sample_disk"
    by (simp add: sample_bench_lib_def)
  with r show ?thesis by blast
qed

theorem regenerated_report_identical_witness:
  "\<exists>fs'. regenerate_report_from_results sample_externals sample_bench_lib fs' ''/out/t/results.json'' = (fs', Ok ''/out/t/report.md'')"
proof -
  have "\<exists>fs'. write_artifacts sample_externals sample_bench_lib sample_disk ''/out/t'' sample_results = (fs', Ok ''/out/t'')"
    by (simp add: write_artifacts_def write_file_def sample_bench_lib_def)
  then obtain fs' where "write_artifacts sample_externals sample_bench_lib sample_disk ''/out/t'' sample_results = (fs', Ok ''/out/t'')"
    by blast
  from regenerated_report_identical [OF this, of "''{}''"] show ?thesis
    by (auto simp: sample_bench_lib_def path_join_def is_absolute_def)
qed

end
