(* ===== verification/Spec2Isabelle.thy ===== *)
theory Spec2Isabelle
  imports Startup Gateway Compat_Race Bench_Load Bench_Run
begin

text \<open>
  A verification library for redis-web, an HTTP, WebSocket and gRPC gateway in front of Redis. The model is a shallow
  embedding of the Rust sources under \<^verbatim>\<open>src/crates\<close>; names follow the source, and a definition's theory
  says which file it translates.

  \<^bold>\<open>The program.\<close> A client sends a command as a URL path, a request body, a WebSocket message or a protobuf
  message. A transport turns it into an \<^verbatim>\<open>ExecutableCommand\<close>, asks the access rules whether the client may
  run it, and hands it to the executor, which takes a connection of the pool for the command's database and renders the
  reply for the transport. Beside this path there are subscriptions, which share one upstream Redis connection and fan
  messages out to local subscribers, and compat sessions, each with a Redis connection of its own, addressed by an
  identifier. The command line program loads or writes a configuration and assembles the parts. A separate runner
  benchmarks a configuration against variants of it: it launches the server for each, drives it over HTTP, gRPC and
  WebSocket, and reports latencies, throughput and differences.

  \<^bold>\<open>Theories and sources.\<close>
  \<^item> \<open>Prelude\<close>, \<open>Rust_Str\<close>, \<open>Utf8\<close>: types, panics as the value \<open>Panic\<close>, reachability, and
    what the sources use of the standard library (string splitting and trimming, decimal numbers, UTF-8 validation and
    lossy decoding).
  \<^item> \<open>Resp\<close> (\<^verbatim>\<open>resp.rs\<close>), \<open>Json\<close> (serde's value type), \<open>Externals\<close> (\<^verbatim>\<open>interfaces.rs\<close>),
    \<open>Format\<close> (\<^verbatim>\<open>format.rs\<close>), \<open>Request\<close> (\<^verbatim>\<open>request.rs\<close>), \<open>Config\<close> (\<^verbatim>\<open>config.rs\<close>),
    \<open>Acl\<close> (\<^verbatim>\<open>acl.rs\<close>): the core crate.
  \<^item> \<open>Pools\<close> (\<^verbatim>\<open>redis.rs\<close>, \<^verbatim>\<open>executor.rs\<close>), \<open>Handler\<close> (\<^verbatim>\<open>handler.rs\<close>), \<open>Pipeline\<close> and
    \<open>Websocket\<close> (\<^verbatim>\<open>websocket.rs\<close>), \<open>Compat_Session\<close>, \<open>Compat_Api\<close>, \<open>Compat_Ws\<close>,
    \<open>Compat_Race\<close> (\<^verbatim>\<open>compat.rs\<close>), \<open>Pubsub\<close> (\<^verbatim>\<open>pubsub.rs\<close>), \<open>Grpc\<close> (\<^verbatim>\<open>grpc.rs\<close>,
    \<^verbatim>\<open>gateway.proto\<close>), \<open>Server\<close> (\<^verbatim>\<open>server.rs\<close>): the runtime crate.
  \<^item> \<open>Cli\<close> and \<open>Startup\<close> (\<^verbatim>\<open>redis-web/src/lib.rs\<close>, \<^verbatim>\<open>redis-web-compat/src/lib.rs\<close>): the command line, and
    starting the servers with the standard library's address parser.
  \<^item> \<open>Gateway\<close>: the requests of all transports together. Each handler is cut at its await on the executor into a
    \<open>plan\<close>, a decision and what follows the reply, and requests interleave at this point.
    \<open>Config_Serde\<close>: the derived serialisation of the configuration.
  \<^item> \<open>Bench_Spec\<close> (\<^verbatim>\<open>spec.rs\<close>), \<open>Bench_Measure\<close> (\<^verbatim>\<open>model.rs\<close>, workers and metrics of
    \<^verbatim>\<open>suites.rs\<close>), \<open>Bench_Stream\<close>, \<open>Bench_Suites\<close> and \<open>Bench_Load\<close> (the rest of \<^verbatim>\<open>suites.rs\<close>; the last joins the workers with the
    requests they send), \<open>Bench_Report\<close>
    (\<^verbatim>\<open>report.rs\<close>), \<open>Bench_Process\<close> (\<^verbatim>\<open>process.rs\<close>), \<open>Bench_Run\<close> (\<^verbatim>\<open>lib.rs\<close>, \<^verbatim>\<open>summary.rs\<close>,
    \<^verbatim>\<open>main.rs\<close>): the benchmark runner. \<open>F64\<close>: its floating-point arithmetic, a double being the rational it stands for and an
    operation the exact result rounded to 53 bits.

  \<^bold>\<open>How code becomes definitions.\<close> Structs are records, enums are datatypes, a byte is a \<open>char\<close>, strings are
  their UTF-8 bytes, machine integers are words where their width matters. A handler is a function from the state it can
  change (the Redis servers, the pool registry, the session table, the socket's output) to the new state and the answer;
  \<open>Err\<close> and \<open>Panic\<close> are values. Tasks that share state under a lock or a queue are \<open>inductive\<close> step relations
  whose steps are the code between two \<^verbatim>\<open>await\<close> points: \<open>pool_step\<close>, \<open>create_step\<close>, \<open>pubsub_step\<close>,
  \<open>lock_step\<close>, \<open>compat_step\<close>, \<open>gateway_step\<close>, and of the benchmark runner \<open>worker_step\<close>, \<open>load_step\<close> and
  \<open>delivery_step\<close>. Loops are total functions: the read loops of sockets and pipelines shrink their buffer
  (\<open>parse_command\<close> consumes what it returns), so no fuel is needed anywhere.

  \<^bold>\<open>Interfaces.\<close>
  \<^item> \<open>keyed_store\<close> (\<open>Json\<close>): insert and lookup; interpreted for the ordered maps of JSON objects, for hash maps
    and for the session table.
  \<^item> \<open>invariant_system\<close> (\<open>Prelude\<close>): a start and a step relation with an invariant; interpreted for the pool
    registry, session creation, the compat API, the Pub/Sub manager and its lock, the measuring workers and the
    delivery workload.
  \<^item> \<open>terminating_system\<close> (\<open>Prelude\<close>): a step relation that lowers a measure, so that every run ends within a known
    number of steps; interpreted for the measuring workers, alone and with their requests.
  \<^item> \<open>simulation\<close> (\<open>Prelude\<close>): a detailed step relation over an abstract one; interpreted for the workers with their
    requests over the workers alone.
  \<^item> \<open>transport\<close> (\<open>Gateway\<close>): a handler that decides, runs at most one command on the shared executor and answers;
    interpreted for the five ways the gateway runs commands. Its clients get linearizability and the purging of
    refused requests.
  \<^item> \<open>command_loop\<close> and \<open>message_loop\<close> (\<open>Pipeline\<close>): a loop that reads commands from a buffer and a socket that
    feeds it; interpreted for the raw socket, the session socket and the pipeline endpoint.

  \<^bold>\<open>What is shown.\<close> Round trips of the RESP reader, the request path and the reply encoders; which command runs,
  on which database and connection, for HTTP and gRPC, and that a forbidden command never runs; how sockets and pipelines
  behave for every cut of their input; that any interleaving of requests over all transports is a sequence of the
  handlers, and that refused requests leave no trace; when a started server listens; the invariants of the pool registry, the session table and the channel map under
  interleaving; error and panic behaviour of each transport; what the configuration loader and the command line do to
  documents and files. For the benchmark runner: merging and diffing of configurations path by path; that every measured
  operation is issued exactly once by some worker, that its requests reach the server once and in order, and that a
  measurement ends; the order of percentiles under rounding;
  that the launched server runs the configuration under test and none is left behind; that the operations reach Redis
  through the gateway as modelled here, alike over both transports; what a comparison and its report contain. Where the code does not do what its comments or its purpose say, the theorem states what it does
  (the session limit under concurrency, lost subscriptions after a reconnect, the lock and queue deadlock, input-chosen
  capacity, unchecked WebSocket commands, lost events and hidden errors in the benchmark's clients).

  \<^bold>\<open>Parameters.\<close> Third-party code is a record passed to the definitions that use it, and its laws are named
  hypotheses with a concrete instance that satisfies them: \<open>externals\<close> (header values, SHA-1, JSON printing and
  parsing, base64, network prefixes; \<open>header_law\<close>, \<open>sha1_law\<close>), \<open>redis_lib\<close> (URL parsing, pools, queries;
  \<open>url_database_law\<close>), \<open>session_lib\<close> (connections and subscriptions of a session; \<open>calls_succeed\<close>,
  \<open>iteration_law\<close>), \<open>cli_lib\<close> (document parsing and printing), \<open>host_lib\<close> (binding, axum's check of the routes, reflection), \<open>launch_lib\<close> and \<open>bench_lib\<close> (processes, files, clock and parsers
  of the benchmark runner), \<open>bench_world\<close> (how its workloads run).

  \<^bold>\<open>Not modelled.\<close> Path matching in axum, the transports of tonic and tungstenite, the Tokio scheduler beyond
  interleaving, allocation failure below the capacity limit, TLS certificates, log output, the foreign-function bridge to
  the vendored hiredis, build scripts, argument parsing, and the delegation of \<^verbatim>\<open>ConnectionLike\<close> to the pooled connection (\<^verbatim>\<open>redis.rs\<close>).
\<close>

section \<open>A request through the whole gateway\<close>

text \<open>A built runtime: a GET of an encoded command that the rules allow sends exactly that command to Redis.\<close>

lemma runtime_end_to_end:
  assumes "build_runtime X R fresh c = Ok rt" and "url_database_law R"
    and "redis_socket c \<noteq> None \<or> plain_authority (authority c)"
    and "header_law X" and "sha1_law X"
    and "uri_path req = CHR ''/'' # command_path_of db cmd as"
    and "cmd \<noteq> []" and "utf8_valid cmd" and "\<forall>a \<in> set as. utf8_valid a"
    and "query_params req = Map.empty" and "request_headers req ''if-none-match'' = None"
    and "last (True # List.map_filter (verdict X (client_addr req) cmd
      (header_text X (request_headers req) ''authorization'')) (acl_new X (acl c)))"
    and "redis_execute R (rt_registry rt, srv)
      \<lparr>target_database = db, command_name = cmd, command_args = as\<rparr> = ((r', srv'), Ok v)"
  shows "\<exists>resp info srv1.
    handle_get X (rt_app_state rt) (rt_registry rt, srv) req = ((r', srv'), Return resp) \<and> status resp = 200 \<and>
    content resp = json_to_string X (JObject [(cmd,
      json_payload \<lparr>target_database = db, command_name = cmd, command_args = as\<rparr> v)]) \<and>
    conn_db (conn_settings info) = uint db \<and> query R srv1 info (cmd # as) = (srv', Ok v)"
proof -
  let ?cmd = "\<lparr>target_database = db, command_name = cmd, command_args = as\<rparr>"
  note st = build_runtime_Ok(2) [OF assms(1)]
  have acl: "acl_check X (app_acl (rt_app_state rt)) (client_addr req) cmd
      (header_text X (request_headers req) ''authorization'')"
    unfolding acl_check_last_verdict using assms(12) by (simp add: st)
  have ex: "command_executor (rt_app_state rt) (rt_registry rt, srv) ?cmd = ((r', srv'), Ok v)"
    using assms(13) by (simp add: st)
  have parser: "request_parser (rt_app_state rt) = parse_http_request"
    by (simp add: st)
  obtain info srv1 qres where q: "conn_db (conn_settings info) = uint db"
    "query R srv1 info (cmd # as) = (srv', qres)"
    "Ok v = (case qres of Ok v \<Rightarrow> Ok v | Err e \<Rightarrow> Err (ExecutionFailed e))"
    using redis_execute_query [OF build_runtime_registry_ok [OF assms(1)] assms(2,3,13)] by auto
  then have "qres = Ok v"
    by (auto split: sum.splits)
  with q handle_get_encoded [OF parser assms(6-11) acl ex assms(4,5)] show ?thesis
    by blast
qed

text \<open>C1. From the command line to Redis: when the program has started and listens, it serves the handler of GET on every
  path but the special ones, and a GET of an encoded command that the rules of its configuration allow sends exactly
  that command to Redis, on a connection to the database the path names, and answers with the reply as JSON.\<close>

theorem gateway_end_to_end:
  assumes "main_http X R fresh L E fs kind args = Return (Listening ip port (HttpApp routes limit rt))"
    and "snd (load_config E fs kind args) = Loaded c path" and "url_database_law R"
    and "redis_socket c \<noteq> None \<or> plain_authority (authority c)"
    and "header_law X" and "sha1_law X"
    and "uri_path req = CHR ''/'' # command_path_of db cmd as"
    and "cmd \<noteq> []" and "utf8_valid cmd" and "\<forall>a \<in> set as. utf8_valid a"
    and "query_params req = Map.empty" and "request_headers req ''if-none-match'' = None"
    and "last (True # List.map_filter (verdict X (client_addr req) cmd
      (header_text X (request_headers req) ''authorization'')) (acl_new X (acl c)))"
    and "redis_execute R (rt_registry rt, srv)
      \<lparr>target_database = db, command_name = cmd, command_args = as\<rparr> = ((r', srv'), Ok v)"
  shows "(\<exists>ms. (''/{*command}'', ms) \<in> set routes \<and> (GET, HandleGet) \<in> set ms) \<and>
    (\<exists>resp info srv1.
      handle_get X (rt_app_state rt) (rt_registry rt, srv) req = ((r', srv'), Return resp) \<and> status resp = 200 \<and>
      content resp = json_to_string X (JObject [(cmd,
        json_payload \<lparr>target_database = db, command_name = cmd, command_args = as\<rparr> v)]) \<and>
      conn_db (conn_settings info) = uint db \<and> query R srv1 info (cmd # as) = (srv', Ok v))"
proof
  have started: "build_runtime X R fresh c = Ok rt" "routes = build_routes c (rt_compat rt)"
    using assms(1,2) unfolding http_listening_iff by auto
  show "\<exists>ms. (''/{*command}'', ms) \<in> set routes \<and> (GET, HandleGet) \<in> set ms"
    unfolding started(2) build_routes_def by auto
  show "\<exists>resp info srv1.
      handle_get X (rt_app_state rt) (rt_registry rt, srv) req = ((r', srv'), Return resp) \<and> status resp = 200 \<and>
      content resp = json_to_string X (JObject [(cmd,
        json_payload \<lparr>target_database = db, command_name = cmd, command_args = as\<rparr> v)]) \<and>
      conn_db (conn_settings info) = uint db \<and> query R srv1 info (cmd # as) = (srv', Ok v)"
    by (rule runtime_end_to_end [OF started(1) assms(3-14)])
qed

lemma sample_runtime:
  "\<exists>rt. build_runtime sample_externals sample_redis 0 default_config = Ok rt \<and>
     rt_registry rt = registry_new default_config sample_pool 1"
proof -
  have "create_pubsub_client sample_redis default_config = Ok (sample_info (int (digits_val (last
      (split_on (CHR ''/'') (get_redis_url default_config))))))"
    by (simp add: create_pubsub_client_def sample_redis_def default_config_def)
  moreover have "\<not> wants_compat default_config"
    by (simp add: wants_compat_def default_config_def)
  ultimately show ?thesis
    using sample_create_pool by (simp add: build_runtime_def build_runtime_with_dependencies_def Let_def)
qed

lemma sample_execute:
  "\<exists>r' srv'. redis_execute sample_redis (registry_new default_config sample_pool 1, [])
     \<lparr>target_database = 0, command_name = ''GET'', command_args = [''a'']\<rparr> = ((r', srv'), Ok Okay)"
  by (simp add: redis_execute_def pool_for_database_def lookup_pool_def registry_new_def default_config_def
      DEFAULT_DATABASE_def sample_redis_def)

text \<open>An operating system and libraries that accept everything.\<close>

definition sample_host :: host_lib where
  "sample_host = \<lparr>lib_listen = (\<lambda>_ _. Ok ()), lib_routes_ok = (\<lambda>_. True), lib_reflection = Ok ()\<rparr>"

abbreviation no_args :: cli_args where
  "no_args \<equiv> \<lparr>arg_config = None, arg_config_path = None, arg_write_default = False, arg_write_minimal = False\<rparr>"

lemma sample_started:
  assumes "build_runtime sample_externals sample_redis 0 default_config = Ok rt"
  shows "main_http sample_externals sample_redis 0 sample_host sample_cli Map.empty Canonical no_args =
    Return (Listening (V4 0) 7379 (HttpApp (build_routes default_config (rt_compat rt)) (body_limit default_config) rt))"
  unfolding http_listening_iff using assms default_http_host_parses
  by (simp add: load_config_def sample_cli_def sample_host_def default_config_def default_http_port_def)

theorem gateway_end_to_end_witness:
  "\<exists>rt resp r' srv'. main_http sample_externals sample_redis 0 sample_host sample_cli Map.empty Canonical no_args =
      Return (Listening (V4 0) 7379 (HttpApp (build_routes default_config (rt_compat rt)) (body_limit default_config) rt)) \<and>
     handle_get sample_externals (rt_app_state rt) (rt_registry rt, []) sample_request =
       ((r', srv'), Return resp) \<and> status resp = 200"
proof -
  obtain rt where rt: "build_runtime sample_externals sample_redis 0 default_config = Ok rt"
    "rt_registry rt = registry_new default_config sample_pool 1"
    using sample_runtime by blast
  obtain r' srv' where ex: "redis_execute sample_redis (rt_registry rt, [])
      \<lparr>target_database = 0, command_name = ''GET'', command_args = [''a'']\<rparr> = ((r', srv'), Ok Okay)"
    using sample_execute rt(2) by auto
  have acl: "last (True # List.map_filter (verdict sample_externals (client_addr sample_request) ''GET''
      (header_text sample_externals (request_headers sample_request) ''authorization''))
      (acl_new sample_externals (acl default_config)))"
    by (simp add: acl_new_def default_config_def List.map_filter_def)
  have loaded: "snd (load_config sample_cli Map.empty Canonical no_args) = Loaded default_config CANONICAL_CONFIG_NAME"
    by (simp add: load_config_def sample_cli_def config_path_of_def)
  from gateway_end_to_end [OF sample_started [OF rt(1)] loaded sample_url_law _ sample_laws _ _ sample_utf8(1) _ _ _ acl ex]
    sample_authority sample_utf8(2) sample_started [OF rt(1)] show ?thesis
    by (fastforce simp: sample_request_def sample_path_def)
qed

section \<open>The two transports\<close>

text \<open>C12. A GET of an encoded command and a unary gRPC call with the same command, database, address and credentials
  have the same effect: the same command is run, or neither runs anything.\<close>

theorem http_and_grpc_same_effect:
  assumes "request_parser st = parse_http_request"
    and "uri_path req = CHR ''/'' # command_path_of db cmd as"
    and "cmd \<noteq> []" and "utf8_valid cmd" and "\<forall>a \<in> set as. utf8_valid a"
    and "remote_ip md = Some (client_addr req)" and "md_authorization md = request_headers req ''authorization''"
  shows "fst (handle_get X st b req) =
    fst (grpc_execute X st b md \<lparr>req_command = cmd, req_database = Some (ucast db), req_args = as\<rparr>)"
proof -
  let ?i = "parse_input st (command_path_of db cmd as) (query_params req) None"
  let ?cmd = "\<lparr>target_database = db, command_name = cmd, command_args = as\<rparr>"
  have trim: "trim_start_matches (CHR ''/'') (uri_path req) = command_path_of db cmd as"
    using trim_command_path [of db cmd as "[]"] assms(2) by simp
  obtain p where p: "parse_http_request ?i = Ok p" "command p = ?cmd"
    using parse_encoded_path [of ?i db cmd as] assms(3-5) by (simp add: parse_input_def body_args_def)
  have auth: "grpc_auth_context X md =
      \<lparr>client_ip = client_addr req, authorization = header_text X (request_headers req) ''authorization''\<rparr>"
    using assms(6,7) by (simp add: grpc_auth_context_def authorization_header_def header_text_def)
  have "unat (ucast db :: u32) = unat db"
    using unsigned_less [of db, where 'a = nat] by (simp add: unsigned_ucast_eq take_bit_nat_eq_self)
  then have "requested_database (app_default_database st)
      \<lparr>req_command = cmd, req_database = Some (ucast db), req_args = as\<rparr> = unat db" and "unat db \<le> 255"
    using unsigned_less [of db, where 'a = nat] by (simp_all add: requested_database_def)
  then have from_proto: "command_from_proto (app_default_database st)
      \<lparr>req_command = cmd, req_database = Some (ucast db), req_args = as\<rparr> = Ok ?cmd"
    using assms(3) by (simp add: command_from_proto_eq)
  show ?thesis
    using p assms(1) unfolding handle_get_def handle_with_body_def trim
    by (auto simp: process_request_def grpc_execute_def from_proto auth authorize_def parse_input_def Let_def
        split: prod.splits sum.splits)
qed

theorem http_and_grpc_same_effect_witness:
  "fst (handle_get sample_externals sample_app 0 sample_request) =
    fst (grpc_execute sample_externals sample_app 0 \<lparr>remote_ip = Some (V4 1), md_authorization = None\<rparr>
      \<lparr>req_command = ''GET'', req_database = Some (ucast (0 :: u8)), req_args = [''a'']\<rparr>)"
  by (rule http_and_grpc_same_effect [where db = 0])
    (simp_all add: sample_app_def sample_request_def sample_path_def utf8_valid_ascii)

end
